theory Spec2Isabelle
  imports Complex_Main "HOL-Library.AList" "HOL-Library.Multiset"
begin

section \<open>Domain model (scheduler/models/domain.py)\<close>

text \<open>
  Identifiers are UUIDs; only equality on them is ever used, so they are natural
  numbers here. A \<open>UUID\<close> object is always truthy in Python, so a test
  \<open>if section.fixed_room_id:\<close> is a test for \<open>Some\<close>.
  A \<open>frozenset\<close> field is the list of its elements (\<open>set(...)\<close> is
  \<open>remdups\<close>); the order in which Python iterates a set is not specified, the
  model iterates in list order and no theorem below depends on that order.
  Record fields carry a prefix where two classes of the source share a field name
  (\<open>id\<close>, \<open>day_of_week\<close>, \<open>start_time\<close>, \<open>end_time\<close>,
  \<open>meeting_pattern_id\<close>, \<open>section_id\<close>, \<open>room_id\<close>, \<open>status\<close>); fields that no
  modelled function reads (names, codes) are left out, and a room keeps the ids of its
  features. A function whose name starts with an underscore in the source has the same
  name without it.
\<close>

type_synonym uuid = nat

text \<open>\<open>datetime.time\<close>: compared field by field, in this order.\<close>

record time =
  hour :: nat
  minute :: nat
  second :: nat
  microsecond :: nat

definition time_lt :: "time \<Rightarrow> time \<Rightarrow> bool" where
  "time_lt a b \<longleftrightarrow>
     hour a < hour b \<or> (hour a = hour b \<and>
       (minute a < minute b \<or> (minute a = minute b \<and>
         (second a < second b \<or> (second a = second b \<and>
            microsecond a < microsecond b)))))"

definition time_le :: "time \<Rightarrow> time \<Rightarrow> bool" where
  "time_le a b \<longleftrightarrow> time_lt a b \<or> a = b"

datatype PreferenceLevel = PROHIBITED | DISCOURAGED | NEUTRAL | PREFERRED | REQUIRED

record MeetingTime =
  day_of_week :: int
  start_time :: time
  end_time :: time
  break_minutes :: int

record MeetingPattern =
  p_id :: uuid
  times :: "MeetingTime list"
  total_minutes_per_week :: int

record Room =
  r_id :: uuid
  capacity :: int
  building_id :: uuid
  features :: "uuid list"
  is_schedulable :: bool

record InstructorPreference =
  pref_day_of_week :: "int option"
  pref_start_time :: "time option"
  pref_end_time :: "time option"
  pref_meeting_pattern_id :: "uuid option"
  preference_level :: PreferenceLevel

record Instructor =
  i_id :: uuid
  time_preferences :: "InstructorPreference list"

record Course =
  c_id :: uuid
  c_required_room_features :: "uuid list"

record Section =
  s_id :: uuid
  course_id :: uuid
  expected_enrollment :: int
  allowed_meeting_pattern_ids :: "uuid list option"
  allowed_room_ids :: "uuid list option"
  required_room_features :: "uuid list"
  preferred_instructor_ids :: "uuid list"
  assigned_instructor_ids :: "uuid list"
  cross_list_group_id :: "uuid option"
  link_group_id :: "uuid option"
  is_link_parent :: bool
  fixed_meeting_pattern_id :: "uuid option"
  fixed_room_id :: "uuid option"
  fixed_date_pattern_id :: "uuid option"

text \<open>
  A constraint weight is a Python float: a finite value, which is a rational number,
  one of the two infinities, or NaN. Date patterns are used through their ids only.
\<close>

datatype pyfloat = Finite rat | PosInf | NegInf | NaN

record SolverInput =
  meeting_patterns :: "MeetingPattern list"
  date_patterns :: "uuid list"
  rooms :: "Room list"
  instructors :: "Instructor list"
  courses :: "Course list"
  sections :: "Section list"
  constraint_weights :: "(string \<times> pyfloat) list"
  constraint_options :: "(string \<times> string) list"

section \<open>The constraint model under construction\<close>

text \<open>
  The solver library is not part of the repository; the model keeps what the
  repository's calls into it build. \<open>NewBoolVar\<close> returns a fresh 0/1 variable
  (identified by its index in the model), \<open>NewConstant c\<close> a variable fixed to
  \<open>c\<close>, \<open>NewIntVar\<close> a fresh variable with bounds. Each constructor of
  \<open>constr\<close> is one shape of constraint the source adds.
\<close>

datatype intvar = BoolVar nat | Constant int

datatype constr =
    SumLe "intvar list" int
  | SumGe "intvar list" intvar
  | EqConst intvar int
  | EqVar intvar intvar
  | ExactlyOne "intvar list"
  | AtMostOne "intvar list"
  | MultiplicationEquality intvar "intvar list"

record CpModel =
  num_vars :: nat
  constraints :: "constr list"

definition NewBoolVar :: "CpModel \<Rightarrow> intvar \<times> CpModel" where
  "NewBoolVar m = (BoolVar (num_vars m), m\<lparr>num_vars := Suc (num_vars m)\<rparr>)"

definition Add :: "constr \<Rightarrow> CpModel \<Rightarrow> CpModel" where
  "Add c m = m\<lparr>constraints := constraints m @ [c]\<rparr>"

text \<open>A solution gives every variable index a value; \<open>Value\<close> reads a variable.\<close>

fun Value :: "(nat \<Rightarrow> int) \<Rightarrow> intvar \<Rightarrow> int" where
  "Value v (BoolVar n) = v n"
| "Value v (Constant c) = c"

fun sat :: "(nat \<Rightarrow> int) \<Rightarrow> constr \<Rightarrow> bool" where
  "sat v (SumLe xs k) = (sum_list (map (Value v) xs) \<le> k)"
| "sat v (SumGe xs y) = (sum_list (map (Value v) xs) \<ge> Value v y)"
| "sat v (EqConst x k) = (Value v x = k)"
| "sat v (EqVar x y) = (Value v x = Value v y)"
| "sat v (ExactlyOne xs) = (sum_list (map (Value v) xs) = 1)"
| "sat v (AtMostOne xs) = (sum_list (map (Value v) xs) \<le> 1)"
| "sat v (MultiplicationEquality x ys) = (Value v x = prod_list (map (Value v) ys))"

text \<open>
  A feasible solution keeps every 0/1 variable in its domain and satisfies every
  constraint of the model.
\<close>

definition feasible :: "(nat \<Rightarrow> int) \<Rightarrow> CpModel \<Rightarrow> bool" where
  "feasible v m \<longleftrightarrow>
     list_all (\<lambda>n. v n = 0 \<or> v n = 1) [0..<num_vars m] \<and> list_all (sat v) (constraints m)"

section \<open>Variable factory (CPSATSolver._create_variables, solvers/cpsat.py)\<close>

text \<open>
  The solver object: the model and the four dictionaries of decision variables.
  A Python \<open>dict\<close> is an association list with \<open>AList.update\<close> (a new key
  goes to the end, an old key keeps its place), \<open>d.get k\<close> is \<open>map_of d k\<close>.
\<close>

record CPSATSolver =
  model :: CpModel
  section_pattern_vars :: "((uuid \<times> uuid) \<times> intvar) list"
  section_room_vars :: "((uuid \<times> uuid) \<times> intvar) list"
  section_room_pattern_vars :: "((uuid \<times> uuid \<times> uuid) \<times> intvar) list"
  section_instructor_vars :: "((uuid \<times> uuid) \<times> intvar) list"

definition init_solver :: CPSATSolver where
  "init_solver = \<lparr>model = \<lparr>num_vars = 0, constraints = []\<rparr>,
     section_pattern_vars = [], section_room_vars = [],
     section_room_pattern_vars = [], section_instructor_vars = []\<rparr>"

text \<open>
  \<open>set(section.allowed_meeting_pattern_ids) if section.allowed_meeting_pattern_ids
  else {p.id for p in self.input.meeting_patterns}\<close>: the test is Python truthiness,
  false for \<open>None\<close> and for the empty set.
\<close>

definition allowed_patterns :: "SolverInput \<Rightarrow> Section \<Rightarrow> uuid list" where
  "allowed_patterns inp s =
     (case allowed_meeting_pattern_ids s of
        Some ids \<Rightarrow> if ids \<noteq> [] then remdups ids
                    else remdups (map p_id (meeting_patterns inp))
      | None \<Rightarrow> remdups (map p_id (meeting_patterns inp)))"

definition allowed_rooms :: "SolverInput \<Rightarrow> Section \<Rightarrow> uuid list" where
  "allowed_rooms inp s =
     (case allowed_room_ids s of
        Some ids \<Rightarrow> if ids \<noteq> [] then remdups ids
                    else remdups (map r_id (rooms inp))
      | None \<Rightarrow> remdups (map r_id (rooms inp)))"

definition create_pattern_var :: "Section \<Rightarrow> uuid \<Rightarrow> CPSATSolver \<Rightarrow> CPSATSolver" where
  "create_pattern_var s pattern_id st =
     (case fixed_meeting_pattern_id s of
        Some f \<Rightarrow>
          st\<lparr>section_pattern_vars :=
               AList.update (s_id s, pattern_id) (Constant (if pattern_id = f then 1 else 0))
                 (section_pattern_vars st)\<rparr>
      | None \<Rightarrow>
          (let (var, m) = NewBoolVar (model st)
           in st\<lparr>model := m,
                 section_pattern_vars :=
                   AList.update (s_id s, pattern_id) var (section_pattern_vars st)\<rparr>))"

definition create_room_var :: "Section \<Rightarrow> uuid \<Rightarrow> CPSATSolver \<Rightarrow> CPSATSolver" where
  "create_room_var s room_id st =
     (case fixed_room_id s of
        Some f \<Rightarrow>
          st\<lparr>section_room_vars :=
               AList.update (s_id s, room_id) (Constant (if room_id = f then 1 else 0))
                 (section_room_vars st)\<rparr>
      | None \<Rightarrow>
          (let (var, m) = NewBoolVar (model st)
           in st\<lparr>model := m,
                 section_room_vars :=
                   AList.update (s_id s, room_id) var (section_room_vars st)\<rparr>))"

definition create_room_pattern_var ::
  "Section \<Rightarrow> uuid \<Rightarrow> uuid \<Rightarrow> CPSATSolver \<Rightarrow> CPSATSolver" where
  "create_room_pattern_var s pattern_id room_id st =
     (let (var, m) = NewBoolVar (model st);
          st1 = st\<lparr>model := m,
                   section_room_pattern_vars :=
                     AList.update (s_id s, room_id, pattern_id) var
                       (section_room_pattern_vars st)\<rparr>
      in case (map_of (section_pattern_vars st1) (s_id s, pattern_id),
               map_of (section_room_vars st1) (s_id s, room_id)) of
           (Some pattern_var, Some room_var) \<Rightarrow>
             st1\<lparr>model := Add (MultiplicationEquality var [pattern_var, room_var]) (model st1)\<rparr>
         | _ \<Rightarrow> st1)"

definition potential_instructors :: "Section \<Rightarrow> uuid list" where
  "potential_instructors s =
     filter (\<lambda>i. i \<notin> set (assigned_instructor_ids s)) (remdups (preferred_instructor_ids s))"

definition create_instructor_var :: "Section \<Rightarrow> uuid \<Rightarrow> CPSATSolver \<Rightarrow> CPSATSolver" where
  "create_instructor_var s instructor_id st =
     (let (var, m) = NewBoolVar (model st)
      in st\<lparr>model := m,
            section_instructor_vars :=
              AList.update (s_id s, instructor_id) var (section_instructor_vars st)\<rparr>)"

definition create_section_variables :: "SolverInput \<Rightarrow> Section \<Rightarrow> CPSATSolver \<Rightarrow> CPSATSolver" where
  "create_section_variables inp s st =
     (let st1 = fold (create_pattern_var s) (allowed_patterns inp s) st;
          st2 = fold (create_room_var s) (allowed_rooms inp s) st1;
          st3 = fold (\<lambda>pattern_id. fold (create_room_pattern_var s pattern_id) (allowed_rooms inp s))
                  (allowed_patterns inp s) st2
      in fold (create_instructor_var s) (potential_instructors s) st3)"

definition create_variables :: "SolverInput \<Rightarrow> CPSATSolver \<Rightarrow> CPSATSolver" where
  "create_variables inp st = fold (create_section_variables inp) (sections inp) st"


section \<open>Assignment shape (CPSATSolver._add_assignment_constraints)\<close>

definition section_vars_in_order ::
  "((uuid \<times> uuid) \<times> intvar) list \<Rightarrow> uuid \<Rightarrow> uuid list \<Rightarrow> intvar list" where
  "section_vars_in_order d sid ids =
     concat (map (\<lambda>i. case map_of d (sid, i) of Some var \<Rightarrow> [var] | None \<Rightarrow> []) ids)"

definition add_section_assignment_constraints ::
  "SolverInput \<Rightarrow> CPSATSolver \<Rightarrow> Section \<Rightarrow> CpModel \<Rightarrow> CpModel" where
  "add_section_assignment_constraints inp st s m =
     (let pattern_vars = section_vars_in_order (section_pattern_vars st) (s_id s)
                           (map p_id (meeting_patterns inp));
          m1 = (if pattern_vars \<noteq> [] then Add (ExactlyOne pattern_vars) m else m);
          room_vars = section_vars_in_order (section_room_vars st) (s_id s)
                        (map r_id (rooms inp));
          m2 = (if room_vars \<noteq> [] then Add (ExactlyOne room_vars) m1 else m1)
      in if assigned_instructor_ids s = []
         then (let instructor_vars = section_vars_in_order (section_instructor_vars st) (s_id s)
                                       (preferred_instructor_ids s)
               in if instructor_vars \<noteq> [] then Add (AtMostOne instructor_vars) m2 else m2)
         else m2)"

definition add_assignment_constraints :: "SolverInput \<Rightarrow> CPSATSolver \<Rightarrow> CPSATSolver" where
  "add_assignment_constraints inp st =
     st\<lparr>model := fold (add_section_assignment_constraints inp st) (sections inp) (model st)\<rparr>"

section \<open>Hard constraints (scheduler/constraints/hard.py)\<close>

subsection \<open>Pattern overlap\<close>

definition patterns_overlap :: "MeetingPattern \<Rightarrow> MeetingPattern \<Rightarrow> bool" where
  "patterns_overlap p1 p2 =
     list_ex (\<lambda>t1. list_ex (\<lambda>t2.
        day_of_week t1 = day_of_week t2 \<and>
        time_lt (start_time t1) (end_time t2) \<and> time_lt (start_time t2) (end_time t1))
       (times p2)) (times p1)"

text \<open>
  \<open>overlapping_patterns\<close> is a \<open>defaultdict(set)\<close>: reading a missing key with
  \<open>d[k]\<close> creates it; \<open>d.get(k, set())\<close> does not.
\<close>

definition add_to_set :: "uuid \<Rightarrow> uuid \<Rightarrow> (uuid \<times> uuid list) list \<Rightarrow> (uuid \<times> uuid list) list" where
  "add_to_set k x d =
     (case map_of d k of
        None \<Rightarrow> AList.update k [x] d
      | Some xs \<Rightarrow> AList.update k (if x \<in> set xs then xs else xs @ [x]) d)"

definition overlapping_patterns :: "MeetingPattern list \<Rightarrow> (uuid \<times> uuid list) list" where
  "overlapping_patterns pats =
     fold (\<lambda>p1. fold (\<lambda>p2 d.
             if p_id p1 \<noteq> p_id p2 \<and> patterns_overlap p1 p2
             then add_to_set (p_id p1) (p_id p2) d else d) pats) pats []"

definition get_or_empty :: "('k \<times> 'a list) list \<Rightarrow> 'k \<Rightarrow> 'a list" where
  "get_or_empty d k = (case map_of d k of Some xs \<Rightarrow> xs | None \<Rightarrow> [])"

subsection \<open>Room conflicts (add_room_conflict_constraints)\<close>

definition room_section_by_pattern ::
  "Section list \<Rightarrow> MeetingPattern list \<Rightarrow> ((uuid \<times> uuid \<times> uuid) \<times> intvar) list \<Rightarrow> uuid
     \<Rightarrow> (uuid \<times> intvar list) list" where
  "room_section_by_pattern secs pats srpv room_id =
     fold (\<lambda>s. fold (\<lambda>p d.
             case map_of srpv (s_id s, room_id, p_id p) of
               Some var \<Rightarrow> AList.update (p_id p) (get_or_empty d (p_id p) @ [var]) d
             | None \<Rightarrow> d) pats) secs []"

text \<open>
  The loop over overlapping pairs threads the set \<open>processed_pairs\<close> beside the model;
  \<open>tuple(sorted([a, b]))\<close> is \<open>(min a b, max a b)\<close>.
\<close>

definition add_overlap_pair ::
  "(uuid \<times> intvar list) list \<Rightarrow> uuid \<Rightarrow> uuid \<Rightarrow> (uuid \<times> uuid) list \<times> CpModel
     \<Rightarrow> (uuid \<times> uuid) list \<times> CpModel" where
  "add_overlap_pair by_pattern pattern_id overlap_id acc =
     (let (processed_pairs, m) = acc;
          pair = (min pattern_id overlap_id, max pattern_id overlap_id)
      in if pair \<in> set processed_pairs then acc
         else (let vars_p1 = get_or_empty by_pattern pattern_id;
                   vars_p2 = get_or_empty by_pattern overlap_id
               in (processed_pairs @ [pair],
                   if vars_p1 \<noteq> [] \<and> vars_p2 \<noteq> []
                   then Add (SumLe (vars_p1 @ vars_p2) 1) m else m)))"

definition add_room_conflicts_for_room ::
  "Section list \<Rightarrow> MeetingPattern list \<Rightarrow> ((uuid \<times> uuid \<times> uuid) \<times> intvar) list
     \<Rightarrow> Room \<Rightarrow> CpModel \<Rightarrow> CpModel" where
  "add_room_conflicts_for_room secs pats srpv room m =
     (let by_pattern = room_section_by_pattern secs pats srpv (r_id room);
          m1 = fold (\<lambda>(pattern_id, pattern_vars) m'.
                  if length pattern_vars > 1 then Add (SumLe pattern_vars 1) m' else m')
                 by_pattern m
      in snd (fold (\<lambda>(pattern_id, overlaps). fold (add_overlap_pair by_pattern pattern_id) overlaps)
                (overlapping_patterns pats) ([], m1)))"

definition add_room_conflict_constraints ::
  "CpModel \<Rightarrow> Section list \<Rightarrow> Room list \<Rightarrow> MeetingPattern list
     \<Rightarrow> ((uuid \<times> uuid \<times> uuid) \<times> intvar) list \<Rightarrow> CpModel" where
  "add_room_conflict_constraints m secs rms pats srpv =
     fold (add_room_conflicts_for_room secs pats srpv) rms m"

subsection \<open>Instructor conflicts (add_instructor_conflict_constraints)\<close>

text \<open>
  This function evaluates optional variables as conditions (\<open>if a and b:\<close>) and adds
  them up (\<open>a + b + c <= 2\<close>). What \<open>bool(x)\<close> does for a variable object is the
  solver library's business and is a parameter \<open>lib\<close> here: \<open>None\<close> when the
  object is truthy (Python's default for an object), \<open>Some e\<close> when the library's
  \<open>__bool__\<close> raises \<open>e\<close>. \<open>None\<close> itself is falsy, and adding \<open>None\<close> to
  a linear expression raises \<open>TypeError\<close>.
\<close>

datatype py_error = TypeError | NotImplementedError | OverflowError | ValueError

definition var_bool :: "py_error option \<Rightarrow> intvar option \<Rightarrow> py_error + bool" where
  "var_bool lib x =
     (case x of None \<Rightarrow> Inr False
      | Some _ \<Rightarrow> (case lib of None \<Rightarrow> Inr True | Some e \<Rightarrow> Inl e))"

definition var_and :: "py_error option \<Rightarrow> intvar option \<Rightarrow> intvar option \<Rightarrow> py_error + bool" where
  "var_and lib a b =
     (case var_bool lib a of
        Inl e \<Rightarrow> Inl e
      | Inr t \<Rightarrow> if t then var_bool lib b else Inr False)"

fun linear_sum :: "intvar option list \<Rightarrow> py_error + intvar list" where
  "linear_sum [] = Inr []"
| "linear_sum (None # xs) = Inl TypeError"
| "linear_sum (Some x # xs) = (case linear_sum xs of Inl e \<Rightarrow> Inl e | Inr ys \<Rightarrow> Inr (x # ys))"

definition add_sum_le :: "intvar option list \<Rightarrow> int \<Rightarrow> CpModel \<Rightarrow> py_error + CpModel" where
  "add_sum_le xs k m = (case linear_sum xs of Inl e \<Rightarrow> Inl e | Inr ys \<Rightarrow> Inr (Add (SumLe ys k) m))"

fun fold_err :: "('a \<Rightarrow> 's \<Rightarrow> py_error + 's) \<Rightarrow> 'a list \<Rightarrow> 's \<Rightarrow> py_error + 's" where
  "fold_err f [] s = Inr s"
| "fold_err f (x # xs) s = (case f x s of Inl e \<Rightarrow> Inl e | Inr s' \<Rightarrow> fold_err f xs s')"

text \<open>\<open>for i, s1 in enumerate(xs): for s2 in xs[i + 1:]\<close>, in the order of the loops.\<close>

fun later_pairs :: "'a list \<Rightarrow> ('a \<times> 'a) list" where
  "later_pairs [] = []"
| "later_pairs (x # xs) = map (Pair x) xs @ later_pairs xs"

definition all_instructor_ids :: "Section list \<Rightarrow> uuid list" where
  "all_instructor_ids secs =
     remdups (concat (map (\<lambda>s. assigned_instructor_ids s @ preferred_instructor_ids s) secs))"

definition instructor_conflict ::
  "py_error option \<Rightarrow> ((uuid \<times> uuid) \<times> intvar) list \<Rightarrow> ((uuid \<times> uuid) \<times> intvar) list
     \<Rightarrow> uuid \<Rightarrow> Section \<Rightarrow> Section \<Rightarrow> uuid \<Rightarrow> uuid \<Rightarrow> CpModel \<Rightarrow> py_error + CpModel" where
  "instructor_conflict lib spv siv instructor_id s1 s2 p1_id p2_id m =
     (let var_s1_p1 = map_of spv (s_id s1, p1_id);
          var_s2_p2 = map_of spv (s_id s2, p2_id);
          var_s1_inst = map_of siv (s_id s1, instructor_id);
          var_s2_inst = map_of siv (s_id s2, instructor_id)
      in case var_and lib var_s1_p1 var_s2_p2 of
           Inl e \<Rightarrow> Inl e
         | Inr both_patterns \<Rightarrow>
             if \<not> both_patterns then Inr m
             else (case var_and lib var_s1_inst var_s2_inst of
                     Inl e \<Rightarrow> Inl e
                   | Inr both_inst \<Rightarrow>
                       if both_inst
                       then add_sum_le [var_s1_p1, var_s2_p2, var_s1_inst, var_s2_inst] 3 m
                       else if instructor_id \<in> set (assigned_instructor_ids s1)
                       then add_sum_le [var_s1_p1, var_s2_p2, var_s2_inst] 2 m
                       else if instructor_id \<in> set (assigned_instructor_ids s2)
                       then add_sum_le [var_s1_p1, var_s2_p2, var_s1_inst] 2 m
                       else Inr m))"

definition instructor_sections ::
  "((uuid \<times> uuid) \<times> intvar) list \<Rightarrow> Section list \<Rightarrow> uuid \<Rightarrow> Section list" where
  "instructor_sections siv secs instructor_id =
     filter (\<lambda>s. map_of siv (s_id s, instructor_id) \<noteq> None
                 \<or> instructor_id \<in> set (assigned_instructor_ids s)) secs"

definition add_instructor_conflict_constraints ::
  "py_error option \<Rightarrow> CpModel \<Rightarrow> Section list \<Rightarrow> MeetingPattern list
     \<Rightarrow> ((uuid \<times> uuid) \<times> intvar) list \<Rightarrow> ((uuid \<times> uuid) \<times> intvar) list
     \<Rightarrow> py_error + CpModel" where
  "add_instructor_conflict_constraints lib m secs pats spv siv =
     (let overlapping = overlapping_patterns pats
      in fold_err (\<lambda>instructor_id m'.
           let ss = instructor_sections siv secs instructor_id
           in if length ss < 2 then Inr m'
              else fold_err (\<lambda>(s1, s2).
                     fold_err (\<lambda>p1_id.
                       fold_err (instructor_conflict lib spv siv instructor_id s1 s2 p1_id)
                         (get_or_empty overlapping p1_id))
                       (map p_id pats))
                     (later_pairs ss) m')
           (all_instructor_ids secs) m)"

subsection \<open>Room capacity (add_room_capacity_constraints)\<close>

definition add_room_capacity_constraints ::
  "CpModel \<Rightarrow> Section list \<Rightarrow> Room list \<Rightarrow> ((uuid \<times> uuid) \<times> intvar) list \<Rightarrow> CpModel" where
  "add_room_capacity_constraints m secs rms srv =
     fold (\<lambda>s. fold (\<lambda>room m'.
             case map_of srv (s_id s, r_id room) of
               Some var \<Rightarrow>
                 if capacity room < expected_enrollment s then Add (EqConst var 0) m' else m'
             | None \<Rightarrow> m') rms) secs m"

subsection \<open>Room features (add_room_feature_constraints)\<close>

definition course_features :: "Course list \<Rightarrow> (uuid \<times> uuid list) list" where
  "course_features cs = fold (\<lambda>c. AList.update (c_id c) (remdups (c_required_room_features c))) cs []"

definition add_room_feature_constraints ::
  "CpModel \<Rightarrow> Section list \<Rightarrow> Room list \<Rightarrow> (uuid \<times> uuid list) list
     \<Rightarrow> ((uuid \<times> uuid) \<times> intvar) list \<Rightarrow> CpModel" where
  "add_room_feature_constraints m secs rms course_feats srv =
     fold (\<lambda>s m'.
        let required_features =
              remdups (required_room_features s @ get_or_empty course_feats (course_id s))
        in if required_features = [] then m'
           else fold (\<lambda>room m''.
                  case map_of srv (s_id s, r_id room) of
                    None \<Rightarrow> m''
                  | Some var \<Rightarrow>
                      (let missing_features =
                             filter (\<lambda>f. f \<notin> set (features room)) required_features
                       in if missing_features \<noteq> [] then Add (EqConst var 0) m'' else m''))
                 rms m') secs m"


subsection \<open>Cross-listed sections (add_cross_list_constraints)\<close>

text \<open>
  \<open>groups[key].append(section)\<close> on a \<open>defaultdict(list)\<close>, for the sections whose
  key is set.
\<close>

definition group_sections :: "(Section \<Rightarrow> uuid option) \<Rightarrow> Section list \<Rightarrow> (uuid \<times> Section list) list" where
  "group_sections key secs =
     fold (\<lambda>s d. case key s of
                    None \<Rightarrow> d
                  | Some g \<Rightarrow> AList.update g (get_or_empty d g @ [s]) d) secs []"

text \<open>\<open>{pid for (sid, pid) in vars.keys() if sid == section.id}\<close>\<close>

definition ids_of_section :: "((uuid \<times> uuid) \<times> intvar) list \<Rightarrow> uuid \<Rightarrow> uuid list" where
  "ids_of_section d sid = map (snd \<circ> fst) (filter (\<lambda>kv. fst (fst kv) = sid) d)"

definition add_equal_on_common ::
  "((uuid \<times> uuid) \<times> intvar) list \<Rightarrow> Section \<Rightarrow> Section \<Rightarrow> CpModel \<Rightarrow> CpModel" where
  "add_equal_on_common d anchor other m =
     (let anchor_ids = ids_of_section d (s_id anchor);
          other_ids = ids_of_section d (s_id other);
          common = filter (\<lambda>i. i \<in> set other_ids) anchor_ids
      in fold (\<lambda>i m'.
            case (map_of d (s_id anchor, i), map_of d (s_id other, i)) of
              (Some anchor_var, Some other_var) \<Rightarrow> Add (EqVar anchor_var other_var) m'
            | _ \<Rightarrow> m') common m)"

definition add_cross_list_constraints ::
  "CpModel \<Rightarrow> Section list \<Rightarrow> ((uuid \<times> uuid) \<times> intvar) list
     \<Rightarrow> ((uuid \<times> uuid) \<times> intvar) list \<Rightarrow> CpModel" where
  "add_cross_list_constraints m secs spv srv =
     fold (\<lambda>(group_id, grp) m'.
        case grp of
          anchor # other1 # others \<Rightarrow>
            fold (\<lambda>other m''.
                    add_equal_on_common srv anchor other (add_equal_on_common spv anchor other m''))
                 (other1 # others) m'
        | _ \<Rightarrow> m')
       (group_sections cross_list_group_id secs) m"

subsection \<open>Linked sections (add_linked_section_constraints)\<close>

definition get_pattern_days :: "MeetingPattern \<Rightarrow> int list" where
  "get_pattern_days p = remdups (map day_of_week (times p))"

definition minutes_of :: "time \<Rightarrow> int" where
  "minutes_of t = int (hour t) * 60 + int (minute t)"

definition patterns_compatible_immediately_after ::
  "MeetingPattern \<Rightarrow> MeetingPattern \<Rightarrow> int \<Rightarrow> bool" where
  "patterns_compatible_immediately_after parent_pattern child_pattern max_gap_minutes =
     (let parent_days = get_pattern_days parent_pattern;
          child_days = get_pattern_days child_pattern;
          common_days = filter (\<lambda>d. d \<in> set child_days) parent_days
      in if common_days = [] then False
         else list_ex (\<lambda>day.
                let parent_times = filter (\<lambda>t. day_of_week t = day) (times parent_pattern);
                    child_times = filter (\<lambda>t. day_of_week t = day) (times child_pattern)
                in list_ex (\<lambda>pt. list_ex (\<lambda>ct.
                     let parent_end_minutes = minutes_of (end_time pt);
                         child_start_minutes = minutes_of (start_time ct);
                         gap = child_start_minutes - parent_end_minutes
                     in 0 \<le> gap \<and> gap \<le> max_gap_minutes) child_times) parent_times)
              common_days)"

definition pattern_by_id :: "MeetingPattern list \<Rightarrow> (uuid \<times> MeetingPattern) list" where
  "pattern_by_id pats = fold (\<lambda>p. AList.update (p_id p) p) pats []"

definition compatible_after_pids ::
  "MeetingPattern list \<Rightarrow> ((uuid \<times> uuid) \<times> intvar) list \<Rightarrow> Section \<Rightarrow> MeetingPattern \<Rightarrow> uuid list" where
  "compatible_after_pids pats spv child parent_pattern =
     filter (\<lambda>child_pid. case map_of (pattern_by_id pats) child_pid of
                            Some child_pattern \<Rightarrow>
                              patterns_compatible_immediately_after parent_pattern child_pattern 30
                          | None \<Rightarrow> False)
       (ids_of_section spv (s_id child))"

definition add_immediately_after_constraint ::
  "CpModel \<Rightarrow> Section \<Rightarrow> Section \<Rightarrow> MeetingPattern list
     \<Rightarrow> ((uuid \<times> uuid) \<times> intvar) list \<Rightarrow> CpModel" where
  "add_immediately_after_constraint m parent child pats spv =
     fold (\<lambda>parent_pid m'.
        case map_of (pattern_by_id pats) parent_pid of
          None \<Rightarrow> m'
        | Some parent_pattern \<Rightarrow>
            (case map_of spv (s_id parent, parent_pid) of
               None \<Rightarrow> m'
             | Some parent_var \<Rightarrow>
                 (let compatible_child_pids = compatible_after_pids pats spv child parent_pattern
                  in if compatible_child_pids = []
                     then Add (EqConst parent_var 0) m'
                     else (let compatible_child_vars =
                                 section_vars_in_order spv (s_id child) compatible_child_pids
                           in if compatible_child_vars \<noteq> []
                              then Add (SumGe compatible_child_vars parent_var) m'
                              else m'))))
       (ids_of_section spv (s_id parent)) m"

definition share_a_day :: "MeetingPattern \<Rightarrow> MeetingPattern \<Rightarrow> bool" where
  "share_a_day parent_pattern child_pattern =
     (filter (\<lambda>d. d \<in> set (get_pattern_days child_pattern)) (get_pattern_days parent_pattern) \<noteq> [])"

definition add_same_day_constraint ::
  "CpModel \<Rightarrow> Section \<Rightarrow> Section \<Rightarrow> MeetingPattern list
     \<Rightarrow> ((uuid \<times> uuid) \<times> intvar) list \<Rightarrow> CpModel" where
  "add_same_day_constraint m parent child pats spv =
     fold (\<lambda>parent_pid m'.
        case map_of (pattern_by_id pats) parent_pid of
          None \<Rightarrow> m'
        | Some parent_pattern \<Rightarrow>
            (case map_of spv (s_id parent, parent_pid) of
               None \<Rightarrow> m'
             | Some parent_var \<Rightarrow>
                 (let compatible_child_pids =
                        filter (\<lambda>child_pid. case map_of (pattern_by_id pats) child_pid of
                                  Some child_pattern \<Rightarrow> share_a_day parent_pattern child_pattern
                                | None \<Rightarrow> False)
                          (ids_of_section spv (s_id child));
                      compatible_child_vars =
                        section_vars_in_order spv (s_id child) compatible_child_pids
                  in if compatible_child_pids \<noteq> [] \<and> compatible_child_vars \<noteq> []
                     then Add (SumGe compatible_child_vars parent_var) m'
                     else m')))
       (ids_of_section spv (s_id parent)) m"

definition add_different_day_constraint ::
  "CpModel \<Rightarrow> Section \<Rightarrow> Section \<Rightarrow> MeetingPattern list
     \<Rightarrow> ((uuid \<times> uuid) \<times> intvar) list \<Rightarrow> CpModel" where
  "add_different_day_constraint m parent child pats spv =
     fold (\<lambda>parent_pid m'.
        case map_of (pattern_by_id pats) parent_pid of
          None \<Rightarrow> m'
        | Some parent_pattern \<Rightarrow>
            (case map_of spv (s_id parent, parent_pid) of
               None \<Rightarrow> m'
             | Some parent_var \<Rightarrow>
                 (let compatible_child_pids =
                        filter (\<lambda>child_pid. case map_of (pattern_by_id pats) child_pid of
                                  Some child_pattern \<Rightarrow> \<not> share_a_day parent_pattern child_pattern
                                | None \<Rightarrow> False)
                          (ids_of_section spv (s_id child));
                      compatible_child_vars =
                        section_vars_in_order spv (s_id child) compatible_child_pids
                  in if compatible_child_pids \<noteq> [] \<and> compatible_child_vars \<noteq> []
                     then Add (SumGe compatible_child_vars parent_var) m'
                     else m')))
       (ids_of_section spv (s_id parent)) m"

text \<open>The parent of a group and its children, as the loop over the groups picks them.\<close>

definition link_parent_children :: "Section list \<Rightarrow> (Section \<times> Section list) option" where
  "link_parent_children grp =
     (if length grp < 2 then None
      else (case filter is_link_parent grp of
              [] \<Rightarrow> Some (hd grp, tl grp)
            | parent # _ \<Rightarrow> Some (parent, filter (\<lambda>s. \<not> is_link_parent s) grp)))"

definition add_linked_section_constraints ::
  "CpModel \<Rightarrow> Section list \<Rightarrow> MeetingPattern list \<Rightarrow> ((uuid \<times> uuid) \<times> intvar) list
     \<Rightarrow> string \<Rightarrow> CpModel" where
  "add_linked_section_constraints m secs pats spv link_connector_type =
     fold (\<lambda>(group_id, grp) m'.
        case link_parent_children grp of
          None \<Rightarrow> m'
        | Some (parent, children) \<Rightarrow>
            fold (\<lambda>child m''.
                    if link_connector_type = ''immediately_after''
                    then add_immediately_after_constraint m'' parent child pats spv
                    else if link_connector_type = ''same_day''
                    then add_same_day_constraint m'' parent child pats spv
                    else if link_connector_type = ''different_day''
                    then add_different_day_constraint m'' parent child pats spv
                    else m'') children m')
       (group_sections link_group_id secs) m"

subsection \<open>All hard constraints (CPSATSolver._add_hard_constraints)\<close>

definition link_connector_type_of :: "SolverInput \<Rightarrow> string" where
  "link_connector_type_of inp =
     (case map_of (constraint_options inp) ''link_connector_type'' of
        Some c \<Rightarrow> c | None \<Rightarrow> ''immediately_after'')"

definition add_hard_constraints ::
  "py_error option \<Rightarrow> SolverInput \<Rightarrow> CPSATSolver \<Rightarrow> py_error + CPSATSolver" where
  "add_hard_constraints lib inp st =
     (let m1 = add_room_conflict_constraints (model st) (sections inp) (rooms inp)
                 (meeting_patterns inp) (section_room_pattern_vars st)
      in case add_instructor_conflict_constraints lib m1 (sections inp) (meeting_patterns inp)
                (section_pattern_vars st) (section_instructor_vars st) of
           Inl e \<Rightarrow> Inl e
         | Inr m2 \<Rightarrow>
             (let m3 = add_room_capacity_constraints m2 (sections inp) (rooms inp)
                         (section_room_vars st);
                  m4 = add_room_feature_constraints m3 (sections inp) (rooms inp)
                         (course_features (courses inp)) (section_room_vars st);
                  m5 = add_cross_list_constraints m4 (sections inp)
                         (section_pattern_vars st) (section_room_vars st);
                  m6 = add_linked_section_constraints m5 (sections inp) (meeting_patterns inp)
                         (section_pattern_vars st) (link_connector_type_of inp)
              in Inr (st\<lparr>model := m6\<rparr>)))"

section \<open>Solution extraction (CPSATSolver._extract_solution)\<close>

record Assignment =
  a_section_id :: uuid
  a_meeting_pattern_id :: "uuid option"
  a_date_pattern_id :: "uuid option"
  a_room_id :: "uuid option"
  instructor_ids :: "uuid list"
  penalty_contribution :: rat
  is_assigned :: bool
  unassigned_reason :: "string option"

text \<open>The first id of the list whose variable exists and has value 1 (the loop breaks there).\<close>

definition first_chosen ::
  "(nat \<Rightarrow> int) \<Rightarrow> ((uuid \<times> uuid) \<times> intvar) list \<Rightarrow> uuid \<Rightarrow> uuid list \<Rightarrow> uuid option" where
  "first_chosen v d sid ids =
     List.find (\<lambda>i. case map_of d (sid, i) of Some var \<Rightarrow> Value v var = 1 | None \<Rightarrow> False) ids"

definition extract_assignment :: "SolverInput \<Rightarrow> CPSATSolver \<Rightarrow> (nat \<Rightarrow> int) \<Rightarrow> Section \<Rightarrow> Assignment" where
  "extract_assignment inp st v s =
     (let assigned_pattern_id = first_chosen v (section_pattern_vars st) (s_id s)
                                  (map p_id (meeting_patterns inp));
          assigned_room_id = first_chosen v (section_room_vars st) (s_id s) (map r_id (rooms inp));
          assigned_instructors = assigned_instructor_ids s @
             filter (\<lambda>i. case map_of (section_instructor_vars st) (s_id s, i) of
                           Some var \<Rightarrow> Value v var = 1 | None \<Rightarrow> False)
               (map i_id (instructors inp));
          assigned = (assigned_pattern_id \<noteq> None \<and> assigned_room_id \<noteq> None)
      in \<lparr>a_section_id = s_id s,
          a_meeting_pattern_id = assigned_pattern_id,
          a_date_pattern_id =
            (case fixed_date_pattern_id s of
               Some d \<Rightarrow> Some d
             | None \<Rightarrow> (case date_patterns inp of [] \<Rightarrow> None | d # _ \<Rightarrow> Some d)),
          a_room_id = assigned_room_id,
          instructor_ids = assigned_instructors,
          penalty_contribution = 0,
          is_assigned = assigned,
          unassigned_reason = (if assigned then None else Some ''No feasible assignment found'')\<rparr>)"

definition extract_solution :: "SolverInput \<Rightarrow> CPSATSolver \<Rightarrow> (nat \<Rightarrow> int) \<Rightarrow> Assignment list" where
  "extract_solution inp st v = map (extract_assignment inp st v) (sections inp)"

text \<open>
  The model as \<open>solve\<close> builds it, up to the hard constraints. The soft constraints
  that follow add penalty variables and the constraints that define them.
\<close>

definition build_hard_model :: "py_error option \<Rightarrow> SolverInput \<Rightarrow> py_error + CPSATSolver" where
  "build_hard_model lib inp =
     add_hard_constraints lib inp (add_assignment_constraints inp (create_variables inp init_solver))"


section \<open>Instructor time preferences (scheduler/constraints/soft.py)\<close>

definition time_in_range :: "time \<Rightarrow> time \<Rightarrow> time \<Rightarrow> bool" where
  "time_in_range check_time start end' \<longleftrightarrow> time_le start check_time \<and> time_lt check_time end'"

text \<open>The loop over the meeting times of the pattern, with its \<open>continue\<close> and \<open>return\<close>.\<close>

fun times_match_preference :: "MeetingTime list \<Rightarrow> InstructorPreference \<Rightarrow> bool" where
  "times_match_preference [] pref = False"
| "times_match_preference (meeting_time # rest) pref =
     (if pref_day_of_week pref \<noteq> None \<and> Some (day_of_week meeting_time) \<noteq> pref_day_of_week pref
      then times_match_preference rest pref
      else (case (pref_start_time pref, pref_end_time pref) of
              (Some ps, Some pe) \<Rightarrow>
                if time_in_range (start_time meeting_time) ps pe then True
                else if time_in_range (end_time meeting_time) ps pe then True
                else times_match_preference rest pref
            | _ \<Rightarrow>
                if pref_day_of_week pref \<noteq> None then True
                else times_match_preference rest pref))"

definition pattern_matches_preference :: "MeetingPattern \<Rightarrow> InstructorPreference \<Rightarrow> bool" where
  "pattern_matches_preference pattern pref =
     (case pref_meeting_pattern_id pref of
        Some mid \<Rightarrow> p_id pattern = mid
      | None \<Rightarrow> times_match_preference (times pattern) pref)"

text \<open>
  \<open>int(x)\<close> of a finite float truncates towards zero; of an infinity it raises
  \<open>OverflowError\<close>, of NaN \<open>ValueError\<close>.
\<close>

definition int_of_float :: "pyfloat \<Rightarrow> py_error + int" where
  "int_of_float x =
     (case x of
        Finite r \<Rightarrow> Inr (if r \<ge> 0 then \<lfloor>r\<rfloor> else \<lceil>r\<rceil>)
      | PosInf \<Rightarrow> Inl OverflowError
      | NegInf \<Rightarrow> Inl OverflowError
      | NaN \<Rightarrow> Inl ValueError)"

text \<open>\<open>int(weights.get("instructor_time_preference", 10))\<close>\<close>

definition base_weight_of :: "(string \<times> pyfloat) list \<Rightarrow> py_error + int" where
  "base_weight_of weights =
     (case map_of weights ''instructor_time_preference'' of
        Some w \<Rightarrow> int_of_float w | None \<Rightarrow> Inr 10)"

definition penalty_value_of :: "int \<Rightarrow> PreferenceLevel \<Rightarrow> int" where
  "penalty_value_of base_weight level =
     (case level of
        PROHIBITED \<Rightarrow> base_weight * 100
      | DISCOURAGED \<Rightarrow> base_weight * 2
      | PREFERRED \<Rightarrow> - base_weight
      | REQUIRED \<Rightarrow> - base_weight * 2
      | NEUTRAL \<Rightarrow> 0)"

text \<open>
  The state of the loops: the model and the list of penalty terms, a term
  \<open>penalty_var * penalty_value\<close> being the pair of the two.
\<close>

definition add_preference_penalty ::
  "int \<Rightarrow> Section \<Rightarrow> uuid \<Rightarrow> MeetingPattern \<Rightarrow> intvar \<Rightarrow> intvar option \<Rightarrow> InstructorPreference
     \<Rightarrow> CpModel \<times> (intvar \<times> int) list \<Rightarrow> CpModel \<times> (intvar \<times> int) list" where
  "add_preference_penalty base_weight s instructor_id pattern pattern_var instructor_var pref acc =
     (if \<not> pattern_matches_preference pattern pref then acc
      else (let penalty_value = penalty_value_of base_weight (preference_level pref)
            in if penalty_value = 0 then acc
               else (let (m, penalties) = acc;
                         (penalty_var, m1) = NewBoolVar m;
                         m2 = (case instructor_var of
                                 Some iv \<Rightarrow> Add (MultiplicationEquality penalty_var [pattern_var, iv]) m1
                               | None \<Rightarrow>
                                   if instructor_id \<in> set (assigned_instructor_ids s)
                                   then Add (EqVar penalty_var pattern_var) m1 else m1)
                     in (m2, penalties @ [(penalty_var, penalty_value)]))))"

definition instructor_by_id :: "Instructor list \<Rightarrow> (uuid \<times> Instructor) list" where
  "instructor_by_id ins = fold (\<lambda>i. AList.update (i_id i) i) ins []"

definition add_instructor_preference_penalties ::
  "CpModel \<Rightarrow> Section list \<Rightarrow> Instructor list \<Rightarrow> MeetingPattern list
     \<Rightarrow> ((uuid \<times> uuid) \<times> intvar) list \<Rightarrow> ((uuid \<times> uuid) \<times> intvar) list
     \<Rightarrow> (string \<times> pyfloat) list \<Rightarrow> py_error + CpModel \<times> (intvar \<times> int) list" where
  "add_instructor_preference_penalties m secs ins pats spv siv weights =
     (case base_weight_of weights of
        Inl e \<Rightarrow> Inl e
      | Inr base_weight \<Rightarrow>
          Inr (fold (\<lambda>s.
                 fold (\<lambda>instructor_id acc.
                   case map_of (instructor_by_id ins) instructor_id of
                     None \<Rightarrow> acc
                   | Some instructor \<Rightarrow>
                       if time_preferences instructor = [] then acc
                       else fold (\<lambda>pattern acc'.
                              case map_of spv (s_id s, p_id pattern) of
                                None \<Rightarrow> acc'
                              | Some pattern_var \<Rightarrow>
                                  fold (add_preference_penalty base_weight s instructor_id pattern
                                          pattern_var (map_of siv (s_id s, instructor_id)))
                                    (time_preferences instructor) acc')
                            pats acc)
                   (remdups (assigned_instructor_ids s @ preferred_instructor_ids s)))
                secs (m, [])))"

section \<open>Input validation (validate_input, api/routes.py)\<close>

text \<open>
  An issue is the dictionary \<open>{type, section_id, message}\<close>; the message of a room
  issue embeds the enrollment, so a message is the text with that number beside it.
\<close>

record issue =
  issue_type :: string
  issue_section_id :: uuid
  message :: "string \<times> int option"

record validation =
  valid :: bool
  issues :: "issue list"
  section_count :: nat
  room_count :: nat
  pattern_count :: nat

text \<open>\<open>x or default\<close> for an optional set \<open>x\<close>: the default when \<open>x\<close> is \<open>None\<close> or empty.\<close>

definition or_default :: "uuid list option \<Rightarrow> uuid list \<Rightarrow> uuid list" where
  "or_default x d = (case x of Some ids \<Rightarrow> if ids \<noteq> [] then ids else d | None \<Rightarrow> d)"

definition no_valid_patterns_issue :: "uuid \<Rightarrow> issue" where
  "no_valid_patterns_issue sid = \<lparr>issue_type = ''no_valid_patterns'', issue_section_id = sid,
     message = (''No allowed meeting patterns'', None)\<rparr>"

definition validate_section :: "SolverInput \<Rightarrow> Section \<Rightarrow> issue list" where
  "validate_section input_data s =
     (let allowed_rms = or_default (allowed_room_ids s) (remdups (map r_id (rooms input_data)));
          valid_rooms = filter (\<lambda>r. r_id r \<in> set allowed_rms \<and> capacity r \<ge> expected_enrollment s)
                          (rooms input_data);
          room_issues =
            (if valid_rooms = []
             then [\<lparr>issue_type = ''no_valid_rooms'', issue_section_id = s_id s,
                    message = (''No room with capacity >= '', Some (expected_enrollment s))\<rparr>]
             else []);
          allowed_pats = or_default (allowed_meeting_pattern_ids s)
                           (remdups (map p_id (meeting_patterns input_data)));
          pattern_issues =
            (if allowed_pats = []
             then [no_valid_patterns_issue (s_id s)]
             else [])
      in room_issues @ pattern_issues)"

definition validate_input :: "SolverInput \<Rightarrow> validation" where
  "validate_input input_data =
     (let found = concat (map (validate_section input_data) (sections input_data))
      in \<lparr>valid = (length found = 0),
          issues = found,
          section_count = length (sections input_data),
          room_count = length (rooms input_data),
          pattern_count = length (meeting_patterns input_data)\<rparr>)"

section \<open>Publishing a schedule version (commit_schedule_version, db/repository.py)\<close>

text \<open>
  The two SQL statements act on two tables. A table is the list of its rows, with the
  columns the statements read or write; \<open>NOW()\<close> is the parameter \<open>now\<close>.
\<close>

record schedule_version_row =
  sv_id :: uuid
  status :: string
  published_at :: "nat option"
  updated_at :: nat

record section_assignment_row =
  sa_section_id :: uuid
  schedule_version_id :: uuid
  valid_to :: "nat option"
  assignment_source :: string

record database =
  schedule_versions :: "schedule_version_row list"
  section_assignments :: "section_assignment_row list"

text \<open>
  \<open>UPDATE scheduling.schedule_versions SET status = 'published', published_at = NOW(),
  updated_at = NOW() WHERE id = $1 AND status = 'draft'\<close>
\<close>

definition publish_row :: "nat \<Rightarrow> uuid \<Rightarrow> schedule_version_row \<Rightarrow> schedule_version_row" where
  "publish_row now vid r =
     (if sv_id r = vid \<and> status r = ''draft''
      then r\<lparr>status := ''published'', published_at := Some now, updated_at := now\<rparr>
      else r)"

text \<open>
  \<open>SELECT COUNT(*) FROM scheduling.section_assignments WHERE schedule_version_id = $1
  AND valid_to IS NULL\<close>
\<close>

definition count_live :: "uuid \<Rightarrow> database \<Rightarrow> nat" where
  "count_live vid db =
     length (filter (\<lambda>a. schedule_version_id a = vid \<and> valid_to a = None) (section_assignments db))"

definition commit_schedule_version :: "nat \<Rightarrow> uuid \<Rightarrow> database \<Rightarrow> nat \<times> database" where
  "commit_schedule_version now vid db =
     (let db1 = db\<lparr>schedule_versions := map (publish_row now vid) (schedule_versions db)\<rparr>
      in (count_live vid db1, db1))"


section \<open>Predicates the theorems are stated with\<close>

text \<open>
  What a table of the factory holds at a key for a section, given the section's
  candidates \<open>cands\<close> and its fixed value: no entry outside the candidates; a
  constant (1 at the fixed value, 0 elsewhere) when a value is fixed; a 0/1 variable
  otherwise.
\<close>

definition candidate_var :: "uuid list \<Rightarrow> uuid option \<Rightarrow> uuid \<Rightarrow> intvar option \<Rightarrow> bool" where
  "candidate_var cands fixed i r =
     (if i \<in> set cands
      then (case fixed of Some f \<Rightarrow> r = Some (Constant (if i = f then 1 else 0))
                        | None \<Rightarrow> (\<exists>n. r = Some (BoolVar n)))
      else r = None)"

text \<open>The bodies of the three outer loops of \<open>add_instructor_preference_penalties\<close>.\<close>

definition pattern_step ::
  "int \<Rightarrow> Section \<Rightarrow> uuid \<Rightarrow> ((uuid \<times> uuid) \<times> intvar) list \<Rightarrow> ((uuid \<times> uuid) \<times> intvar) list
     \<Rightarrow> Instructor \<Rightarrow> MeetingPattern
     \<Rightarrow> CpModel \<times> (intvar \<times> int) list \<Rightarrow> CpModel \<times> (intvar \<times> int) list" where
  "pattern_step b s i siv spv instructor pattern acc' =
     (case map_of spv (s_id s, p_id pattern) of
        None \<Rightarrow> acc'
      | Some pattern_var \<Rightarrow>
          fold (add_preference_penalty b s i pattern pattern_var (map_of siv (s_id s, i)))
            (time_preferences instructor) acc')"

definition instructor_step ::
  "int \<Rightarrow> Section \<Rightarrow> Instructor list \<Rightarrow> MeetingPattern list
     \<Rightarrow> ((uuid \<times> uuid) \<times> intvar) list \<Rightarrow> ((uuid \<times> uuid) \<times> intvar) list \<Rightarrow> uuid
     \<Rightarrow> CpModel \<times> (intvar \<times> int) list \<Rightarrow> CpModel \<times> (intvar \<times> int) list" where
  "instructor_step b s ins pats siv spv i acc =
     (case map_of (instructor_by_id ins) i of
        None \<Rightarrow> acc
      | Some instructor \<Rightarrow>
          if time_preferences instructor = [] then acc
          else fold (pattern_step b s i siv spv instructor) pats acc)"

definition section_step ::
  "int \<Rightarrow> Instructor list \<Rightarrow> MeetingPattern list
     \<Rightarrow> ((uuid \<times> uuid) \<times> intvar) list \<Rightarrow> ((uuid \<times> uuid) \<times> intvar) list \<Rightarrow> Section
     \<Rightarrow> CpModel \<times> (intvar \<times> int) list \<Rightarrow> CpModel \<times> (intvar \<times> int) list" where
  "section_step b ins pats siv spv s =
     fold (instructor_step b s ins pats siv spv)
       (remdups (assigned_instructor_ids s @ preferred_instructor_ids s))"

text \<open>
  The quadruples that get a penalty term: a section, one of its assigned or preferred
  instructors that is an instructor of the input, a pattern of the input with a
  pattern variable for the section, and a preference of the instructor that the
  pattern matches and whose weight is not 0.
\<close>

type_synonym quadruple = "Section \<times> uuid \<times> MeetingPattern \<times> InstructorPreference"

definition preference_quadruples ::
  "int \<Rightarrow> Section list \<Rightarrow> Instructor list \<Rightarrow> MeetingPattern list
     \<Rightarrow> ((uuid \<times> uuid) \<times> intvar) list \<Rightarrow> quadruple list" where
  "preference_quadruples base secs ins pats spv =
     [(s, i, p, pref).
        s \<leftarrow> secs,
        i \<leftarrow> remdups (assigned_instructor_ids s @ preferred_instructor_ids s),
        instructor \<leftarrow> (case map_of (instructor_by_id ins) i of Some x \<Rightarrow> [x] | None \<Rightarrow> []),
        p \<leftarrow> pats, map_of spv (s_id s, p_id p) \<noteq> None,
        pref \<leftarrow> time_preferences instructor,
        pattern_matches_preference p pref, penalty_value_of base (preference_level pref) \<noteq> 0]"

text \<open>The weight of the term of a quadruple.\<close>

definition quadruple_weight :: "int \<Rightarrow> quadruple \<Rightarrow> int" where
  "quadruple_weight base q =
     (case q of (s, i, p, pref) \<Rightarrow> penalty_value_of base (preference_level pref))"

text \<open>
  The constraint that ties the variable \<open>g\<close> of the term of a quadruple: \<open>g\<close> is
  the product of the pattern variable and the instructor variable when there is an
  instructor variable, and equal to the pattern variable for a pre-assigned instructor
  without one; an instructor that is neither leaves \<open>g\<close> free.
\<close>

definition quadruple_tie ::
  "((uuid \<times> uuid) \<times> intvar) list \<Rightarrow> ((uuid \<times> uuid) \<times> intvar) list \<Rightarrow> intvar \<Rightarrow> quadruple
     \<Rightarrow> constr list" where
  "quadruple_tie spv siv g q =
     (case q of (s, i, p, pref) \<Rightarrow>
        (case map_of spv (s_id s, p_id p) of
           None \<Rightarrow> []
         | Some pattern_var \<Rightarrow>
             (case map_of siv (s_id s, i) of
                Some instructor_var \<Rightarrow> [MultiplicationEquality g [pattern_var, instructor_var]]
              | None \<Rightarrow>
                  if i \<in> set (assigned_instructor_ids s) then [EqVar g pattern_var] else [])))"

text \<open>
  A state of the preference loops after terms for the quadruples \<open>qs\<close> were added to
  it, one fresh variable each.
\<close>

definition emitted ::
  "((uuid \<times> uuid) \<times> intvar) list \<Rightarrow> ((uuid \<times> uuid) \<times> intvar) list \<Rightarrow> int \<Rightarrow> quadruple list
     \<Rightarrow> CpModel \<times> (intvar \<times> int) list \<Rightarrow> CpModel \<times> (intvar \<times> int) list" where
  "emitted spv siv base qs acc =
     (let n = num_vars (fst acc); ks = [n..<n + length qs]
      in (\<lparr>num_vars = n + length qs,
           constraints = constraints (fst acc)
             @ concat (map2 (\<lambda>k. quadruple_tie spv siv (BoolVar k)) ks qs)\<rparr>,
          snd acc @ map2 (\<lambda>k q. (BoolVar k, quadruple_weight base q)) ks qs))"

text \<open>
  A step of constraint generation leaves the variables of the model as they are and
  keeps its constraints: \<open>model_le m m'\<close>.
\<close>

definition model_le :: "CpModel \<Rightarrow> CpModel \<Rightarrow> bool" where
  "model_le m m' \<longleftrightarrow> set (constraints m) \<subseteq> set (constraints m') \<and> num_vars m' = num_vars m"

text \<open>
  A variable of a table is a 0/1 variable of the model or one of the constants 0
  and 1.
\<close>

definition var_in_model :: "CpModel \<Rightarrow> intvar \<Rightarrow> bool" where
  "var_in_model m var = (case var of BoolVar n \<Rightarrow> n < num_vars m | Constant c \<Rightarrow> c = 0 \<or> c = 1)"

definition pattern_vars_ok :: "CPSATSolver \<Rightarrow> bool" where
  "pattern_vars_ok st = list_all (\<lambda>kv. var_in_model (model st) (snd kv)) (section_pattern_vars st)"

text \<open>The value of the variable of a section at an id, 0 where there is none.\<close>

definition value_at :: "(nat \<Rightarrow> int) \<Rightarrow> ((uuid \<times> uuid) \<times> intvar) list \<Rightarrow> uuid \<Rightarrow> uuid \<Rightarrow> int" where
  "value_at v d sid i = (case map_of d (sid, i) of Some var \<Rightarrow> Value v var | None \<Rightarrow> 0)"

section \<open>Example inputs\<close>

text \<open>
  The fixture of \<open>tests/test_solver.py\<close>: two rooms (capacity 30 and 50), two meeting
  patterns that share no day (MWF 9:00-9:50 and TR 10:00-11:15), two sections
  (enrollment 25 and 20), each with its own pre-assigned instructor. The examples
  further down change one thing at a time.
\<close>

definition at_time :: "nat \<Rightarrow> nat \<Rightarrow> time" where
  "at_time h m = \<lparr>hour = h, minute = m, second = 0, microsecond = 0\<rparr>"

definition meeting :: "int \<Rightarrow> time \<Rightarrow> time \<Rightarrow> MeetingTime" where
  "meeting d s e = \<lparr>day_of_week = d, start_time = s, end_time = e, break_minutes = 0\<rparr>"

definition pattern_mwf9 :: MeetingPattern where
  "pattern_mwf9 = \<lparr>p_id = 1,
     times = [meeting 1 (at_time 9 0) (at_time 9 50), meeting 3 (at_time 9 0) (at_time 9 50),
              meeting 5 (at_time 9 0) (at_time 9 50)],
     total_minutes_per_week = 150\<rparr>"

definition pattern_tr10 :: MeetingPattern where
  "pattern_tr10 = \<lparr>p_id = 2,
     times = [meeting 2 (at_time 10 0) (at_time 11 15), meeting 4 (at_time 10 0) (at_time 11 15)],
     total_minutes_per_week = 150\<rparr>"

definition room_101 :: Room where
  "room_101 = \<lparr>r_id = 11, capacity = 30, building_id = 10, features = [], is_schedulable = True\<rparr>"

definition room_102 :: Room where
  "room_102 = \<lparr>r_id = 12, capacity = 50, building_id = 10, features = [], is_schedulable = True\<rparr>"

definition new_section :: "uuid \<Rightarrow> uuid \<Rightarrow> int \<Rightarrow> Section" where
  "new_section sid cid n = \<lparr>s_id = sid, course_id = cid, expected_enrollment = n,
     allowed_meeting_pattern_ids = None, allowed_room_ids = None, required_room_features = [],
     preferred_instructor_ids = [], assigned_instructor_ids = [],
     cross_list_group_id = None, link_group_id = None, is_link_parent = False,
     fixed_meeting_pattern_id = None, fixed_room_id = None, fixed_date_pattern_id = None\<rparr>"

definition section_cs101 :: Section where
  "section_cs101 = (new_section 21 31 25)\<lparr>assigned_instructor_ids := [41]\<rparr>"

definition section_cs201 :: Section where
  "section_cs201 = (new_section 22 32 20)\<lparr>assigned_instructor_ids := [42]\<rparr>"

definition basic_solver_input :: SolverInput where
  "basic_solver_input = \<lparr>meeting_patterns = [pattern_mwf9, pattern_tr10],
     date_patterns = [51],
     rooms = [room_101, room_102],
     instructors = [\<lparr>i_id = 41, time_preferences = []\<rparr>, \<lparr>i_id = 42, time_preferences = []\<rparr>],
     courses = [\<lparr>c_id = 31, c_required_room_features = []\<rparr>,
                \<lparr>c_id = 32, c_required_room_features = []\<rparr>],
     sections = [section_cs101, section_cs201],
     constraint_weights = [],
     constraint_options = []\<rparr>"

text \<open>A section whose only allowed pattern is not a pattern of the input.\<close>

definition section_unknown_pattern :: Section where
  "section_unknown_pattern = section_cs101\<lparr>allowed_meeting_pattern_ids := Some [3]\<rparr>"

definition input_unknown_pattern :: SolverInput where
  "input_unknown_pattern = basic_solver_input\<lparr>sections := [section_unknown_pattern]\<rparr>"

text \<open>A section with a fixed pattern, one allowed room and that room fixed.\<close>

definition section_fixed :: Section where
  "section_fixed = section_cs101\<lparr>fixed_meeting_pattern_id := Some 2, allowed_room_ids := Some [12],
     fixed_room_id := Some 12\<rparr>"

definition input_fixed :: SolverInput where
  "input_fixed = basic_solver_input\<lparr>sections := [section_fixed, section_cs201]\<rparr>"

text \<open>
  The first section of the fixture with an explicitly empty set of allowed meeting
  patterns, in the fixture and in an input that has no meeting pattern at all.
\<close>

definition section_empty_allowed :: Section where
  "section_empty_allowed = section_cs101\<lparr>allowed_meeting_pattern_ids := Some []\<rparr>"

definition input_empty_allowed :: SolverInput where
  "input_empty_allowed = basic_solver_input\<lparr>sections := [section_empty_allowed, section_cs201]\<rparr>"

definition input_no_patterns :: SolverInput where
  "input_no_patterns = input_empty_allowed\<lparr>meeting_patterns := []\<rparr>"

text \<open>
  A database with a draft version 61 and a published version 62; version 61 has two
  live assignments and an expired one.
\<close>

definition example_db :: database where
  "example_db = \<lparr>schedule_versions =
       [\<lparr>sv_id = 61, status = ''draft'', published_at = None, updated_at = 5\<rparr>,
        \<lparr>sv_id = 62, status = ''published'', published_at = Some 3, updated_at = 3\<rparr>],
     section_assignments =
       [\<lparr>sa_section_id = 21, schedule_version_id = 61, valid_to = None, assignment_source = ''solver''\<rparr>,
        \<lparr>sa_section_id = 22, schedule_version_id = 61, valid_to = Some 4, assignment_source = ''solver''\<rparr>,
        \<lparr>sa_section_id = 22, schedule_version_id = 61, valid_to = None, assignment_source = ''manual''\<rparr>,
        \<lparr>sa_section_id = 21, schedule_version_id = 62, valid_to = None, assignment_source = ''solver''\<rparr>]\<rparr>"

text \<open>
  One section of 40 students, one meeting pattern, the two rooms of the fixture (the
  first is too small); the hard model the solver builds for it and a solution of that
  model.
\<close>

definition section_large :: Section where
  "section_large = section_cs101\<lparr>expected_enrollment := 40\<rparr>"

definition input_large_section :: SolverInput where
  "input_large_section =
     basic_solver_input\<lparr>sections := [section_large], meeting_patterns := [pattern_mwf9]\<rparr>"

definition hard_model_large :: CPSATSolver where
  "hard_model_large =
     \<lparr>model = \<lparr>num_vars = 5, constraints =
        [MultiplicationEquality (BoolVar 3) [BoolVar 0, BoolVar 1],
         MultiplicationEquality (BoolVar 4) [BoolVar 0, BoolVar 2],
         ExactlyOne [BoolVar 0], ExactlyOne [BoolVar 1, BoolVar 2],
         EqConst (BoolVar 1) 0]\<rparr>,
      section_pattern_vars = [((21, 1), BoolVar 0)],
      section_room_vars = [((21, 11), BoolVar 1), ((21, 12), BoolVar 2)],
      section_room_pattern_vars = [((21, 11, 1), BoolVar 3), ((21, 12, 1), BoolVar 4)],
      section_instructor_vars = []\<rparr>"

definition solution_large :: "nat \<Rightarrow> int" where
  "solution_large n = (if n \<in> {0, 2, 4} then 1 else 0)"

text \<open>
  Both sections of the fixture pre-assigned to instructor 41, with two meeting patterns
  that overlap on Monday and Wednesday (9:00-9:50 and 9:30-10:45) and one room.
\<close>

definition pattern_mw930 :: MeetingPattern where
  "pattern_mw930 = \<lparr>p_id = 3,
     times = [meeting 1 (at_time 9 30) (at_time 10 45), meeting 3 (at_time 9 30) (at_time 10 45)],
     total_minutes_per_week = 150\<rparr>"

definition input_same_instructor :: SolverInput where
  "input_same_instructor = basic_solver_input\<lparr>
     sections := [section_cs101, section_cs201\<lparr>assigned_instructor_ids := [41]\<rparr>],
     meeting_patterns := [pattern_mwf9, pattern_mw930],
     rooms := [room_102]\<rparr>"

text \<open>
  Two sections of one cross-list group, without instructors, the first allowed only
  pattern 1, the second only pattern 2, and one room; the hard model the solver builds
  for them and a solution of it.
\<close>

definition section_cross_a :: Section where
  "section_cross_a = (new_section 21 31 25)\<lparr>cross_list_group_id := Some 71,
     allowed_meeting_pattern_ids := Some [1]\<rparr>"

definition section_cross_b :: Section where
  "section_cross_b = (new_section 22 32 20)\<lparr>cross_list_group_id := Some 71,
     allowed_meeting_pattern_ids := Some [2]\<rparr>"

definition input_cross_listed :: SolverInput where
  "input_cross_listed = basic_solver_input\<lparr>
     sections := [section_cross_a, section_cross_b], rooms := [room_102], instructors := []\<rparr>"

definition hard_model_cross :: CPSATSolver where
  "hard_model_cross =
     \<lparr>model = \<lparr>num_vars = 6, constraints =
        [MultiplicationEquality (BoolVar 2) [BoolVar 0, BoolVar 1],
         MultiplicationEquality (BoolVar 5) [BoolVar 3, BoolVar 4],
         ExactlyOne [BoolVar 0], ExactlyOne [BoolVar 1],
         ExactlyOne [BoolVar 3], ExactlyOne [BoolVar 4],
         EqVar (BoolVar 1) (BoolVar 4)]\<rparr>,
      section_pattern_vars = [((21, 1), BoolVar 0), ((22, 2), BoolVar 3)],
      section_room_vars = [((21, 12), BoolVar 1), ((22, 12), BoolVar 4)],
      section_room_pattern_vars = [((21, 12, 1), BoolVar 2), ((22, 12, 2), BoolVar 5)],
      section_instructor_vars = []\<rparr>"

definition solution_cross :: "nat \<Rightarrow> int" where
  "solution_cross n = 1"

text \<open>
  Instructor 41 with one preference, prohibited: Mondays from 9:00 to 10:00. The first
  section of the fixture (pre-assigned to 41), the pattern MWF 9:00-9:50 and one room;
  once with the default weights and once with the weight of instructor time
  preferences set to 0.
\<close>

definition pref_no_monday_morning :: InstructorPreference where
  "pref_no_monday_morning = \<lparr>pref_day_of_week = Some 1, pref_start_time = Some (at_time 9 0),
     pref_end_time = Some (at_time 10 0), pref_meeting_pattern_id = None,
     preference_level = PROHIBITED\<rparr>"

definition input_prohibited :: SolverInput where
  "input_prohibited = basic_solver_input\<lparr>
     instructors := [\<lparr>i_id = 41, time_preferences = [pref_no_monday_morning]\<rparr>],
     sections := [section_cs101], meeting_patterns := [pattern_mwf9], rooms := [room_102]\<rparr>"

definition input_zero_weight :: SolverInput where
  "input_zero_weight = input_prohibited\<lparr>constraint_weights := [(''instructor_time_preference'', Finite 0)]\<rparr>"

text \<open>The preference penalties on the variables of the factory, as \<open>solve\<close> calls them.\<close>

definition penalties_of :: "SolverInput \<Rightarrow> py_error + CpModel \<times> (intvar \<times> int) list" where
  "penalties_of inp =
     (let st = create_variables inp init_solver
      in add_instructor_preference_penalties (model st) (sections inp) (instructors inp)
           (meeting_patterns inp) (section_pattern_vars st) (section_instructor_vars st)
           (constraint_weights inp))"

text \<open>
  A lecture (the parent of link group 81, only pattern 1, MWF 9:00-9:50) and its lab
  (patterns 2, TR 10:00-11:15, and 4, Monday 10:00-11:50), one room, no instructors;
  the hard model the solver builds and a solution of it.
\<close>

definition pattern_m10 :: MeetingPattern where
  "pattern_m10 = \<lparr>p_id = 4, times = [meeting 1 (at_time 10 0) (at_time 11 50)],
     total_minutes_per_week = 110\<rparr>"

definition section_lecture :: Section where
  "section_lecture = (new_section 21 31 25)\<lparr>link_group_id := Some 81, is_link_parent := True,
     allowed_meeting_pattern_ids := Some [1]\<rparr>"

definition section_lab :: Section where
  "section_lab = (new_section 22 31 20)\<lparr>link_group_id := Some 81,
     allowed_meeting_pattern_ids := Some [2, 4]\<rparr>"

definition input_linked :: SolverInput where
  "input_linked = basic_solver_input\<lparr>
     sections := [section_lecture, section_lab],
     meeting_patterns := [pattern_mwf9, pattern_tr10, pattern_m10],
     rooms := [room_102], instructors := []\<rparr>"

definition hard_model_linked :: CPSATSolver where
  "hard_model_linked =
     \<lparr>model = \<lparr>num_vars = 8, constraints =
        [MultiplicationEquality (BoolVar 2) [BoolVar 0, BoolVar 1],
         MultiplicationEquality (BoolVar 6) [BoolVar 3, BoolVar 5],
         MultiplicationEquality (BoolVar 7) [BoolVar 4, BoolVar 5],
         ExactlyOne [BoolVar 0], ExactlyOne [BoolVar 1],
         ExactlyOne [BoolVar 3, BoolVar 4], ExactlyOne [BoolVar 5],
         SumGe [BoolVar 4] (BoolVar 0)]\<rparr>,
      section_pattern_vars = [((21, 1), BoolVar 0), ((22, 2), BoolVar 3), ((22, 4), BoolVar 4)],
      section_room_vars = [((21, 12), BoolVar 1), ((22, 12), BoolVar 5)],
      section_room_pattern_vars =
        [((21, 12, 1), BoolVar 2), ((22, 12, 2), BoolVar 6), ((22, 12, 4), BoolVar 7)],
      section_instructor_vars = []\<rparr>"

definition solution_linked :: "nat \<Rightarrow> int" where
  "solution_linked n = (if n \<in> {3, 6} then 0 else 1)"

text \<open>
  The same two sections with a parent pattern that ends on Monday at 9:50:30 and a
  child pattern that starts on Monday at 9:50:00, each section in a room of its own;
  the hard model and a solution of it.
\<close>

definition pattern_ends_late :: MeetingPattern where
  "pattern_ends_late = \<lparr>p_id = 5,
     times = [meeting 1 (at_time 9 0) \<lparr>hour = 9, minute = 50, second = 30, microsecond = 0\<rparr>],
     total_minutes_per_week = 50\<rparr>"

definition pattern_starts_early :: MeetingPattern where
  "pattern_starts_early = \<lparr>p_id = 6, times = [meeting 1 (at_time 9 50) (at_time 10 40)],
     total_minutes_per_week = 50\<rparr>"

definition input_seconds :: SolverInput where
  "input_seconds = basic_solver_input\<lparr>
     sections := [section_lecture\<lparr>allowed_meeting_pattern_ids := Some [5], allowed_room_ids := Some [11]\<rparr>,
                  section_lab\<lparr>allowed_meeting_pattern_ids := Some [6], allowed_room_ids := Some [12]\<rparr>],
     meeting_patterns := [pattern_ends_late, pattern_starts_early],
     instructors := []\<rparr>"

definition hard_model_seconds :: CPSATSolver where
  "hard_model_seconds =
     \<lparr>model = \<lparr>num_vars = 6, constraints =
        [MultiplicationEquality (BoolVar 2) [BoolVar 0, BoolVar 1],
         MultiplicationEquality (BoolVar 5) [BoolVar 3, BoolVar 4],
         ExactlyOne [BoolVar 0], ExactlyOne [BoolVar 1],
         ExactlyOne [BoolVar 3], ExactlyOne [BoolVar 4],
         SumGe [BoolVar 3] (BoolVar 0)]\<rparr>,
      section_pattern_vars = [((21, 5), BoolVar 0), ((22, 6), BoolVar 3)],
      section_room_vars = [((21, 11), BoolVar 1), ((22, 12), BoolVar 4)],
      section_room_pattern_vars = [((21, 11, 5), BoolVar 2), ((22, 12, 6), BoolVar 5)],
      section_instructor_vars = []\<rparr>"

definition solution_seconds :: "nat \<Rightarrow> int" where
  "solution_seconds n = 1"

section \<open>Unfolding the examples\<close>

lemmas example_defs = basic_solver_input_def section_cs101_def section_cs201_def new_section_def
  room_101_def room_102_def pattern_mwf9_def pattern_tr10_def meeting_def at_time_def

lemmas factory_defs = create_variables_def create_section_variables_def create_pattern_var_def
  create_room_var_def create_room_pattern_var_def create_instructor_var_def
  allowed_patterns_def allowed_rooms_def potential_instructors_def NewBoolVar_def Add_def
  init_solver_def

lemmas hard_defs = build_hard_model_def add_hard_constraints_def add_assignment_constraints_def
  add_section_assignment_constraints_def section_vars_in_order_def
  add_room_conflict_constraints_def add_room_conflicts_for_room_def room_section_by_pattern_def
  add_overlap_pair_def overlapping_patterns_def add_to_set_def get_or_empty_def patterns_overlap_def
  time_lt_def add_instructor_conflict_constraints_def instructor_sections_def all_instructor_ids_def
  instructor_conflict_def var_and_def var_bool_def add_sum_le_def
  add_room_capacity_constraints_def add_room_feature_constraints_def course_features_def
  add_cross_list_constraints_def group_sections_def add_equal_on_common_def ids_of_section_def
  add_linked_section_constraints_def link_parent_children_def link_connector_type_of_def
  add_immediately_after_constraint_def add_same_day_constraint_def add_different_day_constraint_def
  compatible_after_pids_def patterns_compatible_immediately_after_def get_pattern_days_def
  minutes_of_def pattern_by_id_def share_a_day_def

lemmas extract_defs = extract_assignment_def first_chosen_def feasible_def

lemmas soft_defs = add_instructor_preference_penalties_def add_preference_penalty_def
  instructor_by_id_def base_weight_of_def int_of_float_def penalty_value_of_def
  pattern_matches_preference_def time_in_range_def time_le_def time_lt_def


section \<open>The variable factory: which variables exist\<close>

lemma spv_create_room_var [simp]:
  "section_pattern_vars (create_room_var s r st) = section_pattern_vars st"
  by (simp add: create_room_var_def NewBoolVar_def split: option.splits)

lemma spv_create_room_pattern_var [simp]:
  "section_pattern_vars (create_room_pattern_var s p r st) = section_pattern_vars st"
  by (simp add: create_room_pattern_var_def NewBoolVar_def Let_def split: option.splits)

lemma spv_create_instructor_var [simp]:
  "section_pattern_vars (create_instructor_var s i st) = section_pattern_vars st"
  by (simp add: create_instructor_var_def NewBoolVar_def)

lemma srv_create_pattern_var [simp]:
  "section_room_vars (create_pattern_var s p st) = section_room_vars st"
  by (simp add: create_pattern_var_def NewBoolVar_def split: option.splits)

lemma srv_create_room_pattern_var [simp]:
  "section_room_vars (create_room_pattern_var s p r st) = section_room_vars st"
  by (simp add: create_room_pattern_var_def NewBoolVar_def Let_def split: option.splits)

lemma srv_create_instructor_var [simp]:
  "section_room_vars (create_instructor_var s i st) = section_room_vars st"
  by (simp add: create_instructor_var_def NewBoolVar_def)

lemma fold_frame:
  "(\<And>x st. g (f x st) = g st) \<Longrightarrow> g (fold f xs st) = g st"
  by (induction xs arbitrary: st) simp_all

lemma spv_pattern_loop_other:
  "\<not> (sid = s_id s \<and> pid \<in> set pids) \<Longrightarrow>
   map_of (section_pattern_vars (fold (create_pattern_var s) pids st)) (sid, pid) =
   map_of (section_pattern_vars st) (sid, pid)"
  by (induction pids arbitrary: st)
     (auto simp: create_pattern_var_def NewBoolVar_def AList.update_conv' split: option.splits)

lemma srv_room_loop_other:
  "\<not> (sid = s_id s \<and> rid \<in> set rids) \<Longrightarrow>
   map_of (section_room_vars (fold (create_room_var s) rids st)) (sid, rid) =
   map_of (section_room_vars st) (sid, rid)"
  by (induction rids arbitrary: st)
     (auto simp: create_room_var_def NewBoolVar_def AList.update_conv' split: option.splits)

lemma spv_pattern_loop_own:
  "pid \<in> set pids \<Longrightarrow>
   candidate_var pids (fixed_meeting_pattern_id s) pid
     (map_of (section_pattern_vars (fold (create_pattern_var s) pids st)) (s_id s, pid))"
proof (induction pids arbitrary: st)
  case Nil
  then show ?case by simp
next
  case (Cons a pids)
  show ?case
  proof (cases "pid \<in> set pids")
    case True
    from Cons.IH [OF True, of "create_pattern_var s a st"] show ?thesis
      by (simp add: candidate_var_def True)
  next
    case False
    with Cons.prems have a: "pid = a" by simp
    have "map_of (section_pattern_vars (fold (create_pattern_var s) pids (create_pattern_var s a st))) (s_id s, a)
        = map_of (section_pattern_vars (create_pattern_var s a st)) (s_id s, a)"
      using False a by (simp add: spv_pattern_loop_other)
    moreover have "candidate_var (a # pids) (fixed_meeting_pattern_id s) a
        (map_of (section_pattern_vars (create_pattern_var s a st)) (s_id s, a))"
      by (simp add: candidate_var_def create_pattern_var_def NewBoolVar_def AList.update_conv'
            split: option.splits)
    ultimately show ?thesis using a by simp
  qed
qed

lemma srv_room_loop_own:
  "rid \<in> set rids \<Longrightarrow>
   candidate_var rids (fixed_room_id s) rid
     (map_of (section_room_vars (fold (create_room_var s) rids st)) (s_id s, rid))"
proof (induction rids arbitrary: st)
  case Nil
  then show ?case by simp
next
  case (Cons a rids)
  show ?case
  proof (cases "rid \<in> set rids")
    case True
    from Cons.IH [OF True, of "create_room_var s a st"] show ?thesis
      by (simp add: candidate_var_def True)
  next
    case False
    with Cons.prems have a: "rid = a" by simp
    have "map_of (section_room_vars (fold (create_room_var s) rids (create_room_var s a st))) (s_id s, a)
        = map_of (section_room_vars (create_room_var s a st)) (s_id s, a)"
      using False a by (simp add: srv_room_loop_other)
    moreover have "candidate_var (a # rids) (fixed_room_id s) a
        (map_of (section_room_vars (create_room_var s a st)) (s_id s, a))"
      by (simp add: candidate_var_def create_room_var_def NewBoolVar_def AList.update_conv'
            split: option.splits)
    ultimately show ?thesis using a by simp
  qed
qed

lemma spv_create_section_variables:
  "section_pattern_vars (create_section_variables inp s st) =
   section_pattern_vars (fold (create_pattern_var s) (allowed_patterns inp s) st)"
  by (simp add: create_section_variables_def fold_frame)

lemma srv_create_section_variables:
  "map_of (section_room_vars (create_section_variables inp s st)) k =
   map_of (section_room_vars (fold (create_room_var s) (allowed_rooms inp s)
      (fold (create_pattern_var s) (allowed_patterns inp s) st))) k"
  by (simp add: create_section_variables_def fold_frame)

lemma srv_pattern_loop [simp]:
  "section_room_vars (fold (create_pattern_var s) pids st) = section_room_vars st"
  by (simp add: fold_frame)

lemma spv_section_other:
  "sid \<noteq> s_id s \<Longrightarrow>
   map_of (section_pattern_vars (create_section_variables inp s st)) (sid, pid) =
   map_of (section_pattern_vars st) (sid, pid)"
  by (simp add: spv_create_section_variables spv_pattern_loop_other)

lemma srv_section_other:
  "sid \<noteq> s_id s \<Longrightarrow>
   map_of (section_room_vars (create_section_variables inp s st)) (sid, rid) =
   map_of (section_room_vars st) (sid, rid)"
  by (simp add: srv_create_section_variables srv_room_loop_other)

lemma spv_section_own:
  "\<forall>j. map_of (section_pattern_vars st) (s_id s, j) = None \<Longrightarrow>
   candidate_var (allowed_patterns inp s) (fixed_meeting_pattern_id s) pid
     (map_of (section_pattern_vars (create_section_variables inp s st)) (s_id s, pid))"
proof (cases "pid \<in> set (allowed_patterns inp s)")
  case True
  then show ?thesis by (simp add: spv_create_section_variables spv_pattern_loop_own)
next
  case False
  assume "\<forall>j. map_of (section_pattern_vars st) (s_id s, j) = None"
  with False show ?thesis
    by (simp add: spv_create_section_variables spv_pattern_loop_other candidate_var_def)
qed

lemma srv_section_own:
  "\<forall>j. map_of (section_room_vars st) (s_id s, j) = None \<Longrightarrow>
   candidate_var (allowed_rooms inp s) (fixed_room_id s) rid
     (map_of (section_room_vars (create_section_variables inp s st)) (s_id s, rid))"
proof (cases "rid \<in> set (allowed_rooms inp s)")
  case True
  then show ?thesis by (simp add: srv_create_section_variables srv_room_loop_own)
next
  case False
  assume "\<forall>j. map_of (section_room_vars st) (s_id s, j) = None"
  with False show ?thesis
    by (simp add: srv_create_section_variables srv_room_loop_other candidate_var_def)
qed

lemma fold_sections_other:
  assumes other: "\<And>x st j. s_id x \<noteq> sid \<Longrightarrow> L (f x st) (sid, j) = L st (sid, j)"
  shows "sid \<notin> s_id ` set ss \<Longrightarrow> L (fold f ss st) (sid, j) = L st (sid, j)"
  by (induction ss arbitrary: st) (auto simp: other)

lemma fold_sections_own:
  assumes other: "\<And>x st sid j. s_id x \<noteq> sid \<Longrightarrow> L (f x st) (sid, j) = L st (sid, j)"
      and own: "\<And>x st i. \<forall>j. L st (s_id x, j) = None \<Longrightarrow> Q x i (L (f x st) (s_id x, i))"
  shows "distinct (map s_id ss) \<Longrightarrow> s \<in> set ss \<Longrightarrow> \<forall>j. L st (s_id s, j) = None
         \<Longrightarrow> Q s i (L (fold f ss st) (s_id s, i))"
proof (induction ss arbitrary: st)
  case Nil
  then show ?case by simp
next
  case (Cons a ss)
  show ?case
  proof (cases "s = a")
    case True
    from Cons.prems(1) have "s_id a \<notin> s_id ` set ss" by simp
    then have "L (fold f ss (f a st)) (s_id a, i) = L (f a st) (s_id a, i)"
      by (rule fold_sections_other [where L = L, rotated]) (rule other)
    moreover have "Q a i (L (f a st) (s_id a, i))"
      using Cons.prems(3) True by (intro own) simp
    ultimately show ?thesis using True by simp
  next
    case False
    with Cons.prems have s: "s \<in> set ss" and ne: "s_id a \<noteq> s_id s" by auto
    have "\<forall>j. L (f a st) (s_id s, j) = None"
      using Cons.prems(3) ne by (simp add: other)
    with Cons.IH [of "f a st"] Cons.prems(1) s show ?thesis by simp
  qed
qed

lemma create_variables_spv:
  assumes "distinct (map s_id (sections inp))" "s \<in> set (sections inp)"
  shows "candidate_var (allowed_patterns inp s) (fixed_meeting_pattern_id s) pid
     (map_of (section_pattern_vars (create_variables inp init_solver)) (s_id s, pid))"
  unfolding create_variables_def
  by (rule fold_sections_own [where L = "\<lambda>st. map_of (section_pattern_vars st)"
          and Q = "\<lambda>s. candidate_var (allowed_patterns inp s) (fixed_meeting_pattern_id s)",
          OF _ _ assms])
     (simp_all add: spv_section_other spv_section_own init_solver_def)

lemma create_variables_srv:
  assumes "distinct (map s_id (sections inp))" "s \<in> set (sections inp)"
  shows "candidate_var (allowed_rooms inp s) (fixed_room_id s) rid
     (map_of (section_room_vars (create_variables inp init_solver)) (s_id s, rid))"
  unfolding create_variables_def
  by (rule fold_sections_own [where L = "\<lambda>st. map_of (section_room_vars st)"
          and Q = "\<lambda>s. candidate_var (allowed_rooms inp s) (fixed_room_id s)",
          OF _ _ assms])
     (simp_all add: srv_section_other srv_section_own init_solver_def)

text \<open>
  Claim C4, as the code has it. The factory does not intersect a section's allowed
  ids with the patterns (rooms) of the input: for an input whose sections have distinct
  ids, a section \<open>s\<close> gets a pattern variable exactly for the ids of
  \<open>allowed_patterns inp s\<close>, which are the ids of \<open>allowed_meeting_pattern_ids\<close> as
  given when that set is present and not empty, and the patterns of the input
  otherwise; rooms alike. When the section fixes a pattern (room), each of these
  variables is a constant, 1 at the fixed id and 0 at every other candidate; without a
  fixed value it is a 0/1 variable.
\<close>

theorem variable_factory_candidates:
  assumes "distinct (map s_id (sections inp))" and "s \<in> set (sections inp)"
  shows "(map_of (section_pattern_vars (create_variables inp init_solver)) (s_id s, pid) \<noteq> None
            \<longleftrightarrow> pid \<in> set (allowed_patterns inp s))
       \<and> (map_of (section_room_vars (create_variables inp init_solver)) (s_id s, rid) \<noteq> None
            \<longleftrightarrow> rid \<in> set (allowed_rooms inp s))
       \<and> (pid \<in> set (allowed_patterns inp s) \<longrightarrow>
            (case fixed_meeting_pattern_id s of
               Some f \<Rightarrow> map_of (section_pattern_vars (create_variables inp init_solver)) (s_id s, pid)
                           = Some (Constant (if pid = f then 1 else 0))
             | None \<Rightarrow> \<exists>n. map_of (section_pattern_vars (create_variables inp init_solver)) (s_id s, pid)
                           = Some (BoolVar n)))
       \<and> (rid \<in> set (allowed_rooms inp s) \<longrightarrow>
            (case fixed_room_id s of
               Some f \<Rightarrow> map_of (section_room_vars (create_variables inp init_solver)) (s_id s, rid)
                           = Some (Constant (if rid = f then 1 else 0))
             | None \<Rightarrow> \<exists>n. map_of (section_room_vars (create_variables inp init_solver)) (s_id s, rid)
                           = Some (BoolVar n)))
       \<and> set (allowed_patterns inp s) =
            (case allowed_meeting_pattern_ids s of
               Some ids \<Rightarrow> if ids = [] then p_id ` set (meeting_patterns inp) else set ids
             | None \<Rightarrow> p_id ` set (meeting_patterns inp))
       \<and> set (allowed_rooms inp s) =
            (case allowed_room_ids s of
               Some ids \<Rightarrow> if ids = [] then r_id ` set (rooms inp) else set ids
             | None \<Rightarrow> r_id ` set (rooms inp))"
proof -
  have p: "candidate_var (allowed_patterns inp s) (fixed_meeting_pattern_id s) pid
     (map_of (section_pattern_vars (create_variables inp init_solver)) (s_id s, pid))"
    using assms by (rule create_variables_spv)
  have r: "candidate_var (allowed_rooms inp s) (fixed_room_id s) rid
     (map_of (section_room_vars (create_variables inp init_solver)) (s_id s, rid))"
    using assms by (rule create_variables_srv)
  have 1: "map_of (section_pattern_vars (create_variables inp init_solver)) (s_id s, pid) \<noteq> None
            \<longleftrightarrow> pid \<in> set (allowed_patterns inp s)"
    using p by (auto simp: candidate_var_def split: option.splits if_splits)
  have 2: "map_of (section_room_vars (create_variables inp init_solver)) (s_id s, rid) \<noteq> None
            \<longleftrightarrow> rid \<in> set (allowed_rooms inp s)"
    using r by (auto simp: candidate_var_def split: option.splits if_splits)
  have 3: "pid \<in> set (allowed_patterns inp s) \<longrightarrow>
            (case fixed_meeting_pattern_id s of
               Some f \<Rightarrow> map_of (section_pattern_vars (create_variables inp init_solver)) (s_id s, pid)
                           = Some (Constant (if pid = f then 1 else 0))
             | None \<Rightarrow> \<exists>n. map_of (section_pattern_vars (create_variables inp init_solver)) (s_id s, pid)
                           = Some (BoolVar n))"
    using p by (simp add: candidate_var_def split: option.splits)
  have 4: "rid \<in> set (allowed_rooms inp s) \<longrightarrow>
            (case fixed_room_id s of
               Some f \<Rightarrow> map_of (section_room_vars (create_variables inp init_solver)) (s_id s, rid)
                           = Some (Constant (if rid = f then 1 else 0))
             | None \<Rightarrow> \<exists>n. map_of (section_room_vars (create_variables inp init_solver)) (s_id s, rid)
                           = Some (BoolVar n))"
    using r by (simp add: candidate_var_def split: option.splits)
  have 5: "set (allowed_patterns inp s) =
            (case allowed_meeting_pattern_ids s of
               Some ids \<Rightarrow> if ids = [] then p_id ` set (meeting_patterns inp) else set ids
             | None \<Rightarrow> p_id ` set (meeting_patterns inp))"
    by (simp add: allowed_patterns_def split: option.splits)
  have 6: "set (allowed_rooms inp s) =
            (case allowed_room_ids s of
               Some ids \<Rightarrow> if ids = [] then r_id ` set (rooms inp) else set ids
             | None \<Rightarrow> r_id ` set (rooms inp))"
    by (simp add: allowed_rooms_def split: option.splits)
  from 1 2 3 4 5 6 show ?thesis by blast
qed

text \<open>
  Claim C4, witness: a section with pattern 2 fixed, room 12 allowed and fixed, in the
  fixture.
\<close>

theorem variable_factory_candidates_witness:
  "distinct (map s_id (sections input_fixed)) \<and> section_fixed \<in> set (sections input_fixed)
   \<and> map_of (section_pattern_vars (create_variables input_fixed init_solver)) (s_id section_fixed, 2)
       = Some (Constant 1)
   \<and> map_of (section_room_vars (create_variables input_fixed init_solver)) (s_id section_fixed, 12)
       = Some (Constant 1)
   \<and> set (allowed_patterns input_fixed section_fixed) = {1, 2}
   \<and> set (allowed_rooms input_fixed section_fixed) = {12}"
proof -
  have d: "distinct (map s_id (sections input_fixed))"
    by (simp add: input_fixed_def section_fixed_def example_defs)
  have m: "section_fixed \<in> set (sections input_fixed)"
    by (simp add: input_fixed_def example_defs)
  have f: "fixed_meeting_pattern_id section_fixed = Some 2" "fixed_room_id section_fixed = Some 12"
     "allowed_meeting_pattern_ids section_fixed = None" "allowed_room_ids section_fixed = Some [12]"
     "p_id ` set (meeting_patterns input_fixed) = {1, 2}"
    by (simp_all add: input_fixed_def section_fixed_def example_defs)
  from variable_factory_candidates [OF d m, of 2 12] d m show ?thesis
    by (simp add: f)
qed

text \<open>
  Claim C4 as stated fails: a section that allows only pattern 3, which is not a
  pattern of the input, has no pattern in the intersection of its allowed set with the
  input's patterns, and still gets a pattern variable for 3.
\<close>

theorem variable_factory_allocates_outside_input_patterns:
  "allowed_meeting_pattern_ids section_unknown_pattern = Some [3]
   \<and> 3 \<notin> p_id ` set (meeting_patterns input_unknown_pattern)
   \<and> map_of (section_pattern_vars (create_variables input_unknown_pattern init_solver))
        (s_id section_unknown_pattern, 3) = Some (BoolVar 0)"
  by (simp add: input_unknown_pattern_def section_unknown_pattern_def example_defs factory_defs)

section \<open>The variable factory: candidate sets\<close>

lemma create_pattern_var_allowed [simp]:
  "create_pattern_var (s\<lparr>allowed_meeting_pattern_ids := a\<rparr>) = create_pattern_var s"
  "create_pattern_var (s\<lparr>allowed_room_ids := b\<rparr>) = create_pattern_var s"
  by (simp_all add: fun_eq_iff create_pattern_var_def split: option.splits)

lemma create_room_var_allowed [simp]:
  "create_room_var (s\<lparr>allowed_meeting_pattern_ids := a\<rparr>) = create_room_var s"
  "create_room_var (s\<lparr>allowed_room_ids := b\<rparr>) = create_room_var s"
  by (simp_all add: fun_eq_iff create_room_var_def split: option.splits)

lemma create_room_pattern_var_allowed [simp]:
  "create_room_pattern_var (s\<lparr>allowed_meeting_pattern_ids := a\<rparr>) = create_room_pattern_var s"
  "create_room_pattern_var (s\<lparr>allowed_room_ids := b\<rparr>) = create_room_pattern_var s"
  by (simp_all add: fun_eq_iff create_room_pattern_var_def split: option.splits prod.splits)

lemma create_instructor_var_allowed [simp]:
  "create_instructor_var (s\<lparr>allowed_meeting_pattern_ids := a\<rparr>) = create_instructor_var s"
  "create_instructor_var (s\<lparr>allowed_room_ids := b\<rparr>) = create_instructor_var s"
  by (simp_all add: fun_eq_iff create_instructor_var_def)

lemma allowed_of_empty [simp]:
  "allowed_patterns inp (s\<lparr>allowed_meeting_pattern_ids := Some []\<rparr>) = remdups (map p_id (meeting_patterns inp))"
  "allowed_patterns inp (s\<lparr>allowed_meeting_pattern_ids := None\<rparr>) = remdups (map p_id (meeting_patterns inp))"
  "allowed_rooms inp (s\<lparr>allowed_room_ids := Some []\<rparr>) = remdups (map r_id (rooms inp))"
  "allowed_rooms inp (s\<lparr>allowed_room_ids := None\<rparr>) = remdups (map r_id (rooms inp))"
  "allowed_patterns inp (s\<lparr>allowed_room_ids := b\<rparr>) = allowed_patterns inp s"
  "allowed_rooms inp (s\<lparr>allowed_meeting_pattern_ids := a\<rparr>) = allowed_rooms inp s"
  by (simp_all add: allowed_patterns_def allowed_rooms_def)

lemma create_section_variables_empty_patterns:
  "create_section_variables inp (s\<lparr>allowed_meeting_pattern_ids := Some []\<rparr>) =
   create_section_variables inp (s\<lparr>allowed_meeting_pattern_ids := None\<rparr>)"
  by (simp add: fun_eq_iff create_section_variables_def potential_instructors_def)

lemma create_section_variables_empty_rooms:
  "create_section_variables inp (s\<lparr>allowed_room_ids := Some []\<rparr>) =
   create_section_variables inp (s\<lparr>allowed_room_ids := None\<rparr>)"
  by (simp add: fun_eq_iff create_section_variables_def potential_instructors_def)

lemma allowed_patterns_sections [simp]:
  "allowed_patterns (inp\<lparr>sections := ss\<rparr>) s = allowed_patterns inp s"
  by (simp add: allowed_patterns_def split: option.splits)

lemma allowed_rooms_sections [simp]:
  "allowed_rooms (inp\<lparr>sections := ss\<rparr>) s = allowed_rooms inp s"
  by (simp add: allowed_rooms_def split: option.splits)

lemma create_section_variables_sections:
  "create_section_variables (inp\<lparr>sections := ss\<rparr>) = create_section_variables inp"
  by (simp add: fun_eq_iff create_section_variables_def)

text \<open>
  Claim C10. For the variable factory a section whose allowed meeting patterns (or
  allowed rooms) are present but empty is the same as one where they are unspecified:
  wherever the section stands in the input, the factory builds the same variables and
  the same model for both, and the section's candidates are all the patterns (rooms)
  of the input. When the sections of the input have distinct ids, the tables of the
  factory hold a pattern variable for the section exactly at the ids of the patterns
  of the input, and a room variable exactly at the ids of the rooms of the input.
\<close>

theorem explicit_empty_allowed_set_is_unspecified:
  "create_variables (inp\<lparr>sections := pre @ s\<lparr>allowed_meeting_pattern_ids := Some []\<rparr> # post\<rparr>) st =
   create_variables (inp\<lparr>sections := pre @ s\<lparr>allowed_meeting_pattern_ids := None\<rparr> # post\<rparr>) st
   \<and> create_variables (inp\<lparr>sections := pre @ s\<lparr>allowed_room_ids := Some []\<rparr> # post\<rparr>) st =
     create_variables (inp\<lparr>sections := pre @ s\<lparr>allowed_room_ids := None\<rparr> # post\<rparr>) st
   \<and> set (allowed_patterns inp (s\<lparr>allowed_meeting_pattern_ids := Some []\<rparr>)) = p_id ` set (meeting_patterns inp)
   \<and> set (allowed_rooms inp (s\<lparr>allowed_room_ids := Some []\<rparr>)) = r_id ` set (rooms inp)
   \<and> (distinct (map s_id (pre @ s # post)) \<longrightarrow>
        (map_of (section_pattern_vars (create_variables
             (inp\<lparr>sections := pre @ s\<lparr>allowed_meeting_pattern_ids := Some []\<rparr> # post\<rparr>) init_solver))
           (s_id s, pid) \<noteq> None
         \<longleftrightarrow> pid \<in> p_id ` set (meeting_patterns inp))
      \<and> (map_of (section_room_vars (create_variables
             (inp\<lparr>sections := pre @ s\<lparr>allowed_room_ids := Some []\<rparr> # post\<rparr>) init_solver))
           (s_id s, rid) \<noteq> None
         \<longleftrightarrow> rid \<in> r_id ` set (rooms inp)))"
proof -
  let ?sp = "s\<lparr>allowed_meeting_pattern_ids := Some []\<rparr>"
  let ?sr = "s\<lparr>allowed_room_ids := Some []\<rparr>"
  let ?ip = "inp\<lparr>sections := pre @ ?sp # post\<rparr>"
  let ?ir = "inp\<lparr>sections := pre @ ?sr # post\<rparr>"
  have same: "create_variables ?ip st =
      create_variables (inp\<lparr>sections := pre @ s\<lparr>allowed_meeting_pattern_ids := None\<rparr> # post\<rparr>) st"
    "create_variables ?ir st =
      create_variables (inp\<lparr>sections := pre @ s\<lparr>allowed_room_ids := None\<rparr> # post\<rparr>) st"
    by (simp_all add: create_variables_def create_section_variables_sections
          create_section_variables_empty_patterns create_section_variables_empty_rooms)
  have cands: "set (allowed_patterns inp ?sp) = p_id ` set (meeting_patterns inp)"
    "set (allowed_rooms inp ?sr) = r_id ` set (rooms inp)"
    by simp_all
  have tables: "(map_of (section_pattern_vars (create_variables ?ip init_solver)) (s_id s, pid) \<noteq> None
         \<longleftrightarrow> pid \<in> p_id ` set (meeting_patterns inp))
      \<and> (map_of (section_room_vars (create_variables ?ir init_solver)) (s_id s, rid) \<noteq> None
         \<longleftrightarrow> rid \<in> r_id ` set (rooms inp))"
    if d: "distinct (map s_id (pre @ s # post))"
  proof -
    have dp: "distinct (map s_id (sections ?ip))" and mp: "?sp \<in> set (sections ?ip)"
      and dr: "distinct (map s_id (sections ?ir))" and mr: "?sr \<in> set (sections ?ir)"
      using d by simp_all
    have "candidate_var (allowed_patterns ?ip ?sp) (fixed_meeting_pattern_id ?sp) pid
            (map_of (section_pattern_vars (create_variables ?ip init_solver)) (s_id ?sp, pid))"
      using dp mp by (rule create_variables_spv)
    then have p: "map_of (section_pattern_vars (create_variables ?ip init_solver)) (s_id s, pid) \<noteq> None
         \<longleftrightarrow> pid \<in> p_id ` set (meeting_patterns inp)"
      by (auto simp: candidate_var_def split: option.splits if_splits)
    have "candidate_var (allowed_rooms ?ir ?sr) (fixed_room_id ?sr) rid
            (map_of (section_room_vars (create_variables ?ir init_solver)) (s_id ?sr, rid))"
      using dr mr by (rule create_variables_srv)
    then have r: "map_of (section_room_vars (create_variables ?ir init_solver)) (s_id s, rid) \<noteq> None
         \<longleftrightarrow> rid \<in> r_id ` set (rooms inp)"
      by (auto simp: candidate_var_def split: option.splits if_splits)
    from p r show ?thesis by (rule conjI)
  qed
  have tables': "distinct (map s_id (pre @ s # post)) \<longrightarrow>
        (map_of (section_pattern_vars (create_variables ?ip init_solver)) (s_id s, pid) \<noteq> None
         \<longleftrightarrow> pid \<in> p_id ` set (meeting_patterns inp))
      \<and> (map_of (section_room_vars (create_variables ?ir init_solver)) (s_id s, rid) \<noteq> None
         \<longleftrightarrow> rid \<in> r_id ` set (rooms inp))"
    by (rule impI) (rule tables)
  from same cands tables' show ?thesis by (intro conjI)
qed

text \<open>
  Claim C10, witness: the first section of the fixture with an empty set of allowed
  patterns, and with an empty set of allowed rooms: it has a pattern variable for
  pattern 1 of the input and a room variable for room 11 of the input.
\<close>

theorem explicit_empty_allowed_set_is_unspecified_witness:
  "distinct (map s_id ([] @ section_cs101 # [section_cs201]))
   \<and> 1 \<in> p_id ` set (meeting_patterns basic_solver_input)
   \<and> 11 \<in> r_id ` set (rooms basic_solver_input)
   \<and> map_of (section_pattern_vars (create_variables
          (basic_solver_input\<lparr>sections := [] @ section_cs101\<lparr>allowed_meeting_pattern_ids := Some []\<rparr> # [section_cs201]\<rparr>)
          init_solver)) (s_id section_cs101, 1) \<noteq> None
   \<and> map_of (section_room_vars (create_variables
          (basic_solver_input\<lparr>sections := [] @ section_cs101\<lparr>allowed_room_ids := Some []\<rparr> # [section_cs201]\<rparr>)
          init_solver)) (s_id section_cs101, 11) \<noteq> None
   \<and> create_variables (basic_solver_input\<lparr>sections := [] @ section_cs101\<lparr>allowed_meeting_pattern_ids := Some []\<rparr> # [section_cs201]\<rparr>) init_solver =
     create_variables (basic_solver_input\<lparr>sections := [] @ section_cs101\<lparr>allowed_meeting_pattern_ids := None\<rparr> # [section_cs201]\<rparr>) init_solver
   \<and> create_variables (basic_solver_input\<lparr>sections := [] @ section_cs101\<lparr>allowed_room_ids := Some []\<rparr> # [section_cs201]\<rparr>) init_solver =
     create_variables (basic_solver_input\<lparr>sections := [] @ section_cs101\<lparr>allowed_room_ids := None\<rparr> # [section_cs201]\<rparr>) init_solver"
proof -
  have d: "distinct (map s_id ([] @ section_cs101 # [section_cs201]))"
    by (simp add: section_cs101_def section_cs201_def new_section_def)
  have p: "1 \<in> p_id ` set (meeting_patterns basic_solver_input)"
    and r: "11 \<in> r_id ` set (rooms basic_solver_input)"
    by (simp_all add: example_defs)
  from explicit_empty_allowed_set_is_unspecified [where inp = basic_solver_input and pre = "[]"
      and s = section_cs101 and post = "[section_cs201]" and st = init_solver
      and pid = 1 and rid = 11] d p r
  show ?thesis by blast
qed

section \<open>Input validation\<close>

lemma validate_section_patterns:
  "no_valid_patterns_issue sid \<in> set (validate_section inp s) \<longleftrightarrow>
     sid = s_id s \<and> (allowed_meeting_pattern_ids s = None \<or> allowed_meeting_pattern_ids s = Some [])
     \<and> meeting_patterns inp = []"
  by (auto simp: validate_section_def no_valid_patterns_issue_def or_default_def Let_def
        split: option.splits)

text \<open>
  Claim C6, as the code has it. \<open>validate_input\<close> returns an object and never
  raises; \<open>valid\<close> is true exactly when the list of issues is empty. Because of
  \<open>section.allowed_meeting_pattern_ids or {all pattern ids}\<close>, an empty allowed set
  falls back to the patterns of the input like an unspecified one: the issue
  \<open>no_valid_patterns\<close> is reported for a section exactly when its allowed set is
  unspecified or empty and the input has no meeting pattern at all. The three counts
  are the lengths of the input's lists.
\<close>

theorem validate_input_no_valid_patterns:
  "(valid (validate_input inp) \<longleftrightarrow> issues (validate_input inp) = [])
   \<and> (no_valid_patterns_issue sid \<in> set (issues (validate_input inp)) \<longleftrightarrow>
        meeting_patterns inp = [] \<and>
        (\<exists>s \<in> set (sections inp). s_id s = sid \<and>
           (allowed_meeting_pattern_ids s = None \<or> allowed_meeting_pattern_ids s = Some [])))
   \<and> section_count (validate_input inp) = length (sections inp)
   \<and> room_count (validate_input inp) = length (rooms inp)
   \<and> pattern_count (validate_input inp) = length (meeting_patterns inp)"
  by (auto simp: validate_input_def Let_def validate_section_patterns)

text \<open>
  Claim C6, witness: the section with the empty allowed set in an input without
  meeting patterns is reported, and the input is not valid.
\<close>

theorem validate_input_no_valid_patterns_witness:
  "\<not> valid (validate_input input_no_patterns)
   \<and> no_valid_patterns_issue 21 \<in> set (issues (validate_input input_no_patterns))
   \<and> meeting_patterns input_no_patterns = []
   \<and> section_empty_allowed \<in> set (sections input_no_patterns)
   \<and> allowed_meeting_pattern_ids section_empty_allowed = Some []"
proof -
  have 1: "meeting_patterns input_no_patterns = []"
    by (simp add: input_no_patterns_def)
  have 2: "section_empty_allowed \<in> set (sections input_no_patterns)"
    by (simp add: input_no_patterns_def input_empty_allowed_def)
  have 3: "allowed_meeting_pattern_ids section_empty_allowed = Some []"
    by (simp add: section_empty_allowed_def)
  have 4: "s_id section_empty_allowed = 21"
    by (simp add: section_empty_allowed_def section_cs101_def new_section_def)
  from validate_input_no_valid_patterns [of input_no_patterns 21] 1 2 3 4 show ?thesis
    by auto
qed

text \<open>
  Claim C6 as stated fails: the same section in the fixture, whose two meeting
  patterns are the fallback, is not reported, and the input is valid with no issue.
\<close>

theorem validate_input_accepts_empty_allowed_patterns:
  "section_empty_allowed \<in> set (sections input_empty_allowed)
   \<and> allowed_meeting_pattern_ids section_empty_allowed = Some []
   \<and> valid (validate_input input_empty_allowed)
   \<and> issues (validate_input input_empty_allowed) = []"
  by (simp add: input_empty_allowed_def section_empty_allowed_def validate_input_def
        validate_section_def no_valid_patterns_issue_def or_default_def basic_solver_input_def section_cs101_def
        section_cs201_def new_section_def room_101_def room_102_def pattern_mwf9_def
        pattern_tr10_def)

section \<open>Publishing a schedule version\<close>

lemma publish_row_twice: "publish_row now' vid (publish_row now vid r) = publish_row now vid r"
  by (simp add: publish_row_def)

text \<open>
  Claim C9. \<open>commit_schedule_version\<close> turns every row of the version that is in
  status draft into a published row stamped with the current time, and changes no other
  row and no assignment; when the version is already published the database is left as
  it is; a second call, at whatever time, leaves the state that the first call
  produced; and each call returns the number of live assignment rows of the version.
\<close>

theorem commit_schedule_version_publishes_once:
  "schedule_versions (snd (commit_schedule_version now vid db)) =
     map (\<lambda>r. if sv_id r = vid \<and> status r = ''draft''
               then r\<lparr>status := ''published'', published_at := Some now, updated_at := now\<rparr>
               else r) (schedule_versions db)
   \<and> section_assignments (snd (commit_schedule_version now vid db)) = section_assignments db
   \<and> ((\<forall>r \<in> set (schedule_versions db). sv_id r = vid \<longrightarrow> status r = ''published'')
        \<longrightarrow> snd (commit_schedule_version now vid db) = db)
   \<and> snd (commit_schedule_version now' vid (snd (commit_schedule_version now vid db)))
       = snd (commit_schedule_version now vid db)
   \<and> fst (commit_schedule_version now vid db) =
       length (filter (\<lambda>a. schedule_version_id a = vid \<and> valid_to a = None) (section_assignments db))
   \<and> fst (commit_schedule_version now' vid (snd (commit_schedule_version now vid db)))
       = fst (commit_schedule_version now vid db)"
proof -
  have unchanged: "(\<forall>r \<in> set (schedule_versions db). sv_id r = vid \<longrightarrow> status r = ''published'')
        \<longrightarrow> snd (commit_schedule_version now vid db) = db"
  proof
    assume a: "\<forall>r \<in> set (schedule_versions db). sv_id r = vid \<longrightarrow> status r = ''published''"
    have "map (publish_row now vid) (schedule_versions db) = schedule_versions db"
      by (rule map_idI) (use a in \<open>auto simp: publish_row_def\<close>)
    then show "snd (commit_schedule_version now vid db) = db"
      by (simp add: commit_schedule_version_def Let_def)
  qed
  have rows: "schedule_versions (snd (commit_schedule_version now vid db)) =
     map (\<lambda>r. if sv_id r = vid \<and> status r = ''draft''
               then r\<lparr>status := ''published'', published_at := Some now, updated_at := now\<rparr>
               else r) (schedule_versions db)"
    by (simp add: commit_schedule_version_def Let_def publish_row_def [abs_def])
  have twice: "snd (commit_schedule_version now' vid (snd (commit_schedule_version now vid db)))
       = snd (commit_schedule_version now vid db)"
    by (simp add: commit_schedule_version_def Let_def publish_row_twice)
  show ?thesis
    using unchanged rows twice
    by (simp add: commit_schedule_version_def Let_def count_live_def)
qed

text \<open>
  Claim C9, witness: publishing the draft version 61 at time 9 returns 2, publishing
  the published version 62 changes nothing.
\<close>

theorem commit_schedule_version_publishes_once_witness:
  "schedule_versions (snd (commit_schedule_version 9 61 example_db)) =
       [\<lparr>sv_id = 61, status = ''published'', published_at = Some 9, updated_at = 9\<rparr>,
        \<lparr>sv_id = 62, status = ''published'', published_at = Some 3, updated_at = 3\<rparr>]
   \<and> snd (commit_schedule_version 9 62 example_db) = example_db
   \<and> fst (commit_schedule_version 9 61 example_db) = 2"
proof -
  have 1: "\<forall>r \<in> set (schedule_versions example_db). sv_id r = 62 \<longrightarrow> status r = ''published''"
    by (simp add: example_db_def)
  from commit_schedule_version_publishes_once [of 9 61 example_db 9]
       commit_schedule_version_publishes_once [of 9 62 example_db 9] 1
  show ?thesis
    by (simp add: example_db_def)
qed

section \<open>The model only grows\<close>

lemma constraints_Add [simp]: "constraints (Add c m) = constraints m @ [c]"
  by (simp add: Add_def)

lemma fold_grows:
  assumes "\<And>x m. set (constraints m) \<subseteq> set (constraints (f x m))"
  shows "set (constraints m) \<subseteq> set (constraints (fold f xs m))"
proof (induction xs arbitrary: m)
  case Nil
  show ?case by simp
next
  case (Cons a xs)
  have "set (constraints m) \<subseteq> set (constraints (f a m))" by (rule assms)
  also have "\<dots> \<subseteq> set (constraints (fold f xs (f a m)))" by (rule Cons.IH)
  finally show ?case by simp
qed

lemma fold_adds:
  assumes grows: "\<And>y m. set (constraints m) \<subseteq> set (constraints (f y m))"
      and adds: "\<And>m. c \<in> set (constraints (f x m))"
      and mem: "x \<in> set xs"
  shows "c \<in> set (constraints (fold f xs m))"
  using mem
proof (induction xs arbitrary: m)
  case Nil
  then show ?case by simp
next
  case (Cons a xs)
  show ?case
  proof (cases "x = a")
    case True
    have "c \<in> set (constraints (f a m))" unfolding True [symmetric] by (rule adds)
    moreover have "set (constraints (f a m)) \<subseteq> set (constraints (fold f xs (f a m)))"
      by (rule fold_grows) (rule grows)
    ultimately show ?thesis by auto
  next
    case False
    with Cons.prems have "x \<in> set xs" by simp
    then show ?thesis by (simp add: Cons.IH)
  qed
qed

lemma capacity_step_grows:
  "set (constraints m) \<subseteq> set (constraints
     (case map_of srv (s_id s, r_id room) of
        Some var \<Rightarrow> if capacity room < expected_enrollment s then Add (EqConst var 0) m else m
      | None \<Rightarrow> m))"
  by (auto split: option.splits)

lemma add_room_capacity_constraints_grows:
  "set (constraints m) \<subseteq> set (constraints (add_room_capacity_constraints m secs rms srv))"
  unfolding add_room_capacity_constraints_def
  by (intro fold_grows capacity_step_grows)

lemma add_room_capacity_constraints_forces:
  assumes "s \<in> set secs" "room \<in> set rms" "map_of srv (s_id s, r_id room) = Some var"
          "capacity room < expected_enrollment s"
  shows "EqConst var 0 \<in> set (constraints (add_room_capacity_constraints m secs rms srv))"
  unfolding add_room_capacity_constraints_def
proof (rule fold_adds [OF _ _ assms(1)])
  show "set (constraints m') \<subseteq> set (constraints (fold (\<lambda>room m'.
             case map_of srv (s_id y, r_id room) of
               Some var \<Rightarrow>
                 if capacity room < expected_enrollment y then Add (EqConst var 0) m' else m'
             | None \<Rightarrow> m') rms m'))" for y m'
    by (intro fold_grows capacity_step_grows)
  show "EqConst var 0 \<in> set (constraints (fold (\<lambda>room m'.
             case map_of srv (s_id s, r_id room) of
               Some var \<Rightarrow>
                 if capacity room < expected_enrollment s then Add (EqConst var 0) m' else m'
             | None \<Rightarrow> m') rms m'))" for m'
  proof (rule fold_adds [OF _ _ assms(2)])
    show "set (constraints m'') \<subseteq> set (constraints
       (case map_of srv (s_id s, r_id y) of
          Some var \<Rightarrow> if capacity y < expected_enrollment s then Add (EqConst var 0) m'' else m''
        | None \<Rightarrow> m''))" for y m''
      by (rule capacity_step_grows)
    show "EqConst var 0 \<in> set (constraints
       (case map_of srv (s_id s, r_id room) of
          Some var \<Rightarrow> if capacity room < expected_enrollment s then Add (EqConst var 0) m'' else m''
        | None \<Rightarrow> m''))" for m''
      using assms(3,4) by simp
  qed
qed

lemma grows_trans:
  "set (constraints m) \<subseteq> set (constraints m') \<Longrightarrow>
   set (constraints m') \<subseteq> set (constraints m'') \<Longrightarrow>
   set (constraints m) \<subseteq> set (constraints m'')"
  by (rule order_trans)

lemma grows_Add: "set (constraints m) \<subseteq> set (constraints (Add c m))"
  by auto

lemma grows_if:
  "(b \<Longrightarrow> set (constraints m) \<subseteq> set (constraints x)) \<Longrightarrow>
   (\<not> b \<Longrightarrow> set (constraints m) \<subseteq> set (constraints y)) \<Longrightarrow>
   set (constraints m) \<subseteq> set (constraints (if b then x else y))"
  by simp

lemma grows_case_option:
  "set (constraints m) \<subseteq> set (constraints a) \<Longrightarrow>
   (\<And>y. set (constraints m) \<subseteq> set (constraints (b y))) \<Longrightarrow>
   set (constraints m) \<subseteq> set (constraints (case_option a b x))"
  by (cases x) simp_all

lemma grows_case_prod_fun:
  "(\<And>a b. set (constraints m) \<subseteq> set (constraints (f a b m))) \<Longrightarrow>
   set (constraints m) \<subseteq> set (constraints (case_prod f x m))"
  by (cases x) simp

lemma grows_case_prod:
  "(\<And>a b. set (constraints m) \<subseteq> set (constraints (f a b))) \<Longrightarrow>
   set (constraints m) \<subseteq> set (constraints (case_prod f x))"
  by (cases x) simp

lemma grows_case_list:
  "set (constraints m) \<subseteq> set (constraints a) \<Longrightarrow>
   (\<And>y ys. set (constraints m) \<subseteq> set (constraints (b y ys))) \<Longrightarrow>
   set (constraints m) \<subseteq> set (constraints (case_list a b x))"
  by (cases x) simp_all

lemmas grows_intros = subset_refl grows_Add grows_if grows_case_option grows_case_prod_fun
  grows_case_prod grows_case_list fold_grows

lemma add_room_feature_constraints_grows:
  "set (constraints m) \<subseteq> set (constraints (add_room_feature_constraints m secs rms cf srv))"
  unfolding add_room_feature_constraints_def Let_def
  by (intro grows_intros)

lemma add_equal_on_common_grows:
  "set (constraints m) \<subseteq> set (constraints (add_equal_on_common d anchor other m))"
  unfolding add_equal_on_common_def Let_def
  by (intro grows_intros)

lemma add_cross_list_constraints_grows:
  "set (constraints m) \<subseteq> set (constraints (add_cross_list_constraints m secs spv srv))"
  unfolding add_cross_list_constraints_def
  by (intro grows_intros grows_trans [OF add_equal_on_common_grows add_equal_on_common_grows])

lemma add_immediately_after_constraint_grows:
  "set (constraints m) \<subseteq> set (constraints (add_immediately_after_constraint m parent child pats spv))"
  unfolding add_immediately_after_constraint_def Let_def
  by (intro grows_intros)

lemma add_same_day_constraint_grows:
  "set (constraints m) \<subseteq> set (constraints (add_same_day_constraint m parent child pats spv))"
  unfolding add_same_day_constraint_def Let_def
  by (intro grows_intros)

lemma add_different_day_constraint_grows:
  "set (constraints m) \<subseteq> set (constraints (add_different_day_constraint m parent child pats spv))"
  unfolding add_different_day_constraint_def Let_def
  by (intro grows_intros)

lemma add_linked_section_constraints_grows:
  "set (constraints m) \<subseteq> set (constraints (add_linked_section_constraints m secs pats spv c))"
  unfolding add_linked_section_constraints_def
  by (intro grows_intros add_immediately_after_constraint_grows add_same_day_constraint_grows
        add_different_day_constraint_grows)

text \<open>The shape of the hard model.\<close>

lemma build_hard_model_Inr:
  assumes "build_hard_model lib inp = Inr st"
  obtains m2 where
    "add_instructor_conflict_constraints lib
       (add_room_conflict_constraints (model (add_assignment_constraints inp (create_variables inp init_solver)))
          (sections inp) (rooms inp) (meeting_patterns inp)
          (section_room_pattern_vars (create_variables inp init_solver)))
       (sections inp) (meeting_patterns inp)
       (section_pattern_vars (create_variables inp init_solver))
       (section_instructor_vars (create_variables inp init_solver)) = Inr m2"
    "model st =
       add_linked_section_constraints
         (add_cross_list_constraints
           (add_room_feature_constraints
             (add_room_capacity_constraints m2 (sections inp) (rooms inp)
                (section_room_vars (create_variables inp init_solver)))
             (sections inp) (rooms inp) (course_features (courses inp))
             (section_room_vars (create_variables inp init_solver)))
           (sections inp) (section_pattern_vars (create_variables inp init_solver))
           (section_room_vars (create_variables inp init_solver)))
         (sections inp) (meeting_patterns inp)
         (section_pattern_vars (create_variables inp init_solver)) (link_connector_type_of inp)"
    "section_pattern_vars st = section_pattern_vars (create_variables inp init_solver)"
    "section_room_vars st = section_room_vars (create_variables inp init_solver)"
    "section_instructor_vars st = section_instructor_vars (create_variables inp init_solver)"
  using assms
  by (auto simp: build_hard_model_def add_hard_constraints_def add_assignment_constraints_def
        Let_def split: sum.splits)

lemma first_chosen_Some:
  assumes "first_chosen v d sid ids = Some i"
  obtains var where "i \<in> set ids" "map_of d (sid, i) = Some var" "Value v var = 1"
  using assms
  by (auto simp: first_chosen_def find_Some_iff split: option.splits)

section \<open>Room capacity\<close>

text \<open>
  Claim C7. In the model that \<open>solve\<close> builds, every room variable of a section
  \<open>s\<close> for a room with less capacity than the section's expected enrollment is
  forced to 0 by a constraint of its own (the variable exists and is set to 0, it is
  not left out), so it is 0 in every feasible solution; hence when the extracted
  assignment of \<open>s\<close> is assigned, its room is a room of the input and every room of
  the input with that id has capacity for the enrollment of \<open>s\<close>. The constraints
  added after the hard constraints (the soft ones) only add to the model, so a feasible
  solution of the whole model is one of the hard model.
\<close>

theorem capacity_respected:
  assumes built: "build_hard_model lib inp = Inr st"
      and feas: "feasible v (model st)"
      and s: "s \<in> set (sections inp)"
  shows "(\<forall>room \<in> set (rooms inp). \<forall>var.
            map_of (section_room_vars st) (s_id s, r_id room) = Some var
            \<and> capacity room < expected_enrollment s
            \<longrightarrow> EqConst var 0 \<in> set (constraints (model st)) \<and> Value v var = 0)
       \<and> (is_assigned (extract_assignment inp st v s) \<longrightarrow>
            (\<exists>room \<in> set (rooms inp).
               a_room_id (extract_assignment inp st v s) = Some (r_id room))
          \<and> (\<forall>room \<in> set (rooms inp).
               a_room_id (extract_assignment inp st v s) = Some (r_id room)
               \<longrightarrow> expected_enrollment s \<le> capacity room))"
proof -
  from built obtain m2 where
    m: "model st =
       add_linked_section_constraints
         (add_cross_list_constraints
           (add_room_feature_constraints
             (add_room_capacity_constraints m2 (sections inp) (rooms inp)
                (section_room_vars (create_variables inp init_solver)))
             (sections inp) (rooms inp) (course_features (courses inp))
             (section_room_vars (create_variables inp init_solver)))
           (sections inp) (section_pattern_vars (create_variables inp init_solver))
           (section_room_vars (create_variables inp init_solver)))
         (sections inp) (meeting_patterns inp)
         (section_pattern_vars (create_variables inp init_solver)) (link_connector_type_of inp)"
    and srv: "section_room_vars st = section_room_vars (create_variables inp init_solver)"
    by (rule build_hard_model_Inr)
  have sub: "set (constraints (add_room_capacity_constraints m2 (sections inp) (rooms inp)
                (section_room_vars st))) \<subseteq> set (constraints (model st))"
    unfolding m srv
    by (rule grows_trans [OF add_room_feature_constraints_grows
          grows_trans [OF add_cross_list_constraints_grows add_linked_section_constraints_grows]])
  have forced: "EqConst var 0 \<in> set (constraints (model st)) \<and> Value v var = 0"
    if "room \<in> set (rooms inp)" "map_of (section_room_vars st) (s_id s, r_id room) = Some var"
       "capacity room < expected_enrollment s" for room var
  proof -
    have "EqConst var 0 \<in> set (constraints (model st))"
      using add_room_capacity_constraints_forces [OF s that, of m2] sub by blast
    moreover from this feas have "sat v (EqConst var 0)"
      by (auto simp: feasible_def list_all_iff)
    ultimately show ?thesis by simp
  qed
  have chosen: "expected_enrollment s \<le> capacity room"
    if "room \<in> set (rooms inp)" "a_room_id (extract_assignment inp st v s) = Some (r_id room)"
    for room
  proof (rule ccontr)
    assume "\<not> expected_enrollment s \<le> capacity room"
    then have small: "capacity room < expected_enrollment s" by simp
    from that(2) have "first_chosen v (section_room_vars st) (s_id s) (map r_id (rooms inp))
        = Some (r_id room)"
      by (simp add: extract_assignment_def Let_def)
    then obtain var where "map_of (section_room_vars st) (s_id s, r_id room) = Some var"
        "Value v var = 1"
      by (rule first_chosen_Some)
    with forced [OF that(1) _ small] show False by simp
  qed
  have exists: "\<exists>room \<in> set (rooms inp). a_room_id (extract_assignment inp st v s) = Some (r_id room)"
    if "is_assigned (extract_assignment inp st v s)"
  proof -
    from that obtain rid where
      "first_chosen v (section_room_vars st) (s_id s) (map r_id (rooms inp)) = Some rid"
      by (auto simp: extract_assignment_def Let_def)
    moreover from this have "rid \<in> set (map r_id (rooms inp))"
      by (rule first_chosen_Some)
    ultimately show ?thesis
      by (auto simp: extract_assignment_def Let_def)
  qed
  from forced chosen exists show ?thesis by blast
qed

lemma hard_model_large:
  "build_hard_model None input_large_section = Inr hard_model_large"
  by (simp add: hard_model_large_def input_large_section_def section_large_def example_defs
        factory_defs hard_defs)

text \<open>
  Claim C7, witness: the section of 40 students; room 11 (capacity 30) is forced to 0,
  the solution takes room 12 (capacity 50).
\<close>

theorem capacity_respected_witness:
  "build_hard_model None input_large_section = Inr hard_model_large
   \<and> feasible solution_large (model hard_model_large)
   \<and> section_large \<in> set (sections input_large_section)
   \<and> room_101 \<in> set (rooms input_large_section)
   \<and> capacity room_101 < expected_enrollment section_large
   \<and> EqConst (BoolVar 1) 0 \<in> set (constraints (model hard_model_large))
   \<and> is_assigned (extract_assignment input_large_section hard_model_large solution_large section_large)
   \<and> a_room_id (extract_assignment input_large_section hard_model_large solution_large section_large)
       = Some (r_id room_102)
   \<and> expected_enrollment section_large \<le> capacity room_102"
proof -
  have f: "feasible solution_large (model hard_model_large)"
    by (simp add: feasible_def hard_model_large_def solution_large_def upt_rec)
  have m: "section_large \<in> set (sections input_large_section)"
    by (simp add: input_large_section_def)
  have e: "is_assigned (extract_assignment input_large_section hard_model_large solution_large section_large)"
      "a_room_id (extract_assignment input_large_section hard_model_large solution_large section_large)
        = Some (r_id room_102)"
    by (simp_all add: extract_assignment_def first_chosen_def hard_model_large_def
          solution_large_def input_large_section_def section_large_def example_defs)
  have r: "room_101 \<in> set (rooms input_large_section)"
      "capacity room_101 < expected_enrollment section_large"
      "expected_enrollment section_large \<le> capacity room_102"
      "EqConst (BoolVar 1) 0 \<in> set (constraints (model hard_model_large))"
    by (simp_all add: input_large_section_def section_large_def hard_model_large_def example_defs)
  from capacity_respected [OF hard_model_large f m] hard_model_large f m e r
  show ?thesis by simp
qed

section \<open>Instructor conflicts with two pre-assignments\<close>

text \<open>
  Claim C1, at the input where it fails. Both sections pre-assign instructor 41 and
  the two patterns overlap, so the claim asks for the constraint
  \<open>x1 + x2 \<le> 1\<close> and for a generation that completes. Neither section has an
  instructor variable, the branch for a pre-assignment to the first section adds the
  missing variable of the second (\<open>None\<close>) to the sum, and the generation stops with
  \<open>TypeError\<close>; with a solver library whose variables refuse \<open>bool()\<close> it stops
  earlier, at \<open>if var_s1_p1 and var_s2_p2\<close>, with that library's error. No model
  is built.
\<close>

theorem both_preassigned_raises:
  "patterns_overlap pattern_mwf9 pattern_mw930
   \<and> add_instructor_conflict_constraints lib m (sections input_same_instructor)
         (meeting_patterns input_same_instructor)
         (section_pattern_vars (create_variables input_same_instructor init_solver))
         (section_instructor_vars (create_variables input_same_instructor init_solver))
       = Inl (case lib of None \<Rightarrow> TypeError | Some e \<Rightarrow> e)
   \<and> build_hard_model lib input_same_instructor
       = Inl (case lib of None \<Rightarrow> TypeError | Some e \<Rightarrow> e)"
  by (simp add: input_same_instructor_def pattern_mw930_def example_defs factory_defs hard_defs
        split: option.splits)

section \<open>Cross-listed sections with different candidates\<close>

lemma hard_model_cross:
  "build_hard_model lib input_cross_listed = Inr hard_model_cross"
  by (simp add: hard_model_cross_def input_cross_listed_def section_cross_a_def
        section_cross_b_def example_defs factory_defs hard_defs)

text \<open>
  Claim C2, at the input where it fails. The two sections are in one cross-list group
  and their candidate patterns do not intersect, so \<open>add_cross_list_constraints\<close>
  adds no pattern constraint at all (only the equality of the two room variables):
  nothing forces a variable outside the intersection to 0. The model has a feasible
  solution in which the first section meets in pattern 1 and the second in pattern 2.
  The soft constraints add nothing for this input, which has no instructors.
\<close>

theorem cross_listed_sections_differ:
  "cross_list_group_id section_cross_a = cross_list_group_id section_cross_b
   \<and> build_hard_model lib input_cross_listed = Inr hard_model_cross
   \<and> add_cross_list_constraints m (sections input_cross_listed)
         (section_pattern_vars hard_model_cross) (section_room_vars hard_model_cross)
       = Add (EqVar (BoolVar 1) (BoolVar 4)) m
   \<and> feasible solution_cross (model hard_model_cross)
   \<and> add_instructor_preference_penalties (model hard_model_cross) (sections input_cross_listed)
         (instructors input_cross_listed) (meeting_patterns input_cross_listed)
         (section_pattern_vars hard_model_cross) (section_instructor_vars hard_model_cross)
         (constraint_weights input_cross_listed) = Inr (model hard_model_cross, [])
   \<and> extract_solution input_cross_listed hard_model_cross solution_cross =
       [\<lparr>a_section_id = 21, a_meeting_pattern_id = Some 1, a_date_pattern_id = Some 51,
          a_room_id = Some 12, instructor_ids = [], penalty_contribution = 0,
          is_assigned = True, unassigned_reason = None\<rparr>,
        \<lparr>a_section_id = 22, a_meeting_pattern_id = Some 2, a_date_pattern_id = Some 51,
          a_room_id = Some 12, instructor_ids = [], penalty_contribution = 0,
          is_assigned = True, unassigned_reason = None\<rparr>]"
proof -
  have 1: "cross_list_group_id section_cross_a = cross_list_group_id section_cross_b"
    by (simp add: section_cross_a_def section_cross_b_def)
  have 2: "add_cross_list_constraints m (sections input_cross_listed)
         (section_pattern_vars hard_model_cross) (section_room_vars hard_model_cross)
       = Add (EqVar (BoolVar 1) (BoolVar 4)) m"
    by (simp add: hard_model_cross_def input_cross_listed_def section_cross_a_def
          section_cross_b_def new_section_def add_cross_list_constraints_def group_sections_def
          add_equal_on_common_def ids_of_section_def get_or_empty_def)
  have 3: "feasible solution_cross (model hard_model_cross)"
    by (simp add: feasible_def hard_model_cross_def solution_cross_def list_all_iff)
  have 4: "add_instructor_preference_penalties (model hard_model_cross) (sections input_cross_listed)
         (instructors input_cross_listed) (meeting_patterns input_cross_listed)
         (section_pattern_vars hard_model_cross) (section_instructor_vars hard_model_cross)
         (constraint_weights input_cross_listed) = Inr (model hard_model_cross, [])"
    by (simp add: add_instructor_preference_penalties_def base_weight_of_def
          input_cross_listed_def basic_solver_input_def section_cross_a_def section_cross_b_def
          new_section_def)
  have 5: "extract_solution input_cross_listed hard_model_cross solution_cross =
       [\<lparr>a_section_id = 21, a_meeting_pattern_id = Some 1, a_date_pattern_id = Some 51,
          a_room_id = Some 12, instructor_ids = [], penalty_contribution = 0,
          is_assigned = True, unassigned_reason = None\<rparr>,
        \<lparr>a_section_id = 22, a_meeting_pattern_id = Some 2, a_date_pattern_id = Some 51,
          a_room_id = Some 12, instructor_ids = [], penalty_contribution = 0,
          is_assigned = True, unassigned_reason = None\<rparr>]"
    by (simp add: extract_solution_def extract_assignment_def first_chosen_def
          hard_model_cross_def solution_cross_def input_cross_listed_def section_cross_a_def
          section_cross_b_def example_defs)
  from 1 hard_model_cross 2 3 4 5 show ?thesis by simp
qed

section \<open>Instructor time preferences\<close>

lemma fold_invariant:
  assumes "\<And>y st. P st \<Longrightarrow> P (f y st)" and "P st"
  shows "P (fold f xs st)"
  using assms(2) by (induction xs arbitrary: st) (simp_all add: assms(1))

lemma map_of_fold_update:
  "map_of (fold (\<lambda>x. AList.update (key x) x) xs acc) k = Some y \<Longrightarrow>
   (y \<in> set xs \<and> key y = k) \<or> map_of acc k = Some y"
proof (induction xs arbitrary: acc)
  case Nil
  then show ?case by simp
next
  case (Cons a xs)
  from Cons.IH [of "AList.update (key a) a acc"] Cons.prems
  show ?case by (auto simp: AList.update_conv' split: if_splits)
qed

lemma instructor_by_id_Some:
  "map_of (instructor_by_id ins) i = Some instructor \<Longrightarrow> instructor \<in> set ins \<and> i_id instructor = i"
  unfolding instructor_by_id_def
  by (drule map_of_fold_update) simp

lemma emitted_Nil [simp]: "emitted spv siv b [] acc = acc"
  by (cases acc) (simp add: emitted_def)

lemma upt_split: "[n..<n + (a + b)] = [n..<n + a] @ [n + a..<n + a + b]"
  using upt_add_eq_append [of n "n + a" b] by (simp add: add.assoc)

lemma emitted_append:
  "emitted spv siv b (qs @ qs') acc = emitted spv siv b qs' (emitted spv siv b qs acc)"
  unfolding emitted_def Let_def
  by (simp add: upt_split del: upt_Suc)

lemma fold_emitted:
  assumes "\<And>x acc. x \<in> set xs \<Longrightarrow> f x acc = emitted spv siv b (g x) acc"
  shows "fold f xs acc = emitted spv siv b (concat (map g xs)) acc"
  using assms
proof (induction xs arbitrary: acc)
  case Nil
  show ?case by simp
next
  case (Cons x xs)
  then show ?case by (simp add: emitted_append)
qed

lemma emitted_single:
  "emitted spv siv b [q] (m, pens) =
     (\<lparr>num_vars = Suc (num_vars m),
        constraints = constraints m @ quadruple_tie spv siv (BoolVar (num_vars m)) q\<rparr>,
      pens @ [(BoolVar (num_vars m), quadruple_weight b q)])"
  by (simp add: emitted_def Let_def)

lemma add_preference_penalty_emitted:
  assumes pv: "map_of spv (s_id s, p_id pattern) = Some pattern_var"
  shows "add_preference_penalty b s i pattern pattern_var (map_of siv (s_id s, i)) pref acc =
     emitted spv siv b
       [(s, i, pattern, pref'). pref' \<leftarrow> [pref], pattern_matches_preference pattern pref',
          penalty_value_of b (preference_level pref') \<noteq> 0] acc"
proof (cases "pattern_matches_preference pattern pref \<and> penalty_value_of b (preference_level pref) \<noteq> 0")
  case False
  then show ?thesis by (auto simp: add_preference_penalty_def Let_def)
next
  case True
  obtain m pens where acc: "acc = (m, pens)" by (cases acc)
  have tie: "quadruple_tie spv siv g (s, i, pattern, pref) =
      (case map_of siv (s_id s, i) of
         Some iv \<Rightarrow> [MultiplicationEquality g [pattern_var, iv]]
       | None \<Rightarrow> if i \<in> set (assigned_instructor_ids s) then [EqVar g pattern_var] else [])" for g
    by (simp add: quadruple_tie_def pv)
  have w: "quadruple_weight b (s, i, pattern, pref) = penalty_value_of b (preference_level pref)"
    by (simp add: quadruple_weight_def)
  have "add_preference_penalty b s i pattern pattern_var (map_of siv (s_id s, i)) pref (m, pens) =
        emitted spv siv b [(s, i, pattern, pref)] (m, pens)"
    unfolding emitted_single tie w using True
    by (cases "map_of siv (s_id s, i)")
       (simp_all add: add_preference_penalty_def Let_def NewBoolVar_def Add_def)
  with True acc show ?thesis by simp
qed

lemma pattern_step_emitted:
  "pattern_step b s i siv spv instructor pattern acc =
     emitted spv siv b
       [(s, i, p, pref). p \<leftarrow> [pattern], map_of spv (s_id s, p_id p) \<noteq> None,
          pref \<leftarrow> time_preferences instructor, pattern_matches_preference p pref,
          penalty_value_of b (preference_level pref) \<noteq> 0] acc"
proof (cases "map_of spv (s_id s, p_id pattern)")
  case None
  then show ?thesis by (simp add: pattern_step_def)
next
  case (Some pattern_var)
  have "fold (add_preference_penalty b s i pattern pattern_var (map_of siv (s_id s, i)))
          (time_preferences instructor) acc =
        emitted spv siv b (concat (map (\<lambda>pref. [(s, i, pattern, pref'). pref' \<leftarrow> [pref],
            pattern_matches_preference pattern pref',
            penalty_value_of b (preference_level pref') \<noteq> 0]) (time_preferences instructor))) acc"
    by (rule fold_emitted) (rule add_preference_penalty_emitted [OF Some])
  with Some show ?thesis by (simp add: pattern_step_def)
qed

lemma instructor_step_emitted:
  "instructor_step b s ins pats siv spv i acc =
     emitted spv siv b
       [(s, i, p, pref).
          instructor \<leftarrow> (case map_of (instructor_by_id ins) i of Some x \<Rightarrow> [x] | None \<Rightarrow> []),
          p \<leftarrow> pats, map_of spv (s_id s, p_id p) \<noteq> None,
          pref \<leftarrow> time_preferences instructor, pattern_matches_preference p pref,
          penalty_value_of b (preference_level pref) \<noteq> 0] acc"
proof (cases "map_of (instructor_by_id ins) i")
  case None
  then show ?thesis by (simp add: instructor_step_def)
next
  case (Some instructor)
  let ?qs = "\<lambda>prefs. concat (map (\<lambda>pattern. [(s, i, p, pref). p \<leftarrow> [pattern],
          map_of spv (s_id s, p_id p) \<noteq> None,
          pref \<leftarrow> prefs, pattern_matches_preference p pref,
          penalty_value_of b (preference_level pref) \<noteq> 0]) pats)"
  have steps: "fold (pattern_step b s i siv spv instructor) pats acc =
        emitted spv siv b (?qs (time_preferences instructor)) acc"
    by (rule fold_emitted) (rule pattern_step_emitted)
  have empty: "?qs [] = []"
    by auto
  have lhs: "instructor_step b s ins pats siv spv i acc =
      (if time_preferences instructor = [] then acc
       else fold (pattern_step b s i siv spv instructor) pats acc)"
    by (simp add: instructor_step_def Some)
  have rhs: "[(s, i, p, pref).
          instructor \<leftarrow> (case map_of (instructor_by_id ins) i of Some x \<Rightarrow> [x] | None \<Rightarrow> []),
          p \<leftarrow> pats, map_of spv (s_id s, p_id p) \<noteq> None,
          pref \<leftarrow> time_preferences instructor, pattern_matches_preference p pref,
          penalty_value_of b (preference_level pref) \<noteq> 0] = ?qs (time_preferences instructor)"
    by (simp add: Some)
  show ?thesis
  proof (cases "time_preferences instructor = []")
    case True
    have "instructor_step b s ins pats siv spv i acc = emitted spv siv b (?qs []) acc"
      unfolding lhs empty using True by simp
    then show ?thesis unfolding rhs True .
  next
    case False
    have "instructor_step b s ins pats siv spv i acc =
          emitted spv siv b (?qs (time_preferences instructor)) acc"
      unfolding lhs steps [symmetric] using False by simp
    then show ?thesis unfolding rhs .
  qed
qed

lemma section_step_emitted:
  "section_step b ins pats siv spv s acc =
     emitted spv siv b
       [(s, i, p, pref).
          i \<leftarrow> remdups (assigned_instructor_ids s @ preferred_instructor_ids s),
          instructor \<leftarrow> (case map_of (instructor_by_id ins) i of Some x \<Rightarrow> [x] | None \<Rightarrow> []),
          p \<leftarrow> pats, map_of spv (s_id s, p_id p) \<noteq> None,
          pref \<leftarrow> time_preferences instructor, pattern_matches_preference p pref,
          penalty_value_of b (preference_level pref) \<noteq> 0] acc"
  unfolding section_step_def
  by (rule fold_emitted) (rule instructor_step_emitted)

lemma penalties_emitted:
  "fold (section_step b ins pats siv spv) secs acc =
     emitted spv siv b (preference_quadruples b secs ins pats spv) acc"
  unfolding preference_quadruples_def
  by (rule fold_emitted) (rule section_step_emitted)

lemma add_instructor_preference_penalties_steps:
  "add_instructor_preference_penalties m secs ins pats spv siv weights =
     (case base_weight_of weights of
        Inl e \<Rightarrow> Inl e
      | Inr b \<Rightarrow> Inr (fold (section_step b ins pats siv spv) secs (m, [])))"
  unfolding add_instructor_preference_penalties_def section_step_def [abs_def]
    instructor_step_def [abs_def] pattern_step_def [abs_def]
  by (rule refl)

lemma penalties_Inr:
  assumes "base_weight_of weights = Inr base"
  shows "add_instructor_preference_penalties m secs ins pats spv siv weights =
     Inr (emitted spv siv base (preference_quadruples base secs ins pats spv) (m, []))"
  by (simp add: add_instructor_preference_penalties_steps assms penalties_emitted)

lemma preference_quadruples_iff:
  "(s, i, p, pref) \<in> set (preference_quadruples base secs ins pats spv) \<longleftrightarrow>
     s \<in> set secs
     \<and> i \<in> set (assigned_instructor_ids s) \<union> set (preferred_instructor_ids s)
     \<and> (\<exists>instructor. map_of (instructor_by_id ins) i = Some instructor
            \<and> pref \<in> set (time_preferences instructor))
     \<and> p \<in> set pats \<and> map_of spv (s_id s, p_id p) \<noteq> None
     \<and> pattern_matches_preference p pref
     \<and> penalty_value_of base (preference_level pref) \<noteq> 0"
  unfolding preference_quadruples_def
  apply (auto split: option.splits)
   apply metis
  apply metis
  done

lemma times_match_preference_iff:
  "times_match_preference ts pref \<longleftrightarrow>
     (\<exists>t \<in> set ts.
        (pref_day_of_week pref = None \<or> pref_day_of_week pref = Some (day_of_week t)) \<and>
        ((\<exists>ps pe. pref_start_time pref = Some ps \<and> pref_end_time pref = Some pe \<and>
            (time_in_range (start_time t) ps pe \<or> time_in_range (end_time t) ps pe))
         \<or> ((pref_start_time pref = None \<or> pref_end_time pref = None)
              \<and> pref_day_of_week pref \<noteq> None)))"
  by (induction ts) (auto split: option.splits)

text \<open>
  Claim C8, as the code has it. The base weight is the configured
  \<open>instructor_time_preference\<close> truncated towards zero, 10 when not configured;
  \<open>int()\<close> raises on an infinite weight or NaN, and then the function raises before
  it adds anything. Otherwise the result holds one term for every quadruple of
  \<open>preference_quadruples\<close>, as often as the quadruple occurs, and nothing else: for
  some enumeration \<open>qs\<close> of the quadruples the \<open>k\<close>-th term is the \<open>k\<close>-th
  fresh 0/1 variable times the weight of the \<open>k\<close>-th quadruple, the model gains
  these variables and no other, and the constraints it gains are the ties of these
  variables. The quadruples are a section \<open>s\<close>, an instructor \<open>i\<close> among its
  assigned or preferred instructors who is an instructor of the input, a pattern of
  the input with a pattern variable for \<open>s\<close>, and a preference of the instructor
  that the pattern matches and whose weight is not 0. So a weight of 0 adds no term, no
  variable and no constraint: a NEUTRAL preference adds none and, when the base weight
  is 0, no preference does. The variable \<open>g\<close> of a term is tied to the product of
  the pattern variable and the instructor variable, or made equal to the pattern
  variable for a pre-assigned instructor without a variable. The weights are 100, 2, -1
  and -2 times the base weight for PROHIBITED, DISCOURAGED, PREFERRED and REQUIRED. A
  preference with a meeting pattern id matches the pattern with that id; any other
  matches when some meeting time of the pattern is on the preference's day (if it has
  one) and either starts or ends inside \<open>[start, end)\<close>, when the preference has
  both bounds, or the preference has a day and lacks a bound.
\<close>

theorem instructor_preference_terms:
  fixes m secs ins pats spv siv weights
  defines "R \<equiv> add_instructor_preference_penalties m secs ins pats spv siv weights"
  shows "(case base_weight_of weights of
            Inl e \<Rightarrow> R = Inl e
          | Inr base \<Rightarrow>
              (\<exists>qs. mset qs = mset (preference_quadruples base secs ins pats spv) \<and>
                 R = Inr (\<lparr>num_vars = num_vars m + length qs,
                           constraints = constraints m @
                             concat (map2 (\<lambda>k. quadruple_tie spv siv (BoolVar k))
                               [num_vars m..<num_vars m + length qs] qs)\<rparr>,
                          map2 (\<lambda>k q. (BoolVar k, quadruple_weight base q))
                            [num_vars m..<num_vars m + length qs] qs)))
       \<and> base_weight_of weights =
            (case map_of weights ''instructor_time_preference'' of
               None \<Rightarrow> Inr 10
             | Some (Finite x) \<Rightarrow> Inr (if x \<ge> 0 then \<lfloor>x\<rfloor> else \<lceil>x\<rceil>)
             | Some PosInf \<Rightarrow> Inl OverflowError
             | Some NegInf \<Rightarrow> Inl OverflowError
             | Some NaN \<Rightarrow> Inl ValueError)
       \<and> ((s, i, pattern, pref) \<in> set (preference_quadruples b secs ins pats spv) \<longleftrightarrow>
            s \<in> set secs
            \<and> i \<in> set (assigned_instructor_ids s) \<union> set (preferred_instructor_ids s)
            \<and> (\<exists>instructor. map_of (instructor_by_id ins) i = Some instructor
                   \<and> pref \<in> set (time_preferences instructor))
            \<and> pattern \<in> set pats \<and> map_of spv (s_id s, p_id pattern) \<noteq> None
            \<and> pattern_matches_preference pattern pref
            \<and> penalty_value_of b (preference_level pref) \<noteq> 0)
       \<and> quadruple_weight b (s, i, pattern, pref) = penalty_value_of b (preference_level pref)
       \<and> quadruple_tie spv siv g (s, i, pattern, pref) =
            (case map_of spv (s_id s, p_id pattern) of
               None \<Rightarrow> []
             | Some pattern_var \<Rightarrow>
                 (case map_of siv (s_id s, i) of
                    Some instructor_var \<Rightarrow> [MultiplicationEquality g [pattern_var, instructor_var]]
                  | None \<Rightarrow>
                      if i \<in> set (assigned_instructor_ids s) then [EqVar g pattern_var] else []))
       \<and> penalty_value_of b PROHIBITED = 100 * b
       \<and> penalty_value_of b DISCOURAGED = 2 * b
       \<and> penalty_value_of b PREFERRED = - b
       \<and> penalty_value_of b REQUIRED = - 2 * b
       \<and> penalty_value_of b NEUTRAL = 0
       \<and> (pattern_matches_preference pattern pref \<longleftrightarrow>
            (case pref_meeting_pattern_id pref of
               Some mid \<Rightarrow> p_id pattern = mid
             | None \<Rightarrow>
                 (\<exists>t \<in> set (times pattern).
                    (pref_day_of_week pref = None \<or> pref_day_of_week pref = Some (day_of_week t)) \<and>
                    ((\<exists>ps pe. pref_start_time pref = Some ps \<and> pref_end_time pref = Some pe \<and>
                        (time_in_range (start_time t) ps pe \<or> time_in_range (end_time t) ps pe))
                     \<or> ((pref_start_time pref = None \<or> pref_end_time pref = None)
                          \<and> pref_day_of_week pref \<noteq> None)))))"
proof -
  have 1: "case base_weight_of weights of
            Inl e \<Rightarrow> R = Inl e
          | Inr base \<Rightarrow>
              (\<exists>qs. mset qs = mset (preference_quadruples base secs ins pats spv) \<and>
                 R = Inr (\<lparr>num_vars = num_vars m + length qs,
                           constraints = constraints m @
                             concat (map2 (\<lambda>k. quadruple_tie spv siv (BoolVar k))
                               [num_vars m..<num_vars m + length qs] qs)\<rparr>,
                          map2 (\<lambda>k q. (BoolVar k, quadruple_weight base q))
                            [num_vars m..<num_vars m + length qs] qs))"
  proof (cases "base_weight_of weights")
    case (Inl e)
    then show ?thesis by (simp add: R_def add_instructor_preference_penalties_steps)
  next
    case (Inr base)
    let ?qs = "preference_quadruples base secs ins pats spv"
    have "R = Inr (emitted spv siv base ?qs (m, []))"
      unfolding R_def using Inr by (rule penalties_Inr)
    then have "mset ?qs = mset ?qs \<and>
         R = Inr (\<lparr>num_vars = num_vars m + length ?qs,
                   constraints = constraints m @
                     concat (map2 (\<lambda>k. quadruple_tie spv siv (BoolVar k))
                       [num_vars m..<num_vars m + length ?qs] ?qs)\<rparr>,
                  map2 (\<lambda>k q. (BoolVar k, quadruple_weight base q))
                    [num_vars m..<num_vars m + length ?qs] ?qs)"
      by (simp add: emitted_def Let_def)
    then have "\<exists>qs. mset qs = mset ?qs \<and>
                 R = Inr (\<lparr>num_vars = num_vars m + length qs,
                           constraints = constraints m @
                             concat (map2 (\<lambda>k. quadruple_tie spv siv (BoolVar k))
                               [num_vars m..<num_vars m + length qs] qs)\<rparr>,
                          map2 (\<lambda>k q. (BoolVar k, quadruple_weight base q))
                            [num_vars m..<num_vars m + length qs] qs)"
      by (rule exI)
    with Inr show ?thesis by simp
  qed
  have 2: "base_weight_of weights =
            (case map_of weights ''instructor_time_preference'' of
               None \<Rightarrow> Inr 10
             | Some (Finite x) \<Rightarrow> Inr (if x \<ge> 0 then \<lfloor>x\<rfloor> else \<lceil>x\<rceil>)
             | Some PosInf \<Rightarrow> Inl OverflowError
             | Some NegInf \<Rightarrow> Inl OverflowError
             | Some NaN \<Rightarrow> Inl ValueError)"
    by (simp add: base_weight_of_def int_of_float_def split: option.splits pyfloat.splits)
  have 3: "(s, i, pattern, pref) \<in> set (preference_quadruples b secs ins pats spv) \<longleftrightarrow>
            s \<in> set secs
            \<and> i \<in> set (assigned_instructor_ids s) \<union> set (preferred_instructor_ids s)
            \<and> (\<exists>instructor. map_of (instructor_by_id ins) i = Some instructor
                   \<and> pref \<in> set (time_preferences instructor))
            \<and> pattern \<in> set pats \<and> map_of spv (s_id s, p_id pattern) \<noteq> None
            \<and> pattern_matches_preference pattern pref
            \<and> penalty_value_of b (preference_level pref) \<noteq> 0"
    by (rule preference_quadruples_iff)
  have 4: "quadruple_weight b (s, i, pattern, pref) = penalty_value_of b (preference_level pref)"
    by (simp add: quadruple_weight_def)
  have 5: "quadruple_tie spv siv g (s, i, pattern, pref) =
            (case map_of spv (s_id s, p_id pattern) of
               None \<Rightarrow> []
             | Some pattern_var \<Rightarrow>
                 (case map_of siv (s_id s, i) of
                    Some instructor_var \<Rightarrow> [MultiplicationEquality g [pattern_var, instructor_var]]
                  | None \<Rightarrow>
                      if i \<in> set (assigned_instructor_ids s) then [EqVar g pattern_var] else []))"
    by (simp add: quadruple_tie_def)
  have 6: "penalty_value_of b PROHIBITED = 100 * b"
      "penalty_value_of b DISCOURAGED = 2 * b"
      "penalty_value_of b PREFERRED = - b"
      "penalty_value_of b REQUIRED = - 2 * b"
      "penalty_value_of b NEUTRAL = 0"
    by (simp_all add: penalty_value_of_def)
  have 7: "pattern_matches_preference pattern pref \<longleftrightarrow>
            (case pref_meeting_pattern_id pref of
               Some mid \<Rightarrow> p_id pattern = mid
             | None \<Rightarrow>
                 (\<exists>t \<in> set (times pattern).
                    (pref_day_of_week pref = None \<or> pref_day_of_week pref = Some (day_of_week t)) \<and>
                    ((\<exists>ps pe. pref_start_time pref = Some ps \<and> pref_end_time pref = Some pe \<and>
                        (time_in_range (start_time t) ps pe \<or> time_in_range (end_time t) ps pe))
                     \<or> ((pref_start_time pref = None \<or> pref_end_time pref = None)
                          \<and> pref_day_of_week pref \<noteq> None))))"
    by (simp add: pattern_matches_preference_def times_match_preference_iff split: option.splits)
  from 1 2 3 4 5 6 7 show ?thesis by (intro conjI)
qed

lemma factory_prohibited:
  "create_variables input_prohibited init_solver =
     \<lparr>model = \<lparr>num_vars = 3, constraints =
         [MultiplicationEquality (BoolVar 2) [BoolVar 0, BoolVar 1]]\<rparr>,
      section_pattern_vars = [((21, 1), BoolVar 0)],
      section_room_vars = [((21, 12), BoolVar 1)],
      section_room_pattern_vars = [((21, 12, 1), BoolVar 2)],
      section_instructor_vars = []\<rparr>"
  by (simp add: input_prohibited_def example_defs factory_defs)

lemma factory_zero_weight:
  "create_variables input_zero_weight init_solver =
     \<lparr>model = \<lparr>num_vars = 3, constraints =
         [MultiplicationEquality (BoolVar 2) [BoolVar 0, BoolVar 1]]\<rparr>,
      section_pattern_vars = [((21, 1), BoolVar 0)],
      section_room_vars = [((21, 12), BoolVar 1)],
      section_room_pattern_vars = [((21, 12, 1), BoolVar 2)],
      section_instructor_vars = []\<rparr>"
  by (simp add: input_zero_weight_def input_prohibited_def example_defs factory_defs)

lemma quadruples_prohibited:
  "preference_quadruples 10 (sections input_prohibited) (instructors input_prohibited)
     (meeting_patterns input_prohibited)
     (section_pattern_vars (create_variables input_prohibited init_solver))
   = [(section_cs101, 41, pattern_mwf9, pref_no_monday_morning)]"
  apply (simp add: preference_quadruples_def factory_prohibited)
  apply (simp add: input_prohibited_def)
  apply (simp add: section_cs101_def new_section_def basic_solver_input_def instructor_by_id_def)
  apply (simp add: pattern_mwf9_def)
  apply (simp add: pref_no_monday_morning_def soft_defs meeting_def at_time_def)
  done

lemma penalty_value_of_zero: "penalty_value_of 0 level = 0"
  by (cases level) (simp_all add: penalty_value_of_def)

lemma quadruples_zero: "preference_quadruples 0 secs ins pats spv = []"
proof -
  have "q \<notin> set (preference_quadruples 0 secs ins pats spv)" for q
  proof -
    obtain s i p pref where "q = (s, i, p, pref)" by (cases q)
    then show ?thesis by (simp add: preference_quadruples_iff penalty_value_of_zero)
  qed
  then show ?thesis by (cases "preference_quadruples 0 secs ins pats spv") auto
qed

text \<open>
  Claim C8, witness: the prohibited Monday morning of instructor 41, pre-assigned to
  the section, and the pattern MWF 9:00-9:50, with the default base weight 10: the one
  quadruple gives one term of weight 1000 on the new variable 3, which is made equal to
  the pattern variable.
\<close>

theorem instructor_preference_terms_witness:
  "base_weight_of (constraint_weights input_prohibited) = Inr 10
   \<and> preference_quadruples 10 (sections input_prohibited) (instructors input_prohibited)
        (meeting_patterns input_prohibited)
        (section_pattern_vars (create_variables input_prohibited init_solver))
      = [(section_cs101, 41, pattern_mwf9, pref_no_monday_morning)]
   \<and> penalties_of input_prohibited =
       Inr (\<lparr>num_vars = 4, constraints =
              [MultiplicationEquality (BoolVar 2) [BoolVar 0, BoolVar 1],
               EqVar (BoolVar 3) (BoolVar 0)]\<rparr>,
            [(BoolVar 3, 1000)])"
proof -
  let ?st = "create_variables input_prohibited init_solver"
  let ?q = "(section_cs101, 41, pattern_mwf9, pref_no_monday_morning)"
  have b: "base_weight_of (constraint_weights input_prohibited) = Inr 10"
    by (simp add: base_weight_of_def input_prohibited_def basic_solver_input_def)
  have q: "preference_quadruples 10 (sections input_prohibited) (instructors input_prohibited)
        (meeting_patterns input_prohibited) (section_pattern_vars ?st) = [?q]"
    by (rule quadruples_prohibited)
  have w: "quadruple_weight 10 ?q = 1000"
    by (simp add: quadruple_weight_def penalty_value_of_def pref_no_monday_morning_def)
  have t: "quadruple_tie (section_pattern_vars ?st) (section_instructor_vars ?st) (BoolVar 3) ?q
             = [EqVar (BoolVar 3) (BoolVar 0)]"
    by (simp add: factory_prohibited quadruple_tie_def example_defs)
  let ?R = "add_instructor_preference_penalties (model ?st) (sections input_prohibited)
        (instructors input_prohibited) (meeting_patterns input_prohibited)
        (section_pattern_vars ?st) (section_instructor_vars ?st)
        (constraint_weights input_prohibited)"
  let ?ks = "\<lambda>qs :: quadruple list. [num_vars (model ?st)..<num_vars (model ?st) + length qs]"
  have "\<exists>qs. mset qs = mset (preference_quadruples 10 (sections input_prohibited)
            (instructors input_prohibited) (meeting_patterns input_prohibited)
            (section_pattern_vars ?st)) \<and>
      ?R = Inr (\<lparr>num_vars = num_vars (model ?st) + length qs,
             constraints = constraints (model ?st) @
               concat (map2 (\<lambda>k. quadruple_tie (section_pattern_vars ?st)
                   (section_instructor_vars ?st) (BoolVar k)) (?ks qs) qs)\<rparr>,
            map2 (\<lambda>k q. (BoolVar k, quadruple_weight 10 q)) (?ks qs) qs)"
    using instructor_preference_terms [where weights = "constraint_weights input_prohibited"
      and m = "model ?st" and secs = "sections input_prohibited"
      and ins = "instructors input_prohibited" and pats = "meeting_patterns input_prohibited"
      and spv = "section_pattern_vars ?st" and siv = "section_instructor_vars ?st",
      THEN conjunct1]
    by (simp only: b sum.case)
  then obtain qs where qs: "mset qs = mset (preference_quadruples 10 (sections input_prohibited)
            (instructors input_prohibited) (meeting_patterns input_prohibited)
            (section_pattern_vars ?st))"
    and r: "?R = Inr (\<lparr>num_vars = num_vars (model ?st) + length qs,
             constraints = constraints (model ?st) @
               concat (map2 (\<lambda>k. quadruple_tie (section_pattern_vars ?st)
                   (section_instructor_vars ?st) (BoolVar k)) (?ks qs) qs)\<rparr>,
            map2 (\<lambda>k q. (BoolVar k, quadruple_weight 10 q)) (?ks qs) qs)"
    by (elim exE conjE)
  from qs have qs1: "qs = [?q]" unfolding q by simp
  have n: "num_vars (model ?st) = 3"
      "constraints (model ?st) = [MultiplicationEquality (BoolVar 2) [BoolVar 0, BoolVar 1]]"
    by (simp_all add: factory_prohibited)
  from r have "?R = Inr (\<lparr>num_vars = 4, constraints =
              [MultiplicationEquality (BoolVar 2) [BoolVar 0, BoolVar 1],
               EqVar (BoolVar 3) (BoolVar 0)]\<rparr>,
            [(BoolVar 3, 1000)])"
    unfolding qs1 n by (simp add: w t)
  then have "penalties_of input_prohibited =
       Inr (\<lparr>num_vars = 4, constraints =
              [MultiplicationEquality (BoolVar 2) [BoolVar 0, BoolVar 1],
               EqVar (BoolVar 3) (BoolVar 0)]\<rparr>,
            [(BoolVar 3, 1000)])"
    by (simp add: penalties_of_def Let_def)
  with b q show ?thesis by simp
qed

text \<open>
  Claim C8 as stated fails: with the weight of instructor time preferences configured
  as 0 the same prohibited preference of the same pre-assigned instructor matches the
  same pattern, and nothing is added for it: the list of penalty terms is empty and
  the model is the model of the variable factory, with its 3 variables.
\<close>

theorem zero_weight_adds_no_term:
  "section_cs101 \<in> set (sections input_zero_weight)
   \<and> 41 \<in> set (assigned_instructor_ids section_cs101)
   \<and> map_of (instructor_by_id (instructors input_zero_weight)) 41
       = Some \<lparr>i_id = 41, time_preferences = [pref_no_monday_morning]\<rparr>
   \<and> pattern_mwf9 \<in> set (meeting_patterns input_zero_weight)
   \<and> map_of (section_pattern_vars (create_variables input_zero_weight init_solver))
        (s_id section_cs101, p_id pattern_mwf9) = Some (BoolVar 0)
   \<and> pattern_matches_preference pattern_mwf9 pref_no_monday_morning
   \<and> preference_level pref_no_monday_morning = PROHIBITED
   \<and> base_weight_of (constraint_weights input_zero_weight) = Inr 0
   \<and> num_vars (model (create_variables input_zero_weight init_solver)) = 3
   \<and> penalties_of input_zero_weight
       = Inr (model (create_variables input_zero_weight init_solver), [])"
proof -
  have 1: "section_cs101 \<in> set (sections input_zero_weight)"
      "pattern_mwf9 \<in> set (meeting_patterns input_zero_weight)"
      "map_of (instructor_by_id (instructors input_zero_weight)) 41
         = Some \<lparr>i_id = 41, time_preferences = [pref_no_monday_morning]\<rparr>"
      "base_weight_of (constraint_weights input_zero_weight) = Inr 0"
    by (simp_all add: input_zero_weight_def input_prohibited_def instructor_by_id_def
          base_weight_of_def int_of_float_def)
  have 2: "41 \<in> set (assigned_instructor_ids section_cs101)"
      "preference_level pref_no_monday_morning = PROHIBITED"
    by (simp_all add: section_cs101_def new_section_def pref_no_monday_morning_def)
  have 3: "map_of (section_pattern_vars (create_variables input_zero_weight init_solver))
        (s_id section_cs101, p_id pattern_mwf9) = Some (BoolVar 0)"
      "num_vars (model (create_variables input_zero_weight init_solver)) = 3"
    by (simp_all add: factory_zero_weight example_defs)
  have 4: "pattern_matches_preference pattern_mwf9 pref_no_monday_morning"
    by (simp add: pref_no_monday_morning_def example_defs soft_defs)
  have 5: "penalties_of input_zero_weight
       = Inr (model (create_variables input_zero_weight init_solver), [])"
    by (simp add: penalties_of_def penalties_Inr [OF 1(4)] quadruples_zero)
  from 1 2 3 4 5 show ?thesis by simp
qed

section \<open>Constraint generation keeps the model\<close>

lemma model_le_refl: "model_le m m"
  by (simp add: model_le_def)

lemma model_le_trans: "model_le a b \<Longrightarrow> model_le b c \<Longrightarrow> model_le a c"
  by (auto simp: model_le_def)

lemma model_le_Add: "model_le m (Add c m)"
  by (auto simp: model_le_def Add_def)

lemma model_le_if:
  "(b \<Longrightarrow> model_le m x) \<Longrightarrow> (\<not> b \<Longrightarrow> model_le m y) \<Longrightarrow> model_le m (if b then x else y)"
  by simp

lemma model_le_case_option:
  "model_le m a \<Longrightarrow> (\<And>y. model_le m (b y)) \<Longrightarrow> model_le m (case_option a b x)"
  by (cases x) simp_all

lemma model_le_case_prod_fun:
  "(\<And>a b. model_le m (f a b m)) \<Longrightarrow> model_le m (case_prod f x m)"
  by (cases x) simp

lemma model_le_case_prod:
  "(\<And>a b. model_le m (f a b)) \<Longrightarrow> model_le m (case_prod f x)"
  by (cases x) simp

lemma model_le_case_list:
  "model_le m a \<Longrightarrow> (\<And>y ys. model_le m (b y ys)) \<Longrightarrow> model_le m (case_list a b x)"
  by (cases x) simp_all

lemma fold_model_le:
  assumes "\<And>x m. model_le m (f x m)"
  shows "model_le m (fold f xs m)"
proof (induction xs arbitrary: m)
  case Nil
  show ?case by (simp add: model_le_refl)
next
  case (Cons a xs)
  have "model_le m (f a m)" by (rule assms)
  moreover have "model_le (f a m) (fold f xs (f a m))" by (rule Cons.IH)
  ultimately show ?case by (simp add: model_le_trans)
qed

lemmas model_le_intros = model_le_refl model_le_Add model_le_if model_le_case_option
  model_le_case_prod_fun model_le_case_prod model_le_case_list fold_model_le

lemma fold_err_model_le:
  assumes "\<And>x m m'. f x m = Inr m' \<Longrightarrow> model_le m m'"
  shows "fold_err f xs m = Inr m' \<Longrightarrow> model_le m m'"
proof (induction xs arbitrary: m)
  case Nil
  then show ?case by (simp add: model_le_refl)
next
  case (Cons a xs)
  from Cons.prems obtain m1 where 1: "f a m = Inr m1" and 2: "fold_err f xs m1 = Inr m'"
    by (auto split: sum.splits)
  from assms [OF 1] Cons.IH [OF 2] show ?case by (rule model_le_trans)
qed

lemma add_section_assignment_constraints_le:
  "model_le m (add_section_assignment_constraints inp st s m)"
  by (auto simp: model_le_def Add_def add_section_assignment_constraints_def Let_def)

lemma add_assignment_constraints_le:
  "model_le (model st) (model (add_assignment_constraints inp st))"
  unfolding add_assignment_constraints_def
  by (simp add: fold_model_le add_section_assignment_constraints_le)

lemma add_overlap_pair_le:
  "model_le (snd acc) (snd (add_overlap_pair bp p q acc))"
  by (cases acc) (simp add: add_overlap_pair_def Let_def model_le_refl model_le_Add)

lemma fold_snd_model_le:
  assumes "\<And>x a. model_le (snd a) (snd (f x a))"
  shows "model_le (snd a) (snd (fold f xs a))"
proof (induction xs arbitrary: a)
  case Nil
  show ?case by (simp add: model_le_refl)
next
  case (Cons x xs)
  have "model_le (snd a) (snd (f x a))" by (rule assms)
  moreover have "model_le (snd (f x a)) (snd (fold f xs (f x a)))" by (rule Cons.IH)
  ultimately show ?case by (simp add: model_le_trans)
qed

lemma add_room_conflicts_for_room_le:
  "model_le m (add_room_conflicts_for_room secs pats srpv room m)"
proof -
  let ?bp = "room_section_by_pattern secs pats srpv (r_id room)"
  let ?m1 = "fold (\<lambda>(pattern_id, pattern_vars) m'.
                  if length pattern_vars > 1 then Add (SumLe pattern_vars 1) m' else m') ?bp m"
  have 1: "model_le m ?m1"
    by (intro model_le_intros)
  have "model_le (snd ([] :: (uuid \<times> uuid) list, ?m1))
     (snd (fold (\<lambda>(pattern_id, overlaps). fold (add_overlap_pair ?bp pattern_id) overlaps)
                (overlapping_patterns pats) ([], ?m1)))"
  proof (rule fold_snd_model_le)
    fix x :: "uuid \<times> uuid list" and a :: "(uuid \<times> uuid) list \<times> CpModel"
    show "model_le (snd a) (snd ((case x of (pattern_id, overlaps) \<Rightarrow>
              fold (add_overlap_pair ?bp pattern_id) overlaps) a))"
      by (cases x) (simp add: fold_snd_model_le add_overlap_pair_le)
  qed
  with 1 show ?thesis
    unfolding add_room_conflicts_for_room_def Let_def
    by (simp add: model_le_trans)
qed

lemma add_room_conflict_constraints_le:
  "model_le m (add_room_conflict_constraints m secs rms pats srpv)"
  unfolding add_room_conflict_constraints_def
  by (rule fold_model_le) (rule add_room_conflicts_for_room_le)

lemma add_sum_le_le: "add_sum_le xs k m = Inr m' \<Longrightarrow> model_le m m'"
  by (auto simp: add_sum_le_def model_le_Add split: sum.splits)

lemma instructor_conflict_le:
  "instructor_conflict lib spv siv i s1 s2 p1 p2 m = Inr m' \<Longrightarrow> model_le m m'"
  unfolding instructor_conflict_def Let_def
  by (auto split: sum.splits if_splits dest: add_sum_le_le simp: model_le_refl)

lemma add_instructor_conflict_constraints_le:
  assumes "add_instructor_conflict_constraints lib m secs pats spv siv = Inr m'"
  shows "model_le m m'"
  using assms unfolding add_instructor_conflict_constraints_def Let_def
proof (rule fold_err_model_le [rotated])
  fix i m1 m2
  assume a: "(if length (instructor_sections siv secs i) < 2 then Inr m1
              else fold_err (\<lambda>(s1, s2).
                     fold_err (\<lambda>p1_id.
                       fold_err (instructor_conflict lib spv siv i s1 s2 p1_id)
                         (get_or_empty (overlapping_patterns pats) p1_id))
                       (map p_id pats))
                     (later_pairs (instructor_sections siv secs i)) m1) = Inr m2"
  show "model_le m1 m2"
  proof (cases "length (instructor_sections siv secs i) < 2")
    case True
    with a show ?thesis by (simp add: model_le_refl)
  next
    case False
    with a have "fold_err (\<lambda>(s1, s2).
                     fold_err (\<lambda>p1_id.
                       fold_err (instructor_conflict lib spv siv i s1 s2 p1_id)
                         (get_or_empty (overlapping_patterns pats) p1_id))
                       (map p_id pats))
                     (later_pairs (instructor_sections siv secs i)) m1 = Inr m2"
      by simp
    then show ?thesis
    proof (rule fold_err_model_le [rotated])
      fix x :: "Section \<times> Section" and m3 m4
      assume b: "(case x of (s1, s2) \<Rightarrow>
                     fold_err (\<lambda>p1_id.
                       fold_err (instructor_conflict lib spv siv i s1 s2 p1_id)
                         (get_or_empty (overlapping_patterns pats) p1_id))
                       (map p_id pats)) m3 = Inr m4"
      obtain s1 s2 where x: "x = (s1, s2)" by (cases x)
      from b have "fold_err (\<lambda>p1_id.
                       fold_err (instructor_conflict lib spv siv i s1 s2 p1_id)
                         (get_or_empty (overlapping_patterns pats) p1_id))
                       (map p_id pats) m3 = Inr m4"
        by (simp add: x)
      then show "model_le m3 m4"
      proof (rule fold_err_model_le [rotated])
        fix p1 m5 m6
        assume "fold_err (instructor_conflict lib spv siv i s1 s2 p1)
                  (get_or_empty (overlapping_patterns pats) p1) m5 = Inr m6"
        then show "model_le m5 m6"
          by (rule fold_err_model_le [rotated]) (rule instructor_conflict_le)
      qed
    qed
  qed
qed

lemma add_room_capacity_constraints_le:
  "model_le m (add_room_capacity_constraints m secs rms srv)"
  unfolding add_room_capacity_constraints_def
  by (intro model_le_intros)

lemma add_room_feature_constraints_le:
  "model_le m (add_room_feature_constraints m secs rms cf srv)"
  unfolding add_room_feature_constraints_def Let_def
  by (intro model_le_intros)

lemma add_equal_on_common_le:
  "model_le m (add_equal_on_common d anchor other m)"
  unfolding add_equal_on_common_def Let_def
  by (intro model_le_intros)

lemma add_cross_list_constraints_le:
  "model_le m (add_cross_list_constraints m secs spv srv)"
  unfolding add_cross_list_constraints_def
  by (intro model_le_intros model_le_trans [OF add_equal_on_common_le add_equal_on_common_le])

lemma add_immediately_after_constraint_le:
  "model_le m (add_immediately_after_constraint m parent child pats spv)"
  unfolding add_immediately_after_constraint_def Let_def
  by (intro model_le_intros)

lemma add_same_day_constraint_le:
  "model_le m (add_same_day_constraint m parent child pats spv)"
  unfolding add_same_day_constraint_def Let_def
  by (intro model_le_intros)

lemma add_different_day_constraint_le:
  "model_le m (add_different_day_constraint m parent child pats spv)"
  unfolding add_different_day_constraint_def Let_def
  by (intro model_le_intros)

lemma add_linked_section_constraints_le:
  "model_le m (add_linked_section_constraints m secs pats spv c)"
  unfolding add_linked_section_constraints_def
  by (intro model_le_intros add_immediately_after_constraint_le add_same_day_constraint_le
        add_different_day_constraint_le)

section \<open>The pattern variables are 0/1 valued\<close>

lemma var_in_model_mono:
  "var_in_model m var \<Longrightarrow> num_vars m \<le> num_vars m' \<Longrightarrow> var_in_model m' var"
  by (cases var) (auto simp: var_in_model_def)

lemma set_update_subset: "set (AList.update k v al) \<subseteq> insert (k, v) (set al)"
  by (induction al) auto

lemma create_pattern_var_ok: "pattern_vars_ok st \<Longrightarrow> pattern_vars_ok (create_pattern_var s p st)"
proof -
  assume a: "pattern_vars_ok st"
  show ?thesis
  proof (cases "fixed_meeting_pattern_id s")
    case (Some f)
    have "set (AList.update (s_id s, p) (Constant (if p = f then 1 else 0)) (section_pattern_vars st))
        \<subseteq> insert ((s_id s, p), Constant (if p = f then 1 else 0)) (set (section_pattern_vars st))"
      by (rule set_update_subset)
    with a show ?thesis
      by (auto simp: pattern_vars_ok_def create_pattern_var_def Some list_all_iff var_in_model_def)
  next
    case None
    have "set (AList.update (s_id s, p) (BoolVar (num_vars (model st))) (section_pattern_vars st))
        \<subseteq> insert ((s_id s, p), BoolVar (num_vars (model st))) (set (section_pattern_vars st))"
      by (rule set_update_subset)
    moreover have "var_in_model (model st\<lparr>num_vars := Suc (num_vars (model st))\<rparr>) (snd kv)"
      if "kv \<in> set (section_pattern_vars st)" for kv
      using a that by (auto simp: pattern_vars_ok_def list_all_iff intro: var_in_model_mono)
    ultimately show ?thesis
      by (auto simp: pattern_vars_ok_def create_pattern_var_def None list_all_iff NewBoolVar_def
            var_in_model_def)
  qed
qed

lemma pattern_vars_ok_frame:
  assumes "pattern_vars_ok st" "section_pattern_vars st' = section_pattern_vars st"
          "num_vars (model st) \<le> num_vars (model st')"
  shows "pattern_vars_ok st'"
  using assms by (auto simp: pattern_vars_ok_def list_all_iff intro: var_in_model_mono)

lemma create_room_var_ok: "pattern_vars_ok st \<Longrightarrow> pattern_vars_ok (create_room_var s r st)"
  by (erule pattern_vars_ok_frame)
     (simp_all add: create_room_var_def NewBoolVar_def split: option.splits)

lemma create_room_pattern_var_ok:
  "pattern_vars_ok st \<Longrightarrow> pattern_vars_ok (create_room_pattern_var s p r st)"
  by (erule pattern_vars_ok_frame)
     (simp_all add: create_room_pattern_var_def NewBoolVar_def Let_def Add_def split: option.splits)

lemma create_instructor_var_ok:
  "pattern_vars_ok st \<Longrightarrow> pattern_vars_ok (create_instructor_var s i st)"
  by (erule pattern_vars_ok_frame) (simp_all add: create_instructor_var_def NewBoolVar_def)

lemma create_section_variables_ok:
  "pattern_vars_ok st \<Longrightarrow> pattern_vars_ok (create_section_variables inp s st)"
  unfolding create_section_variables_def Let_def
  by (intro fold_invariant [where P = pattern_vars_ok] create_pattern_var_ok create_room_var_ok
        create_room_pattern_var_ok create_instructor_var_ok)

lemma create_variables_ok: "pattern_vars_ok (create_variables inp init_solver)"
  unfolding create_variables_def
proof (rule fold_invariant [where P = pattern_vars_ok])
  show "pattern_vars_ok init_solver"
    by (simp add: pattern_vars_ok_def init_solver_def)
  show "pattern_vars_ok (create_section_variables inp y st)" if "pattern_vars_ok st" for y st
    using that by (rule create_section_variables_ok)
qed

lemma sum_section_vars_in_order:
  "sum_list (map (Value v) (section_vars_in_order d sid ids)) = sum_list (map (value_at v d sid) ids)"
  by (induction ids) (auto simp: section_vars_in_order_def value_at_def split: option.splits)

lemma first_chosen_find:
  "first_chosen v d sid ids = List.find (\<lambda>i. map_of d (sid, i) \<noteq> None \<and> value_at v d sid i = 1) ids"
  unfolding first_chosen_def value_at_def
  by (rule arg_cong [where f = "\<lambda>P. List.find P ids"]) (auto split: option.splits)

lemma sum_bits_nonneg:
  "\<forall>x \<in> set xs. f x = 0 \<or> f x = (1::int) \<Longrightarrow> 0 \<le> sum_list (map f xs)"
  by (induction xs) auto

lemma sum_bits_ge_one:
  "\<forall>x \<in> set xs. f x = 0 \<or> f x = (1::int) \<Longrightarrow> 1 \<le> sum_list (map f xs) \<Longrightarrow> \<exists>x \<in> set xs. f x = 1"
  by (induction xs) auto

lemma sum_bits_one_unique:
  assumes "\<forall>x \<in> set xs. f x = 0 \<or> f x = (1::int)" "sum_list (map f xs) = 1"
          "a \<in> set xs" "b \<in> set xs" "f a = 1" "f b = 1"
  shows "a = b"
  using assms
proof (induction xs)
  case Nil
  then show ?case by simp
next
  case (Cons x xs)
  have nn: "0 \<le> sum_list (map f xs)" using Cons.prems(1) by (intro sum_bits_nonneg) simp
  show ?case
  proof (cases "f x = 1")
    case True
    with Cons.prems(2) have z: "sum_list (map f xs) = 0" by simp
    have "\<forall>y \<in> set xs. f y = 0"
    proof
      fix y assume y: "y \<in> set xs"
      show "f y = 0"
      proof (rule ccontr)
        assume "f y \<noteq> 0"
        with Cons.prems(1) y have "f y = 1" by auto
        moreover have "f y \<le> sum_list (map f xs)"
          using y Cons.prems(1) by (intro member_le_sum_list) auto
        ultimately show False using z by simp
      qed
    qed
    with Cons.prems(3-6) show ?thesis by auto
  next
    case False
    with Cons.prems(1) have "f x = 0" by auto
    with Cons.prems Cons.IH False show ?thesis by auto
  qed
qed

section \<open>Linked sections\<close>

lemma model_le_subset: "model_le m m' \<Longrightarrow> set (constraints m) \<subseteq> set (constraints m')"
  by (simp add: model_le_def)

lemma ids_of_section_iff:
  "i \<in> set (ids_of_section d sid) \<longleftrightarrow> map_of d (sid, i) \<noteq> None"
proof -
  have "i \<in> set (ids_of_section d sid) \<longleftrightarrow> (sid, i) \<in> fst ` set d"
    by (force simp: ids_of_section_def)
  also have "\<dots> \<longleftrightarrow> map_of d (sid, i) \<noteq> None"
    by (simp add: map_of_eq_None_iff)
  finally show ?thesis .
qed

lemma section_vars_in_order_nonempty:
  "i \<in> set ids \<Longrightarrow> map_of d (sid, i) \<noteq> None \<Longrightarrow> section_vars_in_order d sid ids \<noteq> []"
  by (induction ids) (auto simp: section_vars_in_order_def split: option.splits)

lemma map_of_fold_update_in:
  "k \<in> key ` set xs \<Longrightarrow> map_of (fold (\<lambda>x. AList.update (key x) x) xs acc) k \<noteq> None"
proof (induction xs arbitrary: acc)
  case Nil
  then show ?case by simp
next
  case (Cons a xs)
  have keep: "map_of acc' k \<noteq> None \<Longrightarrow> map_of (fold (\<lambda>x. AList.update (key x) x) ys acc') k \<noteq> None"
    for ys acc'
    by (induction ys arbitrary: acc') (auto simp: AList.update_conv')
  show ?case
  proof (cases "k \<in> key ` set xs")
    case True
    then show ?thesis by (simp add: Cons.IH)
  next
    case False
    with Cons.prems have "key a = k" by auto
    then have "map_of (AList.update (key a) a acc) k \<noteq> None"
      by (simp add: AList.update_conv')
    then show ?thesis by (simp add: keep)
  qed
qed

lemma pattern_by_id_Some:
  "map_of (pattern_by_id pats) k = Some p \<Longrightarrow> p \<in> set pats \<and> p_id p = k"
  unfolding pattern_by_id_def
  by (drule map_of_fold_update) simp

lemma pattern_by_id_in:
  "k \<in> set (map p_id pats) \<Longrightarrow> \<exists>p. map_of (pattern_by_id pats) k = Some p"
  unfolding pattern_by_id_def
  using map_of_fold_update_in [of k p_id pats "[]"] by auto

lemma group_sections_subset:
  "(g, grp) \<in> set (group_sections key secs) \<Longrightarrow> set grp \<subseteq> set secs"
proof -
  have inv: "\<forall>(g, grp) \<in> set (fold (\<lambda>s d. case key s of
                    None \<Rightarrow> d
                  | Some g \<Rightarrow> AList.update g (get_or_empty d g @ [s]) d) xs d0). set grp \<subseteq> A"
    if "\<forall>(g, grp) \<in> set d0. set grp \<subseteq> A" "set xs \<subseteq> A" for xs d0 and A :: "Section set"
    using that
  proof (induction xs arbitrary: d0)
    case Nil
    then show ?case by simp
  next
    case (Cons s xs)
    have "\<forall>(g, grp) \<in> set (case key s of
                    None \<Rightarrow> d0
                  | Some g \<Rightarrow> AList.update g (get_or_empty d0 g @ [s]) d0). set grp \<subseteq> A"
    proof (cases "key s")
      case None
      then show ?thesis using Cons.prems(1) by simp
    next
      case (Some g)
      have ge: "set (get_or_empty d0 g) \<subseteq> A"
      proof (cases "map_of d0 g")
        case None
        then show ?thesis by (simp add: get_or_empty_def)
      next
        case (Some xs)
        then have "(g, xs) \<in> set d0" by (rule map_of_SomeD)
        with Cons.prems(1) have "set xs \<subseteq> A" by auto
        with Some show ?thesis by (simp add: get_or_empty_def)
      qed
      have "set b \<subseteq> A" if "(a, b) \<in> set (AList.update g (get_or_empty d0 g @ [s]) d0)" for a b
      proof -
        from that set_update_subset [of g "get_or_empty d0 g @ [s]" d0]
        have "(a, b) = (g, get_or_empty d0 g @ [s]) \<or> (a, b) \<in> set d0" by blast
        then show ?thesis
        proof
          assume "(a, b) = (g, get_or_empty d0 g @ [s])"
          with ge Cons.prems(2) show ?thesis by auto
        next
          assume "(a, b) \<in> set d0"
          with Cons.prems(1) show ?thesis by auto
        qed
      qed
      then show ?thesis by (auto simp: Some)
    qed
    with Cons.IH [of "case key s of None \<Rightarrow> d0
                  | Some g \<Rightarrow> AList.update g (get_or_empty d0 g @ [s]) d0"] Cons.prems(2)
    show ?case by simp
  qed
  assume "(g, grp) \<in> set (group_sections key secs)"
  with inv [of "[]" "set secs" secs] show ?thesis
    by (auto simp: group_sections_def)
qed

lemma link_parent_children_subset:
  "link_parent_children grp = Some (parent, children) \<Longrightarrow>
   parent \<in> set grp \<and> set children \<subseteq> set grp"
proof -
  assume a: "link_parent_children grp = Some (parent, children)"
  then have len: "\<not> length grp < 2" by (auto simp: link_parent_children_def split: if_splits)
  then obtain x y zs where grp: "grp = x # y # zs"
    by (cases grp; cases "tl grp") auto
  show ?thesis
  proof (cases "filter is_link_parent grp")
    case Nil
    with a len show ?thesis by (auto simp: link_parent_children_def grp)
  next
    case (Cons p ps)
    then have "p \<in> set (filter is_link_parent grp)" by simp
    then have "p \<in> set grp" by simp
    with a len Cons show ?thesis by (auto simp: link_parent_children_def)
  qed
qed

text \<open>The compatibility test, without the loops.\<close>

lemma patterns_compatible_immediately_after_iff:
  "patterns_compatible_immediately_after pp cp g \<longleftrightarrow>
     (\<exists>pt \<in> set (times pp). \<exists>ct \<in> set (times cp).
        day_of_week pt = day_of_week ct \<and>
        0 \<le> minutes_of (start_time ct) - minutes_of (end_time pt) \<and>
        minutes_of (start_time ct) - minutes_of (end_time pt) \<le> g)"
proof
  assume "patterns_compatible_immediately_after pp cp g"
  then show "\<exists>pt \<in> set (times pp). \<exists>ct \<in> set (times cp).
        day_of_week pt = day_of_week ct \<and>
        0 \<le> minutes_of (start_time ct) - minutes_of (end_time pt) \<and>
        minutes_of (start_time ct) - minutes_of (end_time pt) \<le> g"
    unfolding patterns_compatible_immediately_after_def Let_def get_pattern_days_def
    by (simp add: list_ex_iff split: if_splits) metis
next
  assume "\<exists>pt \<in> set (times pp). \<exists>ct \<in> set (times cp).
        day_of_week pt = day_of_week ct \<and>
        0 \<le> minutes_of (start_time ct) - minutes_of (end_time pt) \<and>
        minutes_of (start_time ct) - minutes_of (end_time pt) \<le> g"
  then obtain pt ct where pt: "pt \<in> set (times pp)" and ct: "ct \<in> set (times cp)"
    and d: "day_of_week pt = day_of_week ct"
    and g: "0 \<le> minutes_of (start_time ct) - minutes_of (end_time pt)"
       "minutes_of (start_time ct) - minutes_of (end_time pt) \<le> g"
    by blast
  let ?common = "filter (\<lambda>d. d \<in> set (remdups (map day_of_week (times cp))))
                   (remdups (map day_of_week (times pp)))"
  have "day_of_week pt \<in> day_of_week ` set (times pp)" using pt by (rule imageI)
  moreover have "day_of_week pt \<in> day_of_week ` set (times cp)"
    unfolding d using ct by (rule imageI)
  ultimately have c: "day_of_week pt \<in> set ?common" by simp
  have ne: "?common \<noteq> []"
  proof
    assume e: "?common = []"
    from c show False unfolding e by simp
  qed
  have "list_ex (\<lambda>day.
          list_ex (\<lambda>pt. list_ex (\<lambda>ct.
             0 \<le> minutes_of (start_time ct) - minutes_of (end_time pt) \<and>
             minutes_of (start_time ct) - minutes_of (end_time pt) \<le> g)
            (filter (\<lambda>t. day_of_week t = day) (times cp)))
           (filter (\<lambda>t. day_of_week t = day) (times pp))) ?common"
    unfolding list_ex_iff
  proof (rule bexI [OF _ c], rule bexI [where x = pt], rule bexI [where x = ct])
    show "0 \<le> minutes_of (start_time ct) - minutes_of (end_time pt) \<and>
             minutes_of (start_time ct) - minutes_of (end_time pt) \<le> g" using g by simp
    show "ct \<in> set (filter (\<lambda>t. day_of_week t = day_of_week pt) (times cp))" using ct d by simp
    show "pt \<in> set (filter (\<lambda>t. day_of_week t = day_of_week pt) (times pp))" using pt by simp
  qed
  with ne show "patterns_compatible_immediately_after pp cp g"
    unfolding patterns_compatible_immediately_after_def Let_def get_pattern_days_def
    by simp
qed

lemma compatible_after_pids_iff:
  "cpid \<in> set (compatible_after_pids pats spv child pp) \<longleftrightarrow>
     map_of spv (s_id child, cpid) \<noteq> None \<and>
     (\<exists>cp. map_of (pattern_by_id pats) cpid = Some cp \<and>
        patterns_compatible_immediately_after pp cp 30)"
  by (auto simp: compatible_after_pids_def ids_of_section_iff split: option.splits)

text \<open>What the loop over the parent's patterns adds for one of them.\<close>

lemma add_immediately_after_constraint_adds:
  assumes pv: "map_of spv (s_id parent, parent_pid) = Some parent_var"
      and pp: "map_of (pattern_by_id pats) parent_pid = Some parent_pattern"
  shows "(if compatible_after_pids pats spv child parent_pattern = []
          then EqConst parent_var 0
          else SumGe (section_vars_in_order spv (s_id child)
                 (compatible_after_pids pats spv child parent_pattern)) parent_var)
         \<in> set (constraints (add_immediately_after_constraint m parent child pats spv))"
  unfolding add_immediately_after_constraint_def
proof (rule fold_adds [where x = parent_pid])
  show "parent_pid \<in> set (ids_of_section spv (s_id parent))"
    using pv by (simp add: ids_of_section_iff)
  show "set (constraints m') \<subseteq> set (constraints
     (case map_of (pattern_by_id pats) y of
        None \<Rightarrow> m'
      | Some parent_pattern \<Rightarrow>
          (case map_of spv (s_id parent, y) of
             None \<Rightarrow> m'
           | Some parent_var \<Rightarrow>
               (let compatible_child_pids = compatible_after_pids pats spv child parent_pattern
                in if compatible_child_pids = []
                   then Add (EqConst parent_var 0) m'
                   else (let compatible_child_vars =
                               section_vars_in_order spv (s_id child) compatible_child_pids
                         in if compatible_child_vars \<noteq> []
                            then Add (SumGe compatible_child_vars parent_var) m'
                            else m')))))" for y m'
    unfolding Let_def by (intro grows_intros)
  show "(if compatible_after_pids pats spv child parent_pattern = []
          then EqConst parent_var 0
          else SumGe (section_vars_in_order spv (s_id child)
                 (compatible_after_pids pats spv child parent_pattern)) parent_var)
        \<in> set (constraints
     (case map_of (pattern_by_id pats) parent_pid of
        None \<Rightarrow> m'
      | Some parent_pattern \<Rightarrow>
          (case map_of spv (s_id parent, parent_pid) of
             None \<Rightarrow> m'
           | Some parent_var \<Rightarrow>
               (let compatible_child_pids = compatible_after_pids pats spv child parent_pattern
                in if compatible_child_pids = []
                   then Add (EqConst parent_var 0) m'
                   else (let compatible_child_vars =
                               section_vars_in_order spv (s_id child) compatible_child_pids
                         in if compatible_child_vars \<noteq> []
                            then Add (SumGe compatible_child_vars parent_var) m'
                            else m')))))" for m'
  proof (cases "compatible_after_pids pats spv child parent_pattern = []")
    case True
    then show ?thesis by (simp add: pv pp)
  next
    case False
    then obtain c where c: "c \<in> set (compatible_after_pids pats spv child parent_pattern)"
      by (cases "compatible_after_pids pats spv child parent_pattern") auto
    then have "map_of spv (s_id child, c) \<noteq> None" by (simp add: compatible_after_pids_iff)
    with c have "section_vars_in_order spv (s_id child)
        (compatible_after_pids pats spv child parent_pattern) \<noteq> []"
      by (rule section_vars_in_order_nonempty)
    with False show ?thesis by (simp add: pv pp)
  qed
qed

lemma add_linked_section_constraints_adds:
  assumes grp: "(gid, grp) \<in> set (group_sections link_group_id secs)"
      and pc: "link_parent_children grp = Some (parent, children)"
      and child: "child \<in> set children"
      and k: "\<And>m'. k \<in> set (constraints (add_immediately_after_constraint m' parent child pats spv))"
  shows "k \<in> set (constraints (add_linked_section_constraints m secs pats spv ''immediately_after''))"
  unfolding add_linked_section_constraints_def
proof (rule fold_adds [OF _ _ grp])
  show "set (constraints m') \<subseteq> set (constraints
     ((case y of (group_id, grp) \<Rightarrow> \<lambda>m'.
        case link_parent_children grp of
          None \<Rightarrow> m'
        | Some (parent, children) \<Rightarrow>
            fold (\<lambda>child m''.
                    if ''immediately_after'' = ''immediately_after''
                    then add_immediately_after_constraint m'' parent child pats spv
                    else if ''immediately_after'' = ''same_day''
                    then add_same_day_constraint m'' parent child pats spv
                    else if ''immediately_after'' = ''different_day''
                    then add_different_day_constraint m'' parent child pats spv
                    else m'') children m') m'))" for y m'
    by (intro grows_intros add_immediately_after_constraint_grows add_same_day_constraint_grows
          add_different_day_constraint_grows)
  show "k \<in> set (constraints
     ((case (gid, grp) of (group_id, grp) \<Rightarrow> \<lambda>m'.
        case link_parent_children grp of
          None \<Rightarrow> m'
        | Some (parent, children) \<Rightarrow>
            fold (\<lambda>child m''.
                    if ''immediately_after'' = ''immediately_after''
                    then add_immediately_after_constraint m'' parent child pats spv
                    else if ''immediately_after'' = ''same_day''
                    then add_same_day_constraint m'' parent child pats spv
                    else if ''immediately_after'' = ''different_day''
                    then add_different_day_constraint m'' parent child pats spv
                    else m'') children m') m'))" for m'
  proof -
    have "k \<in> set (constraints (fold (\<lambda>child m''.
            add_immediately_after_constraint m'' parent child pats spv) children m'))"
      by (rule fold_adds [OF _ _ child]) (rule add_immediately_after_constraint_grows, rule k)
    then show ?thesis by (simp add: pc)
  qed
qed

lemma add_assignment_constraints_exactly_one:
  assumes "s \<in> set (sections inp)"
      and "section_vars_in_order (section_pattern_vars st) (s_id s) (map p_id (meeting_patterns inp)) \<noteq> []"
  shows "ExactlyOne (section_vars_in_order (section_pattern_vars st) (s_id s)
           (map p_id (meeting_patterns inp)))
         \<in> set (constraints (model (add_assignment_constraints inp st)))"
proof -
  have "ExactlyOne (section_vars_in_order (section_pattern_vars st) (s_id s)
           (map p_id (meeting_patterns inp)))
         \<in> set (constraints (fold (add_section_assignment_constraints inp st) (sections inp) (model st)))"
  proof (rule fold_adds [OF _ _ assms(1)])
    show "set (constraints m) \<subseteq> set (constraints (add_section_assignment_constraints inp st y m))"
      for y m
      by (rule model_le_subset) (rule add_section_assignment_constraints_le)
    show "ExactlyOne (section_vars_in_order (section_pattern_vars st) (s_id s)
           (map p_id (meeting_patterns inp)))
         \<in> set (constraints (add_section_assignment_constraints inp st s m))" for m
      using assms(2) by (simp add: add_section_assignment_constraints_def Let_def)
  qed
  then show ?thesis by (simp add: add_assignment_constraints_def)
qed

lemma build_hard_model_le:
  assumes "build_hard_model lib inp = Inr st"
  shows "model_le (model (add_assignment_constraints inp (create_variables inp init_solver))) (model st)"
    and "model_le (model (create_variables inp init_solver)) (model st)"
proof -
  let ?cv = "create_variables inp init_solver"
  let ?a = "model (add_assignment_constraints inp ?cv)"
  let ?m1 = "add_room_conflict_constraints ?a (sections inp) (rooms inp) (meeting_patterns inp)
               (section_room_pattern_vars ?cv)"
  from assms obtain m2 where
    i: "add_instructor_conflict_constraints lib ?m1 (sections inp) (meeting_patterns inp)
          (section_pattern_vars ?cv) (section_instructor_vars ?cv) = Inr m2"
    and m: "model st =
       add_linked_section_constraints
         (add_cross_list_constraints
           (add_room_feature_constraints
             (add_room_capacity_constraints m2 (sections inp) (rooms inp) (section_room_vars ?cv))
             (sections inp) (rooms inp) (course_features (courses inp)) (section_room_vars ?cv))
           (sections inp) (section_pattern_vars ?cv) (section_room_vars ?cv))
         (sections inp) (meeting_patterns inp) (section_pattern_vars ?cv) (link_connector_type_of inp)"
    by (rule build_hard_model_Inr)
  have 1: "model_le ?a ?m1" by (rule add_room_conflict_constraints_le)
  have 2: "model_le ?m1 m2" using i by (rule add_instructor_conflict_constraints_le)
  have 3: "model_le m2 (model st)"
    unfolding m
    by (rule model_le_trans [OF add_room_capacity_constraints_le
          model_le_trans [OF add_room_feature_constraints_le
            model_le_trans [OF add_cross_list_constraints_le add_linked_section_constraints_le]]])
  show a: "model_le ?a (model st)"
    by (rule model_le_trans [OF 1 model_le_trans [OF 2 3]])
  from add_assignment_constraints_le [of ?cv inp] a
  show "model_le (model ?cv) (model st)" by (rule model_le_trans)
qed

lemma value_at_bit:
  assumes built: "build_hard_model lib inp = Inr st" and feas: "feasible v (model st)"
  shows "value_at v (section_pattern_vars st) sid i = 0 \<or> value_at v (section_pattern_vars st) sid i = 1"
proof (cases "map_of (section_pattern_vars st) (sid, i)")
  case None
  then show ?thesis by (simp add: value_at_def)
next
  case (Some var)
  let ?cv = "create_variables inp init_solver"
  from built have spv: "section_pattern_vars st = section_pattern_vars ?cv"
    by (rule build_hard_model_Inr)
  from Some have "((sid, i), var) \<in> set (section_pattern_vars ?cv)"
    unfolding spv by (rule map_of_SomeD)
  with create_variables_ok [of inp] have ok: "var_in_model (model ?cv) var"
    by (auto simp: pattern_vars_ok_def list_all_iff)
  from build_hard_model_le(2) [OF built] have nv: "num_vars (model st) = num_vars (model ?cv)"
    by (simp add: model_le_def)
  have "Value v var = 0 \<or> Value v var = 1"
  proof (cases var)
    case (BoolVar n)
    with ok nv have "n < num_vars (model st)" by (simp add: var_in_model_def)
    with feas have "v n = 0 \<or> v n = 1" by (simp add: feasible_def list_all_iff)
    with BoolVar show ?thesis by simp
  next
    case (Constant c)
    with ok show ?thesis by (simp add: var_in_model_def)
  qed
  with Some show ?thesis by (simp add: value_at_def)
qed

lemma feasible_sat: "feasible v m \<Longrightarrow> k \<in> set (constraints m) \<Longrightarrow> sat v k"
  by (simp add: feasible_def list_all_iff)

text \<open>
  What the generated constraints give for linked sections. Take the model that
  \<open>solve\<close> builds with the connector \<open>immediately_after\<close>, a link group, its
  parent and one of its children. For every pattern of the input for which the parent
  has a variable: when the list of compatible child patterns that the generator
  computes is empty the model holds the constraint that sets the parent's variable to
  0, otherwise it holds the constraint that the variables of the compatible child
  patterns add up to at least the parent's variable. The generator takes a child
  pattern as compatible when the child has a variable for it, it is a pattern of the
  input, and on some day on which both patterns meet \<open>minutes_of\<close> of the child's
  start and of the parent's end differ by 0 to 30. Hence in every feasible solution
  in which the parent has a chosen pattern, the child has a chosen pattern and it is
  in the list computed for the parent's.
\<close>

lemma linked_immediately_after:
  assumes built: "build_hard_model lib inp = Inr st"
      and conn: "link_connector_type_of inp = ''immediately_after''"
      and grp: "(gid, grp) \<in> set (group_sections link_group_id (sections inp))"
      and pc: "link_parent_children grp = Some (parent, children)"
      and child: "child \<in> set children"
  shows "(\<forall>parent_pid parent_pattern parent_var.
            map_of (section_pattern_vars st) (s_id parent, parent_pid) = Some parent_var
            \<and> map_of (pattern_by_id (meeting_patterns inp)) parent_pid = Some parent_pattern
            \<longrightarrow>
            (if compatible_after_pids (meeting_patterns inp) (section_pattern_vars st) child
                  parent_pattern = []
             then EqConst parent_var 0
             else SumGe (section_vars_in_order (section_pattern_vars st) (s_id child)
                    (compatible_after_pids (meeting_patterns inp) (section_pattern_vars st) child
                       parent_pattern)) parent_var)
            \<in> set (constraints (model st)))
       \<and> (\<forall>cpid parent_pattern.
            cpid \<in> set (compatible_after_pids (meeting_patterns inp) (section_pattern_vars st) child
                          parent_pattern)
            \<longleftrightarrow>
            map_of (section_pattern_vars st) (s_id child, cpid) \<noteq> None \<and>
            (\<exists>cp. map_of (pattern_by_id (meeting_patterns inp)) cpid = Some cp \<and>
               (\<exists>pt \<in> set (times parent_pattern). \<exists>ct \<in> set (times cp).
                  day_of_week pt = day_of_week ct \<and>
                  0 \<le> minutes_of (start_time ct) - minutes_of (end_time pt) \<and>
                  minutes_of (start_time ct) - minutes_of (end_time pt) \<le> 30)))
       \<and> (\<forall>v ppid.
            feasible v (model st)
            \<and> a_meeting_pattern_id (extract_assignment inp st v parent) = Some ppid
            \<longrightarrow>
            (\<exists>parent_pattern cpid.
               map_of (pattern_by_id (meeting_patterns inp)) ppid = Some parent_pattern
               \<and> a_meeting_pattern_id (extract_assignment inp st v child) = Some cpid
               \<and> cpid \<in> set (compatible_after_pids (meeting_patterns inp) (section_pattern_vars st)
                               child parent_pattern)))"
proof -
  let ?cv = "create_variables inp init_solver"
  let ?spv = "section_pattern_vars st"
  let ?pats = "meeting_patterns inp"
  let ?ids = "map p_id ?pats"
  let ?compat = "compatible_after_pids ?pats ?spv child"
  from built obtain m2 where
    m: "model st =
       add_linked_section_constraints
         (add_cross_list_constraints
           (add_room_feature_constraints
             (add_room_capacity_constraints m2 (sections inp) (rooms inp) (section_room_vars ?cv))
             (sections inp) (rooms inp) (course_features (courses inp)) (section_room_vars ?cv))
           (sections inp) (section_pattern_vars ?cv) (section_room_vars ?cv))
         (sections inp) (meeting_patterns inp) (section_pattern_vars ?cv) (link_connector_type_of inp)"
    and spv: "?spv = section_pattern_vars ?cv"
    by (rule build_hard_model_Inr)
  have emitted: "(if ?compat parent_pattern = [] then EqConst parent_var 0
             else SumGe (section_vars_in_order ?spv (s_id child) (?compat parent_pattern)) parent_var)
            \<in> set (constraints (model st))"
    if "map_of ?spv (s_id parent, parent_pid) = Some parent_var"
       "map_of (pattern_by_id ?pats) parent_pid = Some parent_pattern"
    for parent_pid parent_pattern parent_var
  proof -
    from that(1) have a: "map_of (section_pattern_vars ?cv) (s_id parent, parent_pid) = Some parent_var"
      unfolding spv .
    have "(if compatible_after_pids ?pats (section_pattern_vars ?cv) child parent_pattern = []
           then EqConst parent_var 0
           else SumGe (section_vars_in_order (section_pattern_vars ?cv) (s_id child)
                  (compatible_after_pids ?pats (section_pattern_vars ?cv) child parent_pattern))
                  parent_var)
          \<in> set (constraints (add_linked_section_constraints M (sections inp) ?pats
                   (section_pattern_vars ?cv) ''immediately_after''))" for M
      by (rule add_linked_section_constraints_adds [OF grp pc child])
         (rule add_immediately_after_constraint_adds [OF a that(2)])
    then show ?thesis unfolding m conn spv .
  qed
  have compat: "cpid \<in> set (?compat parent_pattern) \<longleftrightarrow>
            map_of ?spv (s_id child, cpid) \<noteq> None \<and>
            (\<exists>cp. map_of (pattern_by_id ?pats) cpid = Some cp \<and>
               (\<exists>pt \<in> set (times parent_pattern). \<exists>ct \<in> set (times cp).
                  day_of_week pt = day_of_week ct \<and>
                  0 \<le> minutes_of (start_time ct) - minutes_of (end_time pt) \<and>
                  minutes_of (start_time ct) - minutes_of (end_time pt) \<le> 30))"
    for cpid parent_pattern
    by (simp add: compatible_after_pids_iff patterns_compatible_immediately_after_iff)
  have follows: "\<exists>parent_pattern cpid.
               map_of (pattern_by_id ?pats) ppid = Some parent_pattern
               \<and> a_meeting_pattern_id (extract_assignment inp st v child) = Some cpid
               \<and> cpid \<in> set (?compat parent_pattern)"
    if feas: "feasible v (model st)"
      and chosen: "a_meeting_pattern_id (extract_assignment inp st v parent) = Some ppid"
    for v ppid
  proof -
    from chosen have "first_chosen v ?spv (s_id parent) ?ids = Some ppid"
      by (simp add: extract_assignment_def Let_def)
    then obtain pvar where ppid: "ppid \<in> set ?ids"
      and pvar: "map_of ?spv (s_id parent, ppid) = Some pvar" and one: "Value v pvar = 1"
      by (rule first_chosen_Some)
    from ppid obtain pp where pp: "map_of (pattern_by_id ?pats) ppid = Some pp"
      using pattern_by_id_in by blast
    have bits: "\<forall>i \<in> set xs. value_at v ?spv (s_id child) i = 0 \<or> value_at v ?spv (s_id child) i = 1"
      for xs
      using value_at_bit [OF built feas] by blast
    have s: "sat v (if ?compat pp = [] then EqConst pvar 0
             else SumGe (section_vars_in_order ?spv (s_id child) (?compat pp)) pvar)"
      using feas emitted [OF pvar pp] by (rule feasible_sat)
    have ne: "?compat pp \<noteq> []"
    proof
      assume "?compat pp = []"
      with s one show False by simp
    qed
    with s one have "1 \<le> sum_list (map (value_at v ?spv (s_id child)) (?compat pp))"
      by (simp add: sum_section_vars_in_order)
    then have "\<exists>x \<in> set (?compat pp). value_at v ?spv (s_id child) x = 1"
      by (rule sum_bits_ge_one [OF bits])
    then obtain cp where cp: "cp \<in> set (?compat pp)"
      and cp1: "value_at v ?spv (s_id child) cp = 1"
      by (rule bexE)
    from cp have cvar: "map_of ?spv (s_id child, cp) \<noteq> None"
      and "\<exists>cpat. map_of (pattern_by_id ?pats) cp = Some cpat"
      by (auto simp: compatible_after_pids_iff)
    then have cp_in: "cp \<in> set ?ids"
      by (auto dest: pattern_by_id_Some)
    from grp have "set grp \<subseteq> set (sections inp)" by (rule group_sections_subset)
    with link_parent_children_subset [OF pc] child have c_in: "child \<in> set (sections inp)"
      by blast
    have "section_vars_in_order (section_pattern_vars ?cv) (s_id child) ?ids \<noteq> []"
      using cp_in cvar unfolding spv by (rule section_vars_in_order_nonempty)
    with c_in have "ExactlyOne (section_vars_in_order (section_pattern_vars ?cv) (s_id child) ?ids)
         \<in> set (constraints (model (add_assignment_constraints inp ?cv)))"
      by (rule add_assignment_constraints_exactly_one)
    with build_hard_model_le(1) [OF built]
    have "ExactlyOne (section_vars_in_order ?spv (s_id child) ?ids) \<in> set (constraints (model st))"
      unfolding spv by (auto simp: model_le_def)
    with feas have "sat v (ExactlyOne (section_vars_in_order ?spv (s_id child) ?ids))"
      by (rule feasible_sat)
    then have total: "sum_list (map (value_at v ?spv (s_id child)) ?ids) = 1"
      by (simp add: sum_section_vars_in_order)
    let ?P = "\<lambda>i. map_of ?spv (s_id child, i) \<noteq> None \<and> value_at v ?spv (s_id child) i = 1"
    have "List.find ?P ?ids \<noteq> None"
      using cp_in cvar cp1 by (auto simp: find_None_iff)
    then obtain c' where f: "List.find ?P ?ids = Some c'" by auto
    then have c'_in: "c' \<in> set ?ids" and c'1: "value_at v ?spv (s_id child) c' = 1"
      by (auto simp: find_Some_iff)
    have "c' = cp"
      using bits total c'_in cp_in c'1 cp1 by (rule sum_bits_one_unique)
    with f have "a_meeting_pattern_id (extract_assignment inp st v child) = Some cp"
      by (simp add: extract_assignment_def Let_def first_chosen_find)
    with pp cp show ?thesis by blast
  qed
  show ?thesis
    apply (intro conjI allI impI)
      apply (erule conjE, erule (1) emitted)
     apply (rule compat)
    apply (erule conjE, erule (1) follows)
    done
qed

lemmas linked_example_defs = input_linked_def section_lecture_def section_lab_def pattern_m10_def
  input_seconds_def pattern_ends_late_def pattern_starts_early_def

lemma hard_model_linked: "build_hard_model lib input_linked = Inr hard_model_linked"
  by (simp add: hard_model_linked_def linked_example_defs example_defs factory_defs hard_defs)

lemma hard_model_seconds: "build_hard_model lib input_seconds = Inr hard_model_seconds"
  by (simp add: hard_model_seconds_def linked_example_defs example_defs factory_defs hard_defs)

text \<open>
  The lecture on MWF 9:00-9:50 and its lab: only the lab on Monday 10:00-11:50 is
  compatible, the model holds \<open>x_lab,4 \<ge> x_lecture,1\<close>, and the solution gives
  the lab pattern 4.
\<close>

lemma linked_immediately_after_example:
  "build_hard_model None input_linked = Inr hard_model_linked
   \<and> link_connector_type_of input_linked = ''immediately_after''
   \<and> (81, [section_lecture, section_lab]) \<in> set (group_sections link_group_id (sections input_linked))
   \<and> link_parent_children [section_lecture, section_lab] = Some (section_lecture, [section_lab])
   \<and> compatible_after_pids (meeting_patterns input_linked) (section_pattern_vars hard_model_linked)
        section_lab pattern_mwf9 = [4]
   \<and> SumGe [BoolVar 4] (BoolVar 0) \<in> set (constraints (model hard_model_linked))
   \<and> feasible solution_linked (model hard_model_linked)
   \<and> a_meeting_pattern_id (extract_assignment input_linked hard_model_linked solution_linked
        section_lecture) = Some 1
   \<and> a_meeting_pattern_id (extract_assignment input_linked hard_model_linked solution_linked
        section_lab) = Some 4"
proof -
  have c: "link_connector_type_of input_linked = ''immediately_after''"
    by (simp add: link_connector_type_of_def input_linked_def basic_solver_input_def)
  have g: "(81, [section_lecture, section_lab]) \<in> set (group_sections link_group_id (sections input_linked))"
    by (simp add: group_sections_def get_or_empty_def input_linked_def section_lecture_def
          section_lab_def new_section_def)
  have p: "link_parent_children [section_lecture, section_lab] = Some (section_lecture, [section_lab])"
    by (simp add: link_parent_children_def section_lecture_def section_lab_def new_section_def)
  have ch: "section_lab \<in> set [section_lab]" by simp
  have k: "compatible_after_pids (meeting_patterns input_linked) (section_pattern_vars hard_model_linked)
        section_lab pattern_mwf9 = [4]"
    by (simp add: hard_model_linked_def linked_example_defs example_defs hard_defs)
  have e: "SumGe [BoolVar 4] (BoolVar 0) \<in> set (constraints (model hard_model_linked))"
    by (simp add: hard_model_linked_def)
  have f: "feasible solution_linked (model hard_model_linked)"
    by (simp add: feasible_def hard_model_linked_def solution_linked_def upt_rec)
  have x: "a_meeting_pattern_id (extract_assignment input_linked hard_model_linked solution_linked
        section_lecture) = Some 1"
    by (simp add: extract_assignment_def first_chosen_def hard_model_linked_def
          solution_linked_def linked_example_defs example_defs)
  note T = linked_immediately_after [OF hard_model_linked [of None] c g p ch]
  from T [THEN conjunct2, THEN conjunct2, rule_format, of solution_linked 1] f x
  obtain pp cpid where
    pp: "map_of (pattern_by_id (meeting_patterns input_linked)) 1 = Some pp"
    and y: "a_meeting_pattern_id (extract_assignment input_linked hard_model_linked solution_linked
        section_lab) = Some cpid"
    and in_c: "cpid \<in> set (compatible_after_pids (meeting_patterns input_linked)
        (section_pattern_vars hard_model_linked) section_lab pp)"
    by blast
  from pp have "pp = pattern_mwf9"
    by (simp add: pattern_by_id_def linked_example_defs example_defs)
  with in_c k have "cpid = 4" by simp
  with y hard_model_linked [of None] c g p k e f x show ?thesis by simp
qed

text \<open>
  Claim C5 fails in the code, which reads the two times in whole minutes and drops
  their seconds. The parent pattern ends on Monday at 9:50:30 and the child pattern
  starts on Monday at 9:50:00, so the child starts before the parent has ended, not
  within the 30 minutes after its end, and the two patterns overlap as
  \<open>patterns_overlap\<close> sees them. The generator still counts the pair as compatible
  (the gap in whole minutes is 0): it does not force the parent's variable to 0, it
  emits \<open>x_child,6 \<ge> x_parent,5\<close>, and the model has a feasible solution that gives
  the parent pattern 5 and the child pattern 6.
\<close>

theorem immediately_after_ignores_seconds:
  "build_hard_model None input_seconds = Inr hard_model_seconds
   \<and> link_connector_type_of input_seconds = ''immediately_after''
   \<and> map_of (section_pattern_vars hard_model_seconds) (21, p_id pattern_ends_late) = Some (BoolVar 0)
   \<and> map_of (section_pattern_vars hard_model_seconds) (22, p_id pattern_starts_early) = Some (BoolVar 3)
   \<and> times pattern_ends_late =
       [meeting 1 (at_time 9 0) \<lparr>hour = 9, minute = 50, second = 30, microsecond = 0\<rparr>]
   \<and> times pattern_starts_early = [meeting 1 (at_time 9 50) (at_time 10 40)]
   \<and> time_lt (at_time 9 50) \<lparr>hour = 9, minute = 50, second = 30, microsecond = 0\<rparr>
   \<and> patterns_overlap pattern_ends_late pattern_starts_early
   \<and> patterns_compatible_immediately_after pattern_ends_late pattern_starts_early 30
   \<and> compatible_after_pids (meeting_patterns input_seconds) (section_pattern_vars hard_model_seconds)
        (sections input_seconds ! 1) pattern_ends_late = [6]
   \<and> EqConst (BoolVar 0) 0 \<notin> set (constraints (model hard_model_seconds))
   \<and> SumGe [BoolVar 3] (BoolVar 0) \<in> set (constraints (model hard_model_seconds))
   \<and> feasible solution_seconds (model hard_model_seconds)
   \<and> a_meeting_pattern_id (extract_assignment input_seconds hard_model_seconds solution_seconds
        (sections input_seconds ! 0)) = Some 5
   \<and> a_meeting_pattern_id (extract_assignment input_seconds hard_model_seconds solution_seconds
        (sections input_seconds ! 1)) = Some 6"
proof -
  have 1: "link_connector_type_of input_seconds = ''immediately_after''"
    by (simp add: link_connector_type_of_def input_seconds_def basic_solver_input_def)
  have 2: "map_of (section_pattern_vars hard_model_seconds) (21, p_id pattern_ends_late) = Some (BoolVar 0)"
      "map_of (section_pattern_vars hard_model_seconds) (22, p_id pattern_starts_early) = Some (BoolVar 3)"
      "EqConst (BoolVar 0) 0 \<notin> set (constraints (model hard_model_seconds))"
      "SumGe [BoolVar 3] (BoolVar 0) \<in> set (constraints (model hard_model_seconds))"
    by (simp_all add: hard_model_seconds_def pattern_ends_late_def pattern_starts_early_def)
  have 3: "times pattern_ends_late =
       [meeting 1 (at_time 9 0) \<lparr>hour = 9, minute = 50, second = 30, microsecond = 0\<rparr>]"
      "times pattern_starts_early = [meeting 1 (at_time 9 50) (at_time 10 40)]"
    by (simp_all add: pattern_ends_late_def pattern_starts_early_def)
  have 4: "time_lt (at_time 9 50) \<lparr>hour = 9, minute = 50, second = 30, microsecond = 0\<rparr>"
    by (simp add: time_lt_def at_time_def)
  have 5: "patterns_compatible_immediately_after pattern_ends_late pattern_starts_early 30"
    by (simp add: patterns_compatible_immediately_after_def get_pattern_days_def minutes_of_def
          pattern_ends_late_def pattern_starts_early_def meeting_def at_time_def)
  have 6: "feasible solution_seconds (model hard_model_seconds)"
    by (simp add: feasible_def hard_model_seconds_def solution_seconds_def list_all_iff)
  have 7: "a_meeting_pattern_id (extract_assignment input_seconds hard_model_seconds solution_seconds
        (sections input_seconds ! 0)) = Some 5"
      "a_meeting_pattern_id (extract_assignment input_seconds hard_model_seconds solution_seconds
        (sections input_seconds ! 1)) = Some 6"
    by (simp_all add: extract_assignment_def first_chosen_def hard_model_seconds_def
          solution_seconds_def linked_example_defs example_defs)
  have 8: "patterns_overlap pattern_ends_late pattern_starts_early"
    by (simp add: patterns_overlap_def time_lt_def pattern_ends_late_def pattern_starts_early_def
          meeting_def at_time_def)
  have 9: "compatible_after_pids (meeting_patterns input_seconds)
        (section_pattern_vars hard_model_seconds) (sections input_seconds ! 1) pattern_ends_late = [6]"
    by (simp add: hard_model_seconds_def linked_example_defs example_defs hard_defs)
  from hard_model_seconds [of None] 1 2 3 4 5 6 7 8 9 show ?thesis by simp
qed


end
